(* ===== verification/Prelude.thy ===== *)
theory Prelude
  imports Main "HOL-Library.Word"
begin

text \<open>
  Shared vocabulary of the development: byte strings, results with an error on the left,
  the named collections that the component theories fill, and the generic lemmas on lists,
  results and decimal numerals that they share.

  A Go \<open>string\<close> is an immutable byte sequence: it is a \<^typ>\<open>string\<close> here, one
  \<^typ>\<open>char\<close> per byte. A Go pair \<open>(value, error)\<close> whose value is only used when the
  error is nil is a sum: \<open>Inl\<close> the error, \<open>Inr\<close> the value.
\<close>

section \<open>Types and collections\<close>

type_synonym byte = "8 word"
type_synonym bytes = "byte list"

text \<open>\<open>time.Duration\<close> is an \<open>int64\<close> count of nanoseconds.\<close>

type_synonym duration = "64 word"

type_synonym ('e, 'a) result = "'e + 'a"

named_theorems step_simps "one-step equations of the state machines"
named_theorems str_simps "equations that evaluate the string library on literals"

section \<open>Results\<close>

definition bind_result :: "('e, 'a) result \<Rightarrow> ('a \<Rightarrow> ('e, 'b) result) \<Rightarrow> ('e, 'b) result" where
  "bind_result r f = (case r of Inl e \<Rightarrow> Inl e | Inr a \<Rightarrow> f a)"

lemma bind_result_simps [simp]:
  "bind_result (Inl e) f = Inl e"
  "bind_result (Inr a) f = f a"
  by (simp_all add: bind_result_def)

lemma bind_result_Inr_iff:
  "bind_result r f = Inr b \<longleftrightarrow> (\<exists>a. r = Inr a \<and> f a = Inr b)"
  by (cases r) auto

lemma bind_result_Inl_iff:
  "bind_result r f = Inl e \<longleftrightarrow> r = Inl e \<or> (\<exists>a. r = Inr a \<and> f a = Inl e)"
  by (cases r) auto

definition map_err :: "('e \<Rightarrow> 'f) \<Rightarrow> ('e, 'a) result \<Rightarrow> ('f, 'a) result" where
  "map_err w r = (case r of Inl e \<Rightarrow> Inl (w e) | Inr a \<Rightarrow> Inr a)"

lemma map_err_simps [simp]:
  "map_err w (Inl e) = Inl (w e)"
  "map_err w (Inr a) = Inr a"
  by (simp_all add: map_err_def)

lemma map_err_Inr_iff [simp]: "map_err w r = Inr a \<longleftrightarrow> r = Inr a"
  by (cases r) auto

section \<open>Decimal and hexadecimal numerals\<close>

text \<open>
  \<open>strconv.Itoa\<close>, the verb \<open>%d\<close> and the verb \<open>%x\<close> print a number without leading
  zeros and with a leading minus sign when it is negative.
\<close>

definition digit_char :: "nat \<Rightarrow> char" where
  "digit_char d = char_of ((if d < 10 then 48 + d else 87 + d) :: nat)"

function num_str :: "nat \<Rightarrow> nat \<Rightarrow> string" where
  "num_str b n = (if n < b \<or> b < 2 then [digit_char n] else num_str b (n div b) @ [digit_char (n mod b)])"
  by pat_completeness auto
termination
  by (relation "measure snd") auto

declare num_str.simps [simp del]

abbreviation nat_str :: "nat \<Rightarrow> string" where
  "nat_str \<equiv> num_str 10"

definition int_str :: "int \<Rightarrow> string" where
  "int_str i = (if i < 0 then ''-'' @ nat_str (nat (- i)) else nat_str (nat i))"

definition hex_str :: "int \<Rightarrow> string" where
  "hex_str i = (if i < 0 then ''-'' @ num_str 16 (nat (- i)) else num_str 16 (nat i))"

definition is_digit :: "char \<Rightarrow> bool" where
  "is_digit c \<longleftrightarrow> (48::nat) \<le> of_char c \<and> of_char c \<le> (57::nat)"

definition digit_val :: "char \<Rightarrow> nat" where
  "digit_val c = of_char c - 48"

definition dec_val :: "string \<Rightarrow> nat" where
  "dec_val s = foldl (\<lambda>n c. n * 10 + digit_val c) 0 s"

lemma of_char_digit_char:
  "d < 16 \<Longrightarrow> of_char (digit_char d) = (if d < 10 then 48 + d else 87 + d :: nat)"
  by (auto simp: digit_char_def)

lemma digit_char_dec [simp]:
  "d < 10 \<Longrightarrow> is_digit (digit_char d)"
  "d < 10 \<Longrightarrow> digit_val (digit_char d) = d"
  by (simp_all add: is_digit_def digit_val_def of_char_digit_char)

lemma num_str_nonempty [simp]: "num_str b n \<noteq> []"
  by (subst num_str.simps) simp

lemma nat_str_digits: "\<forall>c \<in> set (nat_str n). is_digit c"
proof (induction n rule: less_induct)
  case (less n)
  show ?case
  proof (cases "n < 10")
    case True
    then show ?thesis by (subst num_str.simps) simp
  next
    case False
    then have "\<forall>c \<in> set (nat_str (n div 10)). is_digit c" by (intro less) simp
    with False show ?thesis by (subst num_str.simps) auto
  qed
qed

lemma dec_val_nat_str [simp]: "dec_val (nat_str n) = n"
proof (induction n rule: less_induct)
  case (less n)
  show ?case
  proof (cases "n < 10")
    case True
    then show ?thesis by (subst num_str.simps) (simp add: dec_val_def)
  next
    case False
    then have "dec_val (nat_str (n div 10)) = n div 10" by (intro less) simp
    with False show ?thesis
      by (subst num_str.simps) (simp add: dec_val_def)
  qed
qed

lemma nat_str_inject [simp]: "nat_str m = nat_str n \<longleftrightarrow> m = n"
  by (metis dec_val_nat_str)

lemma nat_str_hd_digit: "is_digit (hd (nat_str n))"
  using nat_str_digits [of n] by (metis hd_in_set num_str_nonempty)

lemma digit_not_sign [simp]:
  "is_digit c \<Longrightarrow> c \<noteq> CHR ''-''"
  "is_digit c \<Longrightarrow> c \<noteq> CHR ''+''"
  "is_digit c \<Longrightarrow> c \<noteq> CHR '':''"
  "is_digit c \<Longrightarrow> c \<noteq> CHR ''.''"
  "is_digit c \<Longrightarrow> c \<noteq> CHR ''[''"
  "is_digit c \<Longrightarrow> c \<noteq> CHR '']''"
  by (auto simp: is_digit_def)

section \<open>Lists\<close>

lemma takeWhile_dropWhile_first:
  "c \<notin> set xs \<Longrightarrow> takeWhile (\<lambda>x. x \<noteq> c) (xs @ c # ys) = xs"
  "c \<notin> set xs \<Longrightarrow> dropWhile (\<lambda>x. x \<noteq> c) (xs @ c # ys) = c # ys"
  by (induction xs) auto

lemma append_eq_at_char:
  assumes "c \<notin> set xs" "c \<notin> set xs'" "xs @ c # ys = xs' @ c # ys'"
  shows "xs = xs' \<and> ys = ys'"
  using assms takeWhile_dropWhile_first [of c xs ys] takeWhile_dropWhile_first [of c xs' ys']
  by (metis list.inject)

end
