(* ===== verification/AsyncLog.thy ===== *)
theory AsyncLog
  imports Prelude "HOL-Library.Sublist"
begin

text \<open>
  \<open>internal/logger/async_writer.go\<close>: log lines go through a bounded channel to a worker
  goroutine that copies them to a buffered writer over the real output. The channel and the
  buffered writer are Go's; they are modelled here behind two interfaces, and the writer's
  guarantees (nothing lost, nothing reordered, nothing written twice, everything out after
  \<open>Close\<close>) are proved over those interfaces.
\<close>

section \<open>A buffered Go channel\<close>

text \<open>
  A channel made by \<open>make(chan T, cap)\<close>. \<open>waiting\<close> says that the only receiver is parked in a
  receive: a value sent then is handed over directly (\<open>handoff\<close>) and takes no slot.
\<close>

record 'a chan =
  ch_cap :: nat
  ch_queue :: "'a list"
  ch_handoff :: "'a option"
  ch_waiting :: bool
  ch_closed :: bool

definition make_chan :: "nat \<Rightarrow> 'a chan" where
  "make_chan n = \<lparr>ch_cap = n, ch_queue = [], ch_handoff = None, ch_waiting = False, ch_closed = False\<rparr>"

text \<open>A send in a \<open>select\<close> with a \<open>default\<close>: \<open>None\<close> when the default is taken. (Sending on a
  closed channel panics; the callers below test that first.)\<close>

definition try_send :: "'a chan \<Rightarrow> 'a \<Rightarrow> 'a chan option" where
  "try_send c x =
     (if ch_waiting c then Some (c\<lparr>ch_waiting := False, ch_handoff := Some x\<rparr>)
      else if length (ch_queue c) < ch_cap c then Some (c\<lparr>ch_queue := ch_queue c @ [x]\<rparr>)
      else None)"

definition chan_recv :: "'a chan \<Rightarrow> ('a \<times> 'a chan) option" where
  "chan_recv c =
     (case ch_handoff c of
        Some x \<Rightarrow> Some (x, c\<lparr>ch_handoff := None\<rparr>)
      | None \<Rightarrow> (case ch_queue c of [] \<Rightarrow> None | x # xs \<Rightarrow> Some (x, c\<lparr>ch_queue := xs\<rparr>)))"

definition chan_pending :: "'a chan \<Rightarrow> 'a list" where
  "chan_pending c = (case ch_handoff c of Some x \<Rightarrow> [x] | None \<Rightarrow> []) @ ch_queue c"

text \<open>What holds of every channel the operations produce: a parked receiver has nothing to
  read, and the buffer never exceeds its capacity.\<close>

definition chan_inv :: "'a chan \<Rightarrow> bool" where
  "chan_inv c \<longleftrightarrow> (ch_waiting c \<longrightarrow> chan_pending c = []) \<and> length (ch_queue c) \<le> ch_cap c"

text \<open>The interface the log writer uses: a queue with a capacity test on the sending side.\<close>

locale fifo_channel =
  fixes send :: "'c \<Rightarrow> 'a \<Rightarrow> 'c option"
    and recv :: "'c \<Rightarrow> ('a \<times> 'c) option"
    and pending :: "'c \<Rightarrow> 'a list"
    and inv :: "'c \<Rightarrow> bool"
  assumes send_pending: "inv c \<Longrightarrow> send c x = Some c' \<Longrightarrow> pending c' = pending c @ [x]"
    and send_inv: "inv c \<Longrightarrow> send c x = Some c' \<Longrightarrow> inv c'"
    and recv_pending: "recv c = Some (x, c') \<Longrightarrow> pending c = x # pending c'"
    and recv_inv: "inv c \<Longrightarrow> recv c = Some (x, c') \<Longrightarrow> inv c'"
    and recv_None: "recv c = None \<longleftrightarrow> pending c = []"

interpretation go_chan: fifo_channel try_send chan_recv chan_pending chan_inv
  by unfold_locales
    (auto simp: try_send_def chan_recv_def chan_pending_def chan_inv_def
      split: if_splits option.splits list.splits)

section \<open>bufio.Writer\<close>

text \<open>
  The output is any \<open>io.Writer\<close>: \<open>sink out p\<close> is \<open>None\<close> when all of \<open>p\<close> is written after
  \<open>out\<close>, and \<open>Some n\<close> when an error is returned after the first \<open>n\<close> bytes (the \<open>io.Writer\<close>
  contract has no short write without an error). \<open>bufio.NewWriter\<close> buffers 4096 bytes and keeps
  its first error for ever.
\<close>

type_synonym sink = "string \<Rightarrow> string \<Rightarrow> nat option"

record bufio =
  bw_out :: string
  bw_buf :: string
  bw_err :: bool

definition bw_size :: nat where
  "bw_size = 4096"

definition new_bufio :: bufio where
  "new_bufio = \<lparr>bw_out = [], bw_buf = [], bw_err = False\<rparr>"

definition bw_flush :: "sink \<Rightarrow> bufio \<Rightarrow> bufio" where
  "bw_flush sk b =
     (if bw_err b \<or> bw_buf b = [] then b
      else (case sk (bw_out b) (bw_buf b) of
          None \<Rightarrow> b\<lparr>bw_out := bw_out b @ bw_buf b, bw_buf := []\<rparr>
        | Some n \<Rightarrow> b\<lparr>bw_out := bw_out b @ take n (bw_buf b), bw_buf := drop n (bw_buf b), bw_err := True\<rparr>))"

text \<open>A write to the output that bypasses the empty buffer.\<close>

definition bw_direct :: "sink \<Rightarrow> bufio \<Rightarrow> string \<Rightarrow> bufio" where
  "bw_direct sk b p =
     (case sk (bw_out b) p of
        None \<Rightarrow> b\<lparr>bw_out := bw_out b @ p\<rparr>
      | Some n \<Rightarrow> b\<lparr>bw_out := bw_out b @ take n p, bw_err := True\<rparr>)"

text \<open>The loop of \<open>bufio.Writer.Write\<close>: while the data does not fit and there is no error.\<close>

function bw_write :: "sink \<Rightarrow> bufio \<Rightarrow> string \<Rightarrow> bufio" where
  "bw_write sk b p =
     (let avail = bw_size - length (bw_buf b) in
      if avail < length p \<and> \<not> bw_err b then
        (if bw_buf b = [] then bw_write sk (bw_direct sk b p) []
         else bw_write sk (bw_flush sk (b\<lparr>bw_buf := bw_buf b @ take avail p\<rparr>)) (drop avail p))
      else if bw_err b then b
      else b\<lparr>bw_buf := bw_buf b @ p\<rparr>)"
  by pat_completeness auto
termination
  by (relation "measures [\<lambda>(sk, b, p). length p, \<lambda>(sk, b, p). if bw_err b then 0 else length (bw_buf b)]")
    (auto simp: bw_flush_def split: option.splits)

declare bw_write.simps [simp del]

text \<open>The interface of a buffered output: what has reached the output and what is still held.\<close>

locale byte_stream =
  fixes put :: "'w \<Rightarrow> string \<Rightarrow> 'w"
    and flush :: "'w \<Rightarrow> 'w"
    and out :: "'w \<Rightarrow> string"
    and held :: "'w \<Rightarrow> string"
    and failed :: "'w \<Rightarrow> bool"
  assumes put_ok: "\<not> failed (put w p) \<Longrightarrow> \<not> failed w \<and> out (put w p) @ held (put w p) = out w @ held w @ p"
    and put_prefix: "\<not> failed w \<Longrightarrow> prefix (out (put w p)) (out w @ held w @ p)"
    and put_failed: "failed w \<Longrightarrow> put w p = w"
    and flush_ok: "\<not> failed (flush w) \<Longrightarrow> \<not> failed w \<and> held (flush w) = [] \<and> out (flush w) = out w @ held w"
    and flush_prefix: "\<not> failed w \<Longrightarrow> prefix (out (flush w)) (out w @ held w)"
    and flush_failed: "failed w \<Longrightarrow> flush w = w"

lemma bw_flush_err: "bw_err b \<Longrightarrow> bw_flush sk b = b"
  by (simp add: bw_flush_def)

lemma bw_flush_cases:
  assumes "\<not> bw_err b"
  obtains "bw_flush sk b = b\<lparr>bw_out := bw_out b @ bw_buf b, bw_buf := []\<rparr>"
  | n where "bw_flush sk b =
      b\<lparr>bw_out := bw_out b @ take n (bw_buf b), bw_buf := drop n (bw_buf b), bw_err := True\<rparr>"
  using assms by (cases b) (fastforce simp: bw_flush_def split: option.splits if_splits)

lemma bw_write_err: "bw_err b \<Longrightarrow> bw_write sk b p = b"
  by (simp add: bw_write.simps)

lemma prefix_take_append [simp]: "prefix (take n u) (u @ v)"
  by (meson prefix_prefix take_is_prefix)

lemma bw_write_Nil [simp]: "bw_write sk b [] = b"
  by (simp add: bw_write.simps [of sk b "[]"])

lemma bw_write_stream:
  "(\<not> bw_err (bw_write sk b p) \<longrightarrow>
      \<not> bw_err b \<and> bw_out (bw_write sk b p) @ bw_buf (bw_write sk b p) = bw_out b @ bw_buf b @ p) \<and>
   (\<not> bw_err b \<longrightarrow> prefix (bw_out (bw_write sk b p)) (bw_out b @ bw_buf b @ p))"
proof (induction sk b p rule: bw_write.induct)
  case (1 sk b p)
  let ?avail = "bw_size - length (bw_buf b)"
  consider (err) "bw_err b" | (fits) "\<not> bw_err b" "length p \<le> ?avail"
    | (direct) "\<not> bw_err b" "?avail < length p" "bw_buf b = []"
    | (fill) "\<not> bw_err b" "?avail < length p" "bw_buf b \<noteq> []"
    by fastforce
  then show ?case
  proof cases
    case err
    then show ?thesis by (simp add: bw_write_err)
  next
    case fits
    then show ?thesis by (simp add: bw_write.simps [of sk b p])
  next
    case direct
    then have eq: "bw_write sk b p = bw_write sk (bw_direct sk b p) []"
      by (simp add: bw_write.simps [of sk b p])
    show ?thesis
    proof (cases "sk (bw_out b) p")
      case None
      with direct show ?thesis by (simp add: eq bw_direct_def)
    next
      case (Some n)
      with direct have "bw_write sk b p = bw_direct sk b p"
        by (simp add: eq bw_write_err bw_direct_def)
      with Some direct show ?thesis by (simp add: bw_direct_def take_is_prefix)
    qed
  next
    case fill
    let ?b1 = "b\<lparr>bw_buf := bw_buf b @ take ?avail p\<rparr>"
    from fill have eq: "bw_write sk b p = bw_write sk (bw_flush sk ?b1) (drop ?avail p)"
      by (simp add: bw_write.simps [of sk b p] Let_def)
    have IH: "(\<not> bw_err (bw_write sk b p) \<longrightarrow> \<not> bw_err (bw_flush sk ?b1) \<and>
        bw_out (bw_write sk b p) @ bw_buf (bw_write sk b p) =
        bw_out (bw_flush sk ?b1) @ bw_buf (bw_flush sk ?b1) @ drop ?avail p) \<and>
      (\<not> bw_err (bw_flush sk ?b1) \<longrightarrow> prefix (bw_out (bw_write sk b p))
        (bw_out (bw_flush sk ?b1) @ bw_buf (bw_flush sk ?b1) @ drop ?avail p))"
      unfolding eq using fill by (intro "1.IH"(2)) auto
    from fill have ne: "\<not> bw_err ?b1" by simp
    then show ?thesis
    proof (cases rule: bw_flush_cases [of _ sk])
      case 1
      with IH fill show ?thesis by simp
    next
      case (2 n)
      then have "bw_write sk b p = bw_flush sk ?b1" by (simp add: eq bw_write_err)
      moreover have "bw_buf b @ p = (bw_buf b @ take ?avail p) @ drop ?avail p" by simp
      then have "prefix (take n (bw_buf b @ take ?avail p)) (bw_buf b @ p)"
        using prefix_take_append by metis
      ultimately show ?thesis using 2 fill by simp
    qed
  qed
qed

interpretation go_bufio: byte_stream "bw_write sk" "bw_flush sk" bw_out bw_buf bw_err for sk
proof unfold_locales
  fix b and p :: string
  show "\<not> bw_err (bw_flush sk b) \<Longrightarrow>
      \<not> bw_err b \<and> bw_buf (bw_flush sk b) = [] \<and> bw_out (bw_flush sk b) = bw_out b @ bw_buf b"
    by (auto simp: bw_flush_def split: if_splits option.splits)
  show "\<not> bw_err b \<Longrightarrow> prefix (bw_out (bw_flush sk b)) (bw_out b @ bw_buf b)"
    by (simp add: bw_flush_def take_is_prefix split: option.splits)
qed (use bw_write_stream bw_write_err bw_flush_err in blast)+

section \<open>The pump from the channel to the output\<close>

text \<open>
  A channel of log lines drained into a buffered output, with \<open>acc\<close> the lines accepted so
  far: while the output works, what is written, held and still queued is exactly what was
  accepted, in order; after an error what is written is still a prefix of it.
\<close>

locale log_pump = fifo_channel send recv pending inv + byte_stream put flush out held failed
  for send :: "'c \<Rightarrow> string \<Rightarrow> 'c option"
    and recv :: "'c \<Rightarrow> (string \<times> 'c) option"
    and pending :: "'c \<Rightarrow> string list"
    and inv :: "'c \<Rightarrow> bool"
    and put :: "'w \<Rightarrow> string \<Rightarrow> 'w"
    and flush :: "'w \<Rightarrow> 'w"
    and out :: "'w \<Rightarrow> string"
    and held :: "'w \<Rightarrow> string"
    and failed :: "'w \<Rightarrow> bool"
begin

definition pumped :: "'c \<Rightarrow> 'w \<Rightarrow> string list \<Rightarrow> bool" where
  "pumped c w acc \<longleftrightarrow> inv c \<and> prefix (out w) (concat acc) \<and>
     (\<not> failed w \<longrightarrow> out w @ held w @ concat (pending c) = concat acc)"

lemma pumped_send: "pumped c w acc \<Longrightarrow> send c x = Some c' \<Longrightarrow> pumped c' w (acc @ [x])"
  by (auto simp: pumped_def send_pending send_inv intro: prefix_order.trans)

lemma pumped_recv:
  assumes "pumped c w acc" "recv c = Some (x, c')"
  shows "pumped c' (put w x) acc"
proof (cases "failed w")
  case True
  with assms show ?thesis by (auto simp: pumped_def put_failed recv_inv)
next
  case False
  with assms have all: "concat acc = out w @ held w @ x @ concat (pending c')"
    by (auto simp: pumped_def dest: recv_pending)
  have "prefix (out (put w x)) (out w @ held w @ x)"
    using False by (rule put_prefix)
  then have "prefix (out (put w x)) (concat acc)"
    unfolding all by (metis append_assoc prefix_append prefix_prefix)
  moreover have "out (put w x) @ held (put w x) @ concat (pending c') = concat acc"
    if "\<not> failed (put w x)"
    using put_ok [OF that] all by (metis append_assoc)
  ultimately show ?thesis using assms by (auto simp: pumped_def intro: recv_inv)
qed

lemma pumped_flush:
  assumes "pumped c w acc"
  shows "pumped c (flush w) acc"
proof (cases "failed w")
  case True
  with assms show ?thesis by (simp add: flush_failed)
next
  case False
  with assms have all: "concat acc = out w @ held w @ concat (pending c)" and "inv c"
    by (auto simp: pumped_def)
  have "prefix (out (flush w)) (concat acc)"
    unfolding all using flush_prefix [OF False] by (metis append_assoc prefix_prefix)
  then show ?thesis
    using \<open>inv c\<close> flush_ok [of w] all by (auto simp: pumped_def)
qed

lemma pumped_all_out:
  "pumped c w acc \<Longrightarrow> \<not> failed w \<Longrightarrow> pending c = [] \<Longrightarrow> held w = [] \<Longrightarrow> out w = concat acc"
  by (simp add: pumped_def)

end

interpretation pump: log_pump try_send chan_recv chan_pending chan_inv
  "bw_write sk" "bw_flush sk" bw_out bw_buf bw_err for sk ..

section \<open>AsyncWriter\<close>

text \<open>
  The writer: its channel, the worker's buffered writer (whose output is \<open>inner\<close>) and
  whether the worker has returned, which is what \<open>wg.Wait\<close> waits for.
\<close>

record AsyncWriter =
  aw_buffer :: "string chan"
  aw_bw :: bufio
  aw_done :: bool

text \<open>\<open>make(chan []byte, queueSize)\<close> panics on a negative size: \<open>None\<close>.\<close>

definition NewAsyncWriter :: "int \<Rightarrow> AsyncWriter option" where
  "NewAsyncWriter queueSize =
     (if queueSize < 0 then None
      else Some \<lparr>aw_buffer = make_chan (nat queueSize), aw_bw = new_bufio, aw_done = False\<rparr>)"

datatype aw_result =
    Wrote nat
  | Overflow nat \<comment> \<open>the error "async buffer overflow, dropped n bytes"\<close>
  | SendPanic
  | ClosePanic
  | Quiet

text \<open>
  The copy of \<open>p\<close> is a value of the model, so a later change of the caller's slice cannot
  reach the queue. A \<open>select\<close> whose send is on a closed channel panics.
\<close>

definition aw_Write :: "AsyncWriter \<Rightarrow> string \<Rightarrow> AsyncWriter \<times> aw_result" where
  "aw_Write aw p =
     (if ch_closed (aw_buffer aw) then (aw, SendPanic)
      else (case try_send (aw_buffer aw) p of
          Some c \<Rightarrow> (aw\<lparr>aw_buffer := c\<rparr>, Wrote (length p))
        | None \<Rightarrow> (aw, Overflow (length p))))"

text \<open>
  One step of the worker's loop. \<open>Recv\<close>, \<open>Tick\<close> and \<open>RecvClosed\<close> are the outcomes of its \<open>select\<close>;
  \<open>Park\<close> is the select blocking because none is ready. A receive from a closed channel
  reports \<open>ok = false\<close> only when nothing is left to read.
\<close>

datatype worker_event = Recv | Tick | RecvClosed | Park

fun aw_worker :: "sink \<Rightarrow> AsyncWriter \<Rightarrow> worker_event \<Rightarrow> AsyncWriter option" where
  "aw_worker sk aw Recv =
     (if aw_done aw then None
      else (case chan_recv (aw_buffer aw) of
          None \<Rightarrow> None
        | Some (data, c) \<Rightarrow> Some (aw\<lparr>aw_buffer := c, aw_bw := bw_write sk (aw_bw aw) data\<rparr>)))"
| "aw_worker sk aw Tick =
     (if aw_done aw \<or> ch_handoff (aw_buffer aw) \<noteq> None then None
      else Some (aw\<lparr>aw_buffer := (aw_buffer aw)\<lparr>ch_waiting := False\<rparr>, aw_bw := bw_flush sk (aw_bw aw)\<rparr>))"
| "aw_worker sk aw RecvClosed =
     (if aw_done aw \<or> \<not> ch_closed (aw_buffer aw) \<or> chan_recv (aw_buffer aw) \<noteq> None then None
      else Some (aw\<lparr>aw_buffer := (aw_buffer aw)\<lparr>ch_waiting := False\<rparr>,
                    aw_bw := bw_flush sk (aw_bw aw), aw_done := True\<rparr>))"
| "aw_worker sk aw Park =
     (if aw_done aw \<or> ch_closed (aw_buffer aw) \<or> chan_recv (aw_buffer aw) \<noteq> None then None
      else Some (aw\<lparr>aw_buffer := (aw_buffer aw)\<lparr>ch_waiting := True\<rparr>\<rparr>))"

text \<open>\<open>Close\<close> closes the channel (closing it twice panics) and then waits for the worker: its
  second half returns only once the worker has.\<close>

definition aw_Close :: "AsyncWriter \<Rightarrow> AsyncWriter \<times> aw_result" where
  "aw_Close aw =
     (if ch_closed (aw_buffer aw) then (aw, ClosePanic)
      else (aw\<lparr>aw_buffer := (aw_buffer aw)\<lparr>ch_closed := True\<rparr>\<rparr>, Quiet))"

definition aw_Close_returns :: "AsyncWriter \<Rightarrow> bool" where
  "aw_Close_returns aw \<longleftrightarrow> aw_done aw"

section \<open>Runs\<close>

text \<open>Any interleaving of callers and the worker: a list of events, with the lines accepted.\<close>

datatype aw_event = CallWrite string | CallClose | Worker worker_event

fun aw_step :: "sink \<Rightarrow> AsyncWriter \<Rightarrow> aw_event \<Rightarrow> (AsyncWriter \<times> string list) option" where
  "aw_step sk aw (CallWrite p) =
     (case aw_Write aw p of (aw', Wrote _) \<Rightarrow> Some (aw', [p]) | (aw', _) \<Rightarrow> Some (aw', []))"
| "aw_step sk aw CallClose = Some (fst (aw_Close aw), [])"
| "aw_step sk aw (Worker e) = map_option (\<lambda>aw'. (aw', [])) (aw_worker sk aw e)"

fun aw_run :: "sink \<Rightarrow> AsyncWriter \<Rightarrow> aw_event list \<Rightarrow> (AsyncWriter \<times> string list) option" where
  "aw_run sk aw [] = Some (aw, [])"
| "aw_run sk aw (e # es) =
     (case aw_step sk aw e of
        None \<Rightarrow> None
      | Some (aw1, acc1) \<Rightarrow> map_option (\<lambda>(aw2, acc2). (aw2, acc1 @ acc2)) (aw_run sk aw1 es))"

section \<open>Invariant\<close>

definition aw_inv :: "AsyncWriter \<Rightarrow> string list \<Rightarrow> bool" where
  "aw_inv aw acc \<longleftrightarrow>
     pump.pumped (aw_buffer aw) (aw_bw aw) acc \<and>
     (aw_done aw \<longrightarrow> ch_closed (aw_buffer aw) \<and> chan_pending (aw_buffer aw) = [] \<and>
        (bw_err (aw_bw aw) \<or> bw_buf (aw_bw aw) = []))"

lemma chan_flags [simp]:
  "chan_pending (c\<lparr>ch_waiting := w\<rparr>) = chan_pending c"
  "chan_pending (c\<lparr>ch_closed := b\<rparr>) = chan_pending c"
  "chan_inv (c\<lparr>ch_closed := b\<rparr>) = chan_inv c"
  "chan_inv c \<Longrightarrow> chan_inv (c\<lparr>ch_waiting := False\<rparr>)"
  "chan_inv c \<Longrightarrow> chan_pending c = [] \<Longrightarrow> chan_inv (c\<lparr>ch_waiting := True\<rparr>)"
  by (simp_all add: chan_pending_def chan_inv_def)

lemma pumped_flags:
  "pump.pumped c w acc \<Longrightarrow> pump.pumped (c\<lparr>ch_closed := b\<rparr>) w acc"
  "pump.pumped c w acc \<Longrightarrow> pump.pumped (c\<lparr>ch_waiting := False\<rparr>) w acc"
  "pump.pumped c w acc \<Longrightarrow> chan_pending c = [] \<Longrightarrow> pump.pumped (c\<lparr>ch_waiting := True\<rparr>) w acc"
  by (auto simp: pump.pumped_def)

lemma NewAsyncWriter_inv: "NewAsyncWriter n = Some aw \<Longrightarrow> aw_inv aw []"
  by (auto simp: NewAsyncWriter_def aw_inv_def pump.pumped_def make_chan_def new_bufio_def
      chan_inv_def chan_pending_def split: if_splits)

lemma bw_flush_held: "bw_buf (bw_flush sk b) \<noteq> [] \<Longrightarrow> bw_err (bw_flush sk b)"
  using go_bufio.flush_ok [of sk b] by blast

lemma aw_worker_inv:
  assumes "aw_inv aw acc" "aw_worker sk aw e = Some aw'"
  shows "aw_inv aw' acc"
proof (cases e)
  case Recv
  with assms show ?thesis
    by (auto simp: aw_inv_def intro: pump.pumped_recv split: if_splits option.splits)
next
  case Tick
  with assms show ?thesis
    by (auto simp: aw_inv_def pump.pumped_flush pumped_flags split: if_splits)
next
  case RecvClosed
  with assms show ?thesis
    by (auto simp: aw_inv_def go_chan.recv_None pump.pumped_flush pumped_flags
        intro: bw_flush_held split: if_splits)
next
  case Park
  with assms show ?thesis
    by (auto simp: aw_inv_def go_chan.recv_None pumped_flags split: if_splits)
qed

lemma aw_step_inv:
  assumes "aw_inv aw acc" "aw_step sk aw e = Some (aw', new)"
  shows "aw_inv aw' (acc @ new)"
proof (cases e)
  case (CallWrite p)
  with assms show ?thesis
    by (auto simp: aw_inv_def aw_Write_def intro: pump.pumped_send split: if_splits option.splits)
next
  case CallClose
  with assms show ?thesis
    by (cases "ch_closed (aw_buffer aw)") (auto simp: aw_inv_def aw_Close_def pumped_flags)
next
  case (Worker w)
  with assms show ?thesis by (auto intro: aw_worker_inv)
qed

lemma aw_run_inv:
  "aw_inv aw acc \<Longrightarrow> aw_run sk aw es = Some (aw', new) \<Longrightarrow> aw_inv aw' (acc @ new)"
proof (induction es arbitrary: aw acc new)
  case Nil
  then show ?case by simp
next
  case (Cons e es)
  then obtain aw1 acc1 acc2 where "aw_step sk aw e = Some (aw1, acc1)"
    and "aw_run sk aw1 es = Some (aw', acc2)" and "new = acc1 @ acc2"
    by (auto split: option.splits)
  with Cons.IH [of aw1 "acc @ acc1" acc2] Cons.prems(1) show ?case
    by (auto dest: aw_step_inv)
qed

lemma NewAsyncWriter_run_inv:
  "NewAsyncWriter n = Some aw0 \<Longrightarrow> aw_run sk aw0 es = Some (aw, acc) \<Longrightarrow> aw_inv aw acc"
  using NewAsyncWriter_inv aw_run_inv [of aw0 "[]"] by fastforce

section \<open>Capacity and termination\<close>

lemma try_send_frame: "try_send c x = Some c' \<Longrightarrow> ch_cap c' = ch_cap c \<and> ch_closed c' = ch_closed c"
  by (auto simp: try_send_def split: if_splits)

lemma chan_recv_frame: "chan_recv c = Some (x, c') \<Longrightarrow> ch_cap c' = ch_cap c \<and> ch_closed c' = ch_closed c"
  by (auto simp: chan_recv_def split: option.splits list.splits)

lemma aw_worker_frame:
  "aw_worker sk aw e = Some aw' \<Longrightarrow> ch_cap (aw_buffer aw') = ch_cap (aw_buffer aw) \<and>
     ch_closed (aw_buffer aw') = ch_closed (aw_buffer aw)"
  by (cases e) (auto dest: chan_recv_frame split: if_splits option.splits)

lemma aw_step_cap: "aw_step sk aw e = Some (aw', new) \<Longrightarrow> ch_cap (aw_buffer aw') = ch_cap (aw_buffer aw)"
  by (cases e)
    (auto simp: aw_Write_def aw_Close_def dest: try_send_frame aw_worker_frame
      split: if_splits option.splits)

lemma aw_run_cap: "aw_run sk aw es = Some (aw', acc) \<Longrightarrow> ch_cap (aw_buffer aw') = ch_cap (aw_buffer aw)"
  by (induction es arbitrary: aw acc) (fastforce dest: aw_step_cap split: option.splits)+

text \<open>How many more steps, flush ticks aside, the worker can take once the channel is closed.\<close>

definition worker_left :: "AsyncWriter \<Rightarrow> nat" where
  "worker_left aw = (if aw_done aw then 0 else Suc (length (chan_pending (aw_buffer aw))))"

lemma aw_worker_progress:
  assumes "aw_worker sk aw e = Some aw'" "ch_closed (aw_buffer aw)"
  shows "if e = Tick then worker_left aw' = worker_left aw else worker_left aw' < worker_left aw"
  using assms
  by (cases e) (auto simp: worker_left_def dest: go_chan.recv_pending split: if_splits option.splits)

lemma aw_worker_bound:
  "aw_run sk aw (List.map Worker ws) = Some (aw', acc) \<Longrightarrow> ch_closed (aw_buffer aw) \<Longrightarrow>
     length (filter (\<lambda>w. w \<noteq> Tick) ws) + worker_left aw' \<le> worker_left aw"
proof (induction ws arbitrary: aw acc)
  case Nil
  then show ?case by simp
next
  case (Cons w ws)
  then obtain aw1 acc2 where w: "aw_worker sk aw w = Some aw1"
    and ws: "aw_run sk aw1 (List.map Worker ws) = Some (aw', acc2)"
    by (auto split: option.splits)
  then have "length (filter (\<lambda>w. w \<noteq> Tick) ws) + worker_left aw' \<le> worker_left aw1"
    using Cons aw_worker_frame [OF w] by blast
  with aw_worker_progress [OF w] Cons.prems(2) show ?case by (auto split: if_splits)
qed

lemma aw_drain:
  assumes "ch_closed (aw_buffer aw)" "\<not> aw_done aw" "length (chan_pending (aw_buffer aw)) = n"
  shows "\<exists>aw'. aw_run sk aw (List.map Worker (replicate n Recv @ [RecvClosed])) = Some (aw', []) \<and> aw_done aw'"
  using assms
proof (induction n arbitrary: aw)
  case 0
  then show ?case by (simp add: go_chan.recv_None)
next
  case (Suc n)
  then obtain x c where r: "chan_recv (aw_buffer aw) = Some (x, c)"
    using go_chan.recv_None [of "aw_buffer aw"] by fastforce
  let ?aw1 = "aw\<lparr>aw_buffer := c, aw_bw := bw_write sk (aw_bw aw) x\<rparr>"
  have "\<exists>aw'. aw_run sk ?aw1 (List.map Worker (replicate n Recv @ [RecvClosed])) = Some (aw', []) \<and> aw_done aw'"
    using Suc.prems r go_chan.recv_pending [OF r] chan_recv_frame [OF r] by (intro Suc.IH) auto
  with r Suc.prems(2) show ?case by auto
qed

lemma async_writer_bounded: "aw_inv aw acc \<Longrightarrow> length (ch_queue (aw_buffer aw)) \<le> ch_cap (aw_buffer aw)"
  by (simp add: aw_inv_def pump.pumped_def chan_inv_def)

section \<open>Properties\<close>

text \<open>
  C16: However the callers' writes, the worker's steps and \<open>Close\<close> interleave, the output only
  ever holds a prefix of the accepted lines in acceptance order, and while the output has not
  failed, what is out, what the buffered writer holds and what is queued make up exactly the
  accepted lines: none lost, none reordered, none duplicated. This holds for every output.
\<close>

theorem async_writer_stream:
  assumes "NewAsyncWriter n = Some aw0" "aw_run sk aw0 es = Some (aw, acc)"
  shows "prefix (bw_out (aw_bw aw)) (concat acc) \<and>
    (\<not> bw_err (aw_bw aw) \<longrightarrow>
      bw_out (aw_bw aw) @ bw_buf (aw_bw aw) @ concat (chan_pending (aw_buffer aw)) = concat acc) \<and>
    length (ch_queue (aw_buffer aw)) \<le> ch_cap (aw_buffer aw)"
  using NewAsyncWriter_run_inv [OF assms] by (auto simp: aw_inv_def pump.pumped_def chan_inv_def)

text \<open>
  C20: Once \<open>Close\<close> has returned, every accepted line has reached the output, completely and in
  order, unless the output itself reported an error.
\<close>

theorem close_flushes_everything:
  assumes "NewAsyncWriter n = Some aw0" "aw_run sk aw0 es = Some (aw, acc)"
    and "aw_Close_returns aw" "\<not> bw_err (aw_bw aw)"
  shows "bw_out (aw_bw aw) = concat acc"
  using NewAsyncWriter_run_inv [OF assms(1,2)] assms(3,4)
  by (auto simp: aw_inv_def aw_Close_returns_def intro: pump.pumped_all_out)

text \<open>
  A log call is only ever dropped when the queue is full: in every reachable state a
  \<open>Write\<close> that reports an overflow leaves the writer unchanged, reports the whole line, and
  finds exactly \<open>queueSize\<close> accepted lines waiting for a worker that is not parked.
\<close>

theorem write_drops_only_when_full:
  assumes "NewAsyncWriter n = Some aw0" "aw_run sk aw0 es = Some (aw, acc)"
    and "aw_Write aw p = (aw', Overflow k)"
  shows "aw' = aw \<and> k = length p \<and> int (length (ch_queue (aw_buffer aw))) = n \<and>
    \<not> ch_waiting (aw_buffer aw) \<and> \<not> ch_closed (aw_buffer aw)"
proof -
  have "ch_cap (aw_buffer aw) = nat n" "0 \<le> n"
    using assms(1) aw_run_cap [OF assms(2)]
    by (auto simp: NewAsyncWriter_def make_chan_def split: if_splits)
  moreover have "length (ch_queue (aw_buffer aw)) \<le> ch_cap (aw_buffer aw)"
    using async_writer_bounded [OF NewAsyncWriter_run_inv [OF assms(1,2)]] .
  ultimately show ?thesis
    using assms(3) by (auto simp: aw_Write_def try_send_def split: if_splits option.splits)
qed

text \<open>
  C40: \<open>Close\<close> terminates: from any state with a closed channel whose worker is still running,
  the worker's receives of what is queued followed by its final receive make \<open>Close\<close> return,
  whatever the output does; and no schedule of the worker is longer than that, flush ticks
  aside, so it cannot run for ever either.
\<close>

theorem close_terminates:
  assumes "ch_closed (aw_buffer aw)" "\<not> aw_done aw"
  shows "(\<exists>aw'. aw_run sk aw (List.map Worker
        (replicate (length (chan_pending (aw_buffer aw))) Recv @ [RecvClosed])) = Some (aw', []) \<and>
      aw_Close_returns aw') \<and>
    (\<forall>ws. aw_run sk aw (List.map Worker ws) \<noteq> None \<longrightarrow>
      length (filter (\<lambda>w. w \<noteq> Tick) ws) \<le> Suc (length (chan_pending (aw_buffer aw))))"
proof (intro conjI allI impI)
  show "\<exists>aw'. aw_run sk aw (List.map Worker
        (replicate (length (chan_pending (aw_buffer aw))) Recv @ [RecvClosed])) = Some (aw', []) \<and>
      aw_Close_returns aw'"
    unfolding aw_Close_returns_def using assms by (intro aw_drain) auto
next
  fix ws
  assume "aw_run sk aw (List.map Worker ws) \<noteq> None"
  with aw_worker_bound [OF _ assms(1)] assms(2)
  show "length (filter (\<lambda>w. w \<noteq> Tick) ws) \<le> Suc (length (chan_pending (aw_buffer aw)))"
    by (fastforce simp: worker_left_def)
qed

theorem write_drops_only_when_full_witness:
  "\<exists>aw0 aw. NewAsyncWriter 1 = Some aw0 \<and>
     aw_run (\<lambda>_ _. None) aw0 [CallWrite ''a''] = Some (aw, [''a'']) \<and>
     aw_Write aw ''b'' = (aw, Overflow 1) \<and> int (length (ch_queue (aw_buffer aw))) = 1"
proof -
  let ?new = "the (NewAsyncWriter 1)"
  let ?full = "fst (aw_Write ?new ''a'')"
  have new: "NewAsyncWriter 1 = Some ?new" by (simp add: NewAsyncWriter_def)
  have run: "aw_run (\<lambda>_ _. None) ?new [CallWrite ''a''] = Some (?full, [''a''])"
    by (simp add: NewAsyncWriter_def make_chan_def aw_Write_def try_send_def)
  have drop: "aw_Write ?full ''b'' = (?full, Overflow 1)"
    by (simp add: NewAsyncWriter_def make_chan_def aw_Write_def try_send_def)
  show ?thesis
    using new run drop write_drops_only_when_full [OF new run drop] by blast
qed

theorem close_terminates_witness:
  "\<exists>aw aw'. ch_closed (aw_buffer aw) \<and> \<not> aw_done aw \<and>
     aw_run (\<lambda>_ _. Some 0) aw (List.map Worker [Recv, RecvClosed]) = Some (aw', []) \<and> aw_Close_returns aw'"
proof -
  let ?aw = "\<lparr>aw_buffer = (make_chan 2)\<lparr>ch_queue := [''x''], ch_closed := True\<rparr>,
      aw_bw = new_bufio, aw_done = False\<rparr>"
  have h: "ch_closed (aw_buffer ?aw)" "\<not> aw_done ?aw" by simp_all
  have "replicate (length (chan_pending (aw_buffer ?aw))) Recv @ [RecvClosed] = [Recv, RecvClosed]"
    by (simp add: chan_pending_def make_chan_def)
  then show ?thesis
    using h conjunct1 [OF close_terminates [OF h, of "\<lambda>_ _. Some 0"]] by metis
qed

lemma async_writer_demo:
  "\<exists>aw0 aw. NewAsyncWriter 1 = Some aw0 \<and>
     aw_run (\<lambda>_ _. None) aw0
       [CallWrite ''a'', CallWrite ''b'', Worker Recv, Worker Park, CallWrite ''c'', CallWrite ''d'',
        CallClose, Worker Recv, Worker Recv, Worker RecvClosed] = Some (aw, [''a'', ''c'', ''d'']) \<and>
     aw_Close_returns aw \<and> \<not> bw_err (aw_bw aw)"
  by (simp add: NewAsyncWriter_def make_chan_def new_bufio_def aw_Write_def try_send_def
      chan_recv_def aw_Close_def aw_Close_returns_def bw_write.simps bw_size_def bw_flush_def)

theorem async_writer_stream_witness:
  "\<exists>aw. aw_run (\<lambda>_ _. None) (the (NewAsyncWriter 1))
       [CallWrite ''a'', CallWrite ''b'', Worker Recv, Worker Park, CallWrite ''c'', CallWrite ''d'',
        CallClose, Worker Recv, Worker Recv, Worker RecvClosed] = Some (aw, [''a'', ''c'', ''d'']) \<and>
     prefix (bw_out (aw_bw aw)) ''acd''"
proof -
  obtain aw0 aw where "NewAsyncWriter 1 = Some aw0" and "aw_run (\<lambda>_ _. None) aw0
       [CallWrite ''a'', CallWrite ''b'', Worker Recv, Worker Park, CallWrite ''c'', CallWrite ''d'',
        CallClose, Worker Recv, Worker Recv, Worker RecvClosed] = Some (aw, [''a'', ''c'', ''d''])"
    using async_writer_demo by blast
  then show ?thesis using async_writer_stream [of 1 aw0] by fastforce
qed

theorem close_flushes_everything_witness:
  "\<exists>aw0 aw. NewAsyncWriter 1 = Some aw0 \<and>
     aw_run (\<lambda>_ _. None) aw0
       [CallWrite ''a'', CallWrite ''b'', Worker Recv, Worker Park, CallWrite ''c'', CallWrite ''d'',
        CallClose, Worker Recv, Worker Recv, Worker RecvClosed] = Some (aw, [''a'', ''c'', ''d'']) \<and>
     bw_out (aw_bw aw) = ''acd''"
  using async_writer_demo close_flushes_everything [of 1] by fastforce

end
