(* ===== verification/GoLib.thy ===== *)
theory GoLib
  imports Prelude
begin

text \<open>
  The parts of Go's standard library that the program calls on strings, as functions on byte
  strings: \<open>strings.HasPrefix\<close>, \<open>strings.TrimSpace\<close>, \<open>strings.Fields\<close>, \<open>strings.SplitSeq\<close> with
  a one-byte separator, \<open>strings.Join\<close>, \<open>strconv.Atoi\<close>, \<open>net.SplitHostPort\<close> and the printing
  of IPv4 socket addresses, and the canonical spelling of HTTP header names. The lemmas give
  the round trips the components rely on.
\<close>

section \<open>Prefixes, splitting, joining\<close>

definition HasPrefix :: "string \<Rightarrow> string \<Rightarrow> bool" where
  "HasPrefix s p \<longleftrightarrow> take (length p) s = p"

lemma HasPrefix_append [simp]: "HasPrefix (p @ s) p"
  by (simp add: HasPrefix_def)

text \<open>\<open>strings.SplitSeq(s, sep)\<close> yields at least one piece, the pieces between separators.\<close>

fun split_seq :: "char \<Rightarrow> string \<Rightarrow> string list" where
  "split_seq c [] = [[]]"
| "split_seq c (x # xs) =
     (if x = c then [] # split_seq c xs
      else (case split_seq c xs of [] \<Rightarrow> [[x]] | w # ws \<Rightarrow> (x # w) # ws))"

fun join :: "string \<Rightarrow> string list \<Rightarrow> string" where
  "join sep [] = []"
| "join sep [w] = w"
| "join sep (w # w' # ws) = w @ sep @ join sep (w' # ws)"

lemma split_seq_nonempty [simp]: "split_seq c s \<noteq> []"
  by (cases s) (auto split: list.splits)

lemma split_seq_no_sep: "w \<in> set (split_seq c s) \<Longrightarrow> c \<notin> set w"
  by (induction s arbitrary: w) (auto split: if_splits list.splits)

lemma split_seq_set: "w \<in> set (split_seq c s) \<Longrightarrow> set w \<subseteq> set s"
  by (induction s arbitrary: w) (fastforce split: if_splits list.splits)+

lemma split_seq_word [simp]: "c \<notin> set w \<Longrightarrow> split_seq c w = [w]"
  by (induction w) auto

lemma split_seq_append_sep:
  "c \<notin> set w \<Longrightarrow> split_seq c (w @ c # s) = w # split_seq c s"
  by (induction w) auto

lemma split_seq_join:
  "ws \<noteq> [] \<Longrightarrow> (\<And>w. w \<in> set ws \<Longrightarrow> c \<notin> set w) \<Longrightarrow> split_seq c (join [c] ws) = ws"
  by (induction "[c]" ws rule: join.induct) (auto simp: split_seq_append_sep)

section \<open>White space\<close>

text \<open>
  \<open>unicode.IsSpace\<close> on a UTF-8 string: the number of bytes of the white-space rune at the head
  of the string, 0 where it starts with none. A rune's first byte never occurs inside
  another rune, so looking at the encodings byte by byte is exact.
\<close>

definition is_ascii_space :: "char \<Rightarrow> bool" where
  "is_ascii_space c \<longleftrightarrow> c = CHR '' '' \<or> (9::nat) \<le> of_char c \<and> of_char c \<le> (13::nat)"

definition is_space2 :: "char \<Rightarrow> char \<Rightarrow> bool" where
  "is_space2 a b \<longleftrightarrow> a = CHR 0xC2 \<and> (b = CHR 0x85 \<or> b = CHR 0xA0)"

definition is_space3 :: "char \<Rightarrow> char \<Rightarrow> char \<Rightarrow> bool" where
  "is_space3 a b c \<longleftrightarrow>
     a = CHR 0xE1 \<and> b = CHR 0x9A \<and> c = CHR 0x80 \<or>
     a = CHR 0xE2 \<and> b = CHR 0x80 \<and>
       ((0x80::nat) \<le> of_char c \<and> of_char c \<le> (0x8A::nat) \<or>
        c = CHR 0xA8 \<or> c = CHR 0xA9 \<or> c = CHR 0xAF) \<or>
     a = CHR 0xE2 \<and> b = CHR 0x81 \<and> c = CHR 0x9F \<or>
     a = CHR 0xE3 \<and> b = CHR 0x80 \<and> c = CHR 0x80"

definition space_len :: "string \<Rightarrow> nat" where
  "space_len s =
     (case s of [] \<Rightarrow> 0
      | a # s1 \<Rightarrow> if is_ascii_space a then 1 else
          (case s1 of [] \<Rightarrow> 0
           | b # s2 \<Rightarrow> if is_space2 a b then 2 else
               (case s2 of [] \<Rightarrow> 0
                | c # _ \<Rightarrow> if is_space3 a b c then 3 else 0)))"

text \<open>The same for the rune at the end of the string, on the reversed string.\<close>

definition rev_space_len :: "string \<Rightarrow> nat" where
  "rev_space_len s =
     (case s of [] \<Rightarrow> 0
      | a # s1 \<Rightarrow> if is_ascii_space a then 1 else
          (case s1 of [] \<Rightarrow> 0
           | b # s2 \<Rightarrow> if is_space2 b a then 2 else
               (case s2 of [] \<Rightarrow> 0
                | c # _ \<Rightarrow> if is_space3 c b a then 3 else 0)))"

lemma space_len_Nil [simp]: "space_len [] = 0" "rev_space_len [] = 0"
  by (simp_all add: space_len_def rev_space_len_def)

function trim_left :: "string \<Rightarrow> string" where
  "trim_left s = (if space_len s = 0 then s else trim_left (drop (space_len s) s))"
  by pat_completeness auto
termination
  by (relation "measure length") (auto simp: space_len_def split: list.splits if_splits)

function trim_rev :: "string \<Rightarrow> string" where
  "trim_rev s = (if rev_space_len s = 0 then s else trim_rev (drop (rev_space_len s) s))"
  by pat_completeness auto
termination
  by (relation "measure length") (auto simp: rev_space_len_def split: list.splits if_splits)

declare trim_left.simps [simp del] trim_rev.simps [simp del]

definition TrimSpace :: "string \<Rightarrow> string" where
  "TrimSpace s = rev (trim_rev (rev (trim_left s)))"

text \<open>\<open>strings.Fields\<close>: the maximal runs without white space; \<open>cur\<close> is the run being read.\<close>

function fields_from :: "string \<Rightarrow> string \<Rightarrow> string list" where
  "fields_from cur [] = (if cur = [] then [] else [cur])"
| "fields_from cur (x # xs) =
     (if space_len (x # xs) = 0 then fields_from (cur @ [x]) xs
      else (if cur = [] then [] else [cur]) @ fields_from [] (drop (space_len (x # xs)) (x # xs)))"
  by pat_completeness auto
termination
  by (relation "measure (\<lambda>(cur, s). length s)") (auto simp: space_len_def split: list.splits if_splits)

definition Fields :: "string \<Rightarrow> string list" where
  "Fields s = fields_from [] s"

text \<open>Printable ASCII text contains no white-space rune.\<close>

definition printable :: "char \<Rightarrow> bool" where
  "printable c \<longleftrightarrow> (33::nat) \<le> of_char c \<and> of_char c \<le> (126::nat)"

abbreviation plain_word :: "string \<Rightarrow> bool" where
  "plain_word w \<equiv> w \<noteq> [] \<and> list_all printable w"

lemma space_byte_not_printable:
  "is_ascii_space c \<Longrightarrow> \<not> printable c"
  "is_space2 a c \<Longrightarrow> \<not> printable a \<and> \<not> printable c"
  "is_space3 a b c \<Longrightarrow> \<not> printable a \<and> \<not> printable c"
  by (auto simp: printable_def is_ascii_space_def is_space2_def is_space3_def)

lemma printable_not_space:
  "printable c \<Longrightarrow> space_len (c # s) = 0"
  "printable c \<Longrightarrow> rev_space_len (c # s) = 0"
  using space_byte_not_printable
  by (force simp: space_len_def rev_space_len_def split: list.splits)+

declare fields_from.simps [simp del]

lemma is_digit_printable: "is_digit c \<Longrightarrow> printable c"
  by (simp add: is_digit_def printable_def)

lemma plain_word_nat_str [simp]: "list_all printable (nat_str n)"
  using nat_str_digits [of n] by (auto simp: list_all_iff is_digit_printable)

lemma plain_word_int_str [simp]: "list_all printable (int_str i)" "int_str i \<noteq> []"
  by (simp_all add: int_str_def) (simp add: printable_def)

lemma fields_from_plain:
  "list_all printable w \<Longrightarrow> fields_from cur (w @ s) = fields_from (cur @ w) s"
  by (induction w arbitrary: cur) (auto simp: printable_not_space fields_from.simps(2))

lemma fields_from_space: "fields_from cur (CHR '' '' # s) = (if cur = [] then [] else [cur]) @ fields_from [] s"
  by (simp add: space_len_def is_ascii_space_def fields_from.simps(2))

lemmas fields_simps = fields_from_plain fields_from_space fields_from.simps(1)

lemma Fields_join:
  "list_all (\<lambda>w. plain_word w) ws \<Longrightarrow> Fields (join '' '' ws) = ws"
proof (induction "'' ''" ws rule: join.induct)
  case (2 w)
  then show ?case
    using fields_from_plain [of w "[]" "[]"] by (simp add: Fields_def fields_from.simps(1))
next
  case (3 w w' ws)
  then show ?case
    by (simp add: Fields_def fields_from_plain fields_from_space)
qed (simp add: Fields_def fields_from.simps(1))

lemma trim_printable:
  "printable c \<Longrightarrow> trim_left (c # s) = c # s"
  "printable c \<Longrightarrow> trim_rev (c # s) = c # s"
  by (simp_all add: trim_left.simps [of "c # s"] trim_rev.simps [of "c # s"] printable_not_space)

lemma TrimSpace_plain:
  assumes "w \<noteq> []" "printable (hd w)" "printable (last w)"
  shows "TrimSpace w = w"
proof -
  obtain u c where w: "w = u @ [c]" using assms(1) by (cases w rule: rev_cases) auto
  with assms(3) have "trim_rev (rev w) = rev w" by (simp add: trim_printable)
  moreover have "trim_left w = w" using assms(1,2) by (cases w) (auto simp: trim_printable)
  ultimately show ?thesis by (simp add: TrimSpace_def)
qed

section \<open>Numbers\<close>

text \<open>
  \<open>strconv.Atoi\<close> with a 64-bit \<open>int\<close>: an optional sign, at least one decimal digit, nothing else,
  and a value in range. The program only tests the error, so \<open>None\<close> stands for all of them.
\<close>

definition Atoi :: "string \<Rightarrow> int option" where
  "Atoi s =
     (let neg = HasPrefix s ''-'';
          ds = (if neg \<or> HasPrefix s ''+'' then tl s else s);
          n = int (dec_val ds);
          v = (if neg then - n else n)
      in if ds = [] \<or> \<not> list_all is_digit ds then None
         else if - (2 ^ 63) \<le> v \<and> v < 2 ^ 63 then Some v else None)"

lemma Atoi_bounds: "Atoi s = Some v \<Longrightarrow> - (2 ^ 63) \<le> v \<and> v < 2 ^ 63"
  by (simp add: Atoi_def Let_def split: if_splits)

lemma HasPrefix_one: "HasPrefix s [c] \<longleftrightarrow> s \<noteq> [] \<and> hd s = c"
  by (cases s) (auto simp: HasPrefix_def)

lemma nat_str_all_digits [simp]: "list_all is_digit (nat_str n)"
  using nat_str_digits by (simp add: list_all_iff)

lemma nat_str_no_sign: "hd (nat_str n) \<noteq> CHR ''-''" "hd (nat_str n) \<noteq> CHR ''+''"
  using digit_not_sign(1,2) [OF nat_str_hd_digit] by auto

lemma Atoi_int_str:
  assumes "- (2 ^ 63) \<le> v" "v < 2 ^ 63"
  shows "Atoi (int_str v) = Some v"
proof (cases "v < 0")
  case True
  with assms show ?thesis by (simp add: Atoi_def Let_def HasPrefix_one int_str_def)
next
  case False
  with assms show ?thesis
    by (simp add: Atoi_def Let_def HasPrefix_one int_str_def nat_str_no_sign)
qed

section \<open>Socket addresses\<close>

text \<open>\<open>bytealg.IndexByteString\<close> and \<open>LastIndexByteString\<close>; \<open>None\<close> is the result -1.\<close>

fun index_byte :: "char \<Rightarrow> string \<Rightarrow> nat option" where
  "index_byte c [] = None"
| "index_byte c (x # xs) = (if x = c then Some 0 else map_option Suc (index_byte c xs))"

definition last_index_byte :: "char \<Rightarrow> string \<Rightarrow> nat option" where
  "last_index_byte c s = map_option (\<lambda>i. length s - Suc i) (index_byte c (rev s))"

lemma index_byte_None [simp]: "index_byte c s = None \<longleftrightarrow> c \<notin> set s"
  by (induction s) auto

lemma index_byte_append: "c \<notin> set u \<Longrightarrow> index_byte c (u @ c # v) = Some (length u)"
  by (induction u) auto

lemma last_index_byte_append: "c \<notin> set v \<Longrightarrow> last_index_byte c (u @ c # v) = Some (length u)"
  by (simp add: last_index_byte_def index_byte_append)

datatype addr_error = MissingPort | TooManyColons | MissingBracket | UnexpectedOpen | UnexpectedClose

text \<open>
  \<open>net.SplitHostPort\<close>. Its last two checks look for stray brackets in \<open>hostport[j:]\<close> and
  \<open>hostport[k:]\<close>, with \<open>(j, k)\<close> past the brackets already accepted.
\<close>

definition split_checks :: "string \<Rightarrow> string \<Rightarrow> nat \<Rightarrow> nat \<Rightarrow> nat \<Rightarrow> (addr_error, string \<times> string) result" where
  "split_checks hostport host i j k =
     (if CHR ''['' \<in> set (drop j hostport) then Inl UnexpectedOpen
      else if CHR '']'' \<in> set (drop k hostport) then Inl UnexpectedClose
      else Inr (host, drop (Suc i) hostport))"

definition SplitHostPort :: "string \<Rightarrow> (addr_error, string \<times> string) result" where
  "SplitHostPort hostport =
     (case last_index_byte CHR '':'' hostport of
        None \<Rightarrow> Inl MissingPort
      | Some i \<Rightarrow>
          if HasPrefix hostport ''['' then
            (case index_byte CHR '']'' hostport of
               None \<Rightarrow> Inl MissingBracket
             | Some e \<Rightarrow>
                 if Suc e = length hostport then Inl MissingPort
                 else if Suc e = i then split_checks hostport (take (e - 1) (tl hostport)) i 1 (Suc e)
                 else if hostport ! Suc e = CHR '':'' then Inl TooManyColons
                 else Inl MissingPort)
          else if CHR '':'' \<in> set (take i hostport) then Inl TooManyColons
          else split_checks hostport (take i hostport) i 0 0)"

text \<open>\<open>net.IP.String\<close> of a four-byte address and \<open>net.TCPAddr.String\<close>.\<close>

record tcp_addr =
  IP :: bytes
  Port :: int

definition byte_str :: "byte \<Rightarrow> string" where
  "byte_str b = nat_str (unat b)"

definition ip4_str :: "bytes \<Rightarrow> string" where
  "ip4_str ip = join ''.'' (List.map byte_str ip)"

definition addr_str :: "tcp_addr \<Rightarrow> string" where
  "addr_str a = ip4_str (IP a) @ '':'' @ int_str (Port a)"

lemma byte_str_set: "c \<in> set (byte_str b) \<Longrightarrow> is_digit c"
  using nat_str_digits by (auto simp: byte_str_def)

lemma byte_str_inject [simp]: "byte_str a = byte_str b \<longleftrightarrow> a = b"
  by (simp add: byte_str_def word_unat_eq_iff)

lemma join_set: "set (join sep ws) \<subseteq> set sep \<union> \<Union> (set ` set ws)"
  by (induction sep ws rule: join.induct) auto

lemma join_nonempty: "w \<noteq> [] \<Longrightarrow> join sep (w # ws) \<noteq> []"
  by (cases ws) simp_all

lemma ip4_str_chars: "c \<in> set (ip4_str ip) \<Longrightarrow> c = CHR ''.'' \<or> is_digit c"
  using join_set [of "''.''" "List.map byte_str ip"] byte_str_set by (fastforce simp: ip4_str_def)

lemma ip4_str_inject:
  assumes "ip4_str a = ip4_str b" "a \<noteq> []" "b \<noteq> []"
  shows "a = b"
proof -
  have "split_seq CHR ''.'' (ip4_str ip) = List.map byte_str ip" if "ip \<noteq> []" for ip
    unfolding ip4_str_def using that byte_str_set by (intro split_seq_join) (auto dest: digit_not_sign(4))
  with assms have "List.map byte_str a = List.map byte_str b" by metis
  then show ?thesis by (simp add: inj_map_eq_map inj_def)
qed

lemma SplitHostPort_plain:
  assumes "CHR '':'' \<notin> set h" "CHR '':'' \<notin> set p"
    and "CHR ''['' \<notin> set h \<union> set p" "CHR '']'' \<notin> set h \<union> set p"
  shows "SplitHostPort (h @ '':'' @ p) = Inr (h, p)"
proof -
  have "\<not> HasPrefix (h @ CHR '':'' # p) ''[''"
    using assms(3) by (cases h) (auto simp: HasPrefix_one)
  with assms show ?thesis
    by (simp add: SplitHostPort_def last_index_byte_append split_checks_def)
qed

lemma SplitHostPort_addr_str:
  assumes "0 \<le> Port a"
  shows "SplitHostPort (addr_str a) = Inr (ip4_str (IP a), int_str (Port a))"
proof -
  have "is_digit c" if "c \<in> set (int_str (Port a))" for c
    using that assms nat_str_digits by (auto simp: int_str_def)
  then show ?thesis
    unfolding addr_str_def
    by (intro SplitHostPort_plain) (use ip4_str_chars digit_not_sign in \<open>blast+\<close>)
qed

section \<open>Contexts\<close>

text \<open>
  A \<open>context.Context\<close> carries values under interface keys. Two keys are equal when their
  dynamic type and their value are: a key is the pair of the type's name and the value.
  The values the program stores are all strings. \<open>WithValue\<close> shadows, \<open>Value\<close> finds
  the innermost entry.
\<close>

type_synonym ctx_key = "string \<times> string"
type_synonym ctx = "(ctx_key \<times> string) list"

definition WithValue :: "ctx \<Rightarrow> ctx_key \<Rightarrow> string \<Rightarrow> ctx" where
  "WithValue c k v = (k, v) # c"

definition ctx_Value :: "ctx \<Rightarrow> ctx_key \<Rightarrow> string option" where
  "ctx_Value c k = map_of c k"

lemma ctx_Value_WithValue [simp]:
  "ctx_Value (WithValue c k v) k' = (if k' = k then Some v else ctx_Value c k')"
  by (simp add: ctx_Value_def WithValue_def)

text \<open>The process environment: \<open>os.Getenv\<close> is the empty string for a variable that is not set.\<close>

type_synonym environ = "string \<Rightarrow> string"

end
