(* ===== verification/GoNet.thy ===== *)
theory GoNet
  imports GoLib
begin

text \<open>
  What the program uses of Go's \<open>crypto/tls\<close>, \<open>crypto/x509\<close> and \<open>net/http\<close>: certificates and
  TLS configurations with the documented acceptance rules of a handshake, HTTP headers,
  requests, and the server's response writer. Chain building and signature checking stay
  parameters (\<open>verify\<close>).
\<close>

section \<open>Certificates and TLS configurations\<close>

text \<open>\<open>Raw\<close> is the DER encoding; the other fields are the ones the program reads.\<close>

record x509_cert =
  Raw :: string
  DNSNames :: "string list"
  CommonName :: string
  NotAfter :: int

text \<open>\<open>tls.Certificate\<close>: \<open>Certificate\<close> is a slice of DER blocks, \<open>None\<close> the nil slice.\<close>

record tls_cert =
  Certificate :: "string list option"
  PrivateKey :: string

text \<open>The zero value a failing call returns beside its error.\<close>

definition zero_cert :: tls_cert where
  "zero_cert = \<lparr>Certificate = None, PrivateKey = []\<rparr>"

type_synonym cert_pool = "string list"

datatype client_auth =
    NoClientCert | RequestClientCert | RequireAnyClientCert | VerifyClientCertIfGiven
  | RequireAndVerifyClientCert

text \<open>
  \<open>tls.Config\<close>. \<open>GetCertificate\<close> says whether the server-side callback is set; \<open>Certificates\<close> is
  the static list a client presents its certificate from.
\<close>

record tls_config =
  Certificates :: "tls_cert list"
  GetCertificate :: bool
  RootCAs :: cert_pool
  ClientCAs :: cert_pool
  ClientAuth :: client_auth
  InsecureSkipVerify :: bool
  TLSServerName :: string
  MinVersion :: nat

definition zero_tls_config :: tls_config where
  "zero_tls_config =
     \<lparr>Certificates = [], GetCertificate = False, RootCAs = [], ClientCAs = [],
      ClientAuth = NoClientCert, InsecureSkipVerify = False, TLSServerName = [], MinVersion = 0\<rparr>"

definition VersionTLS12 :: nat where
  "VersionTLS12 = 0x0303"

definition VersionTLS13 :: nat where
  "VersionTLS13 = 0x0304"

text \<open>The effective minimum: zero means TLS 1.2.\<close>

definition min_version :: "tls_config \<Rightarrow> nat" where
  "min_version c = (if MinVersion c = 0 then VersionTLS12 else MinVersion c)"

text \<open>The other side of a handshake: its highest protocol version and the chain it presents.\<close>

record tls_peer =
  peer_version :: nat
  peer_chain :: "x509_cert list"

text \<open>
  A handshake accepted by a server: the version is high enough and the client's chain
  satisfies the \<open>ClientAuth\<close> policy. The result is what \<open>ConnectionState().PeerCertificates\<close>
  holds: a server that does not ask for certificates sees none.
\<close>

definition server_handshake ::
  "(cert_pool \<Rightarrow> x509_cert list \<Rightarrow> bool) \<Rightarrow> tls_config \<Rightarrow> tls_peer \<Rightarrow> x509_cert list option" where
  "server_handshake verify c p =
     (let chain = (if ClientAuth c = NoClientCert then [] else peer_chain p);
          need = (ClientAuth c = RequireAnyClientCert \<or> ClientAuth c = RequireAndVerifyClientCert);
          check = (ClientAuth c = VerifyClientCertIfGiven \<or> ClientAuth c = RequireAndVerifyClientCert)
      in if peer_version p < min_version c then None
         else if need \<and> chain = [] then None
         else if check \<and> chain \<noteq> [] \<and> \<not> verify (ClientCAs c) chain then None
         else Some chain)"

text \<open>
  A handshake accepted by a client: the server must present a chain, which is checked against
  \<open>RootCAs\<close> and the server name unless \<open>InsecureSkipVerify\<close> is set.
\<close>

definition client_handshake ::
  "(cert_pool \<Rightarrow> string \<Rightarrow> x509_cert list \<Rightarrow> bool) \<Rightarrow> tls_config \<Rightarrow> tls_peer \<Rightarrow> bool" where
  "client_handshake verify_host c p \<longleftrightarrow>
     min_version c \<le> peer_version p \<and> peer_chain p \<noteq> [] \<and>
     (InsecureSkipVerify c \<or> verify_host (RootCAs c) (TLSServerName c) (peer_chain p))"

lemma server_handshake_verified:
  assumes "server_handshake verify c p = Some chain" "ClientAuth c = RequireAndVerifyClientCert"
  shows "chain \<noteq> [] \<and> chain = peer_chain p \<and> verify (ClientCAs c) chain \<and> min_version c \<le> peer_version p"
  using assms by (auto simp: server_handshake_def Let_def split: if_splits)

section \<open>HTTP headers\<close>

text \<open>
  A header maps canonical names to their values. \<open>Get\<close> and \<open>Set\<close> canonicalise the name:
  the first letter and every letter after a hyphen in upper case, the rest in lower case; a name
  with a byte that is not a token byte is left alone.
\<close>

type_synonym header = "string \<Rightarrow> string list option"

definition is_upper :: "char \<Rightarrow> bool" where
  "is_upper c \<longleftrightarrow> (65::nat) \<le> of_char c \<and> of_char c \<le> (90::nat)"

definition is_lower :: "char \<Rightarrow> bool" where
  "is_lower c \<longleftrightarrow> (97::nat) \<le> of_char c \<and> of_char c \<le> (122::nat)"

definition upper_char :: "char \<Rightarrow> char" where
  "upper_char c = (if is_lower c then char_of (of_char c - 32 :: nat) else c)"

definition lower_char :: "char \<Rightarrow> char" where
  "lower_char c = (if is_upper c then char_of (of_char c + 32 :: nat) else c)"

definition token_byte :: "char \<Rightarrow> bool" where
  "token_byte c \<longleftrightarrow> is_upper c \<or> is_lower c \<or> is_digit c \<or> c \<in> set ''!#$%&*+-.^_`|~'' \<or> of_char c = (39::nat)"

fun canon_from :: "bool \<Rightarrow> string \<Rightarrow> string" where
  "canon_from up [] = []"
| "canon_from up (c # cs) =
     (if up then upper_char c else lower_char c) # canon_from (c = CHR ''-'') cs"

definition canonical_key :: "string \<Rightarrow> string" where
  "canonical_key k = (if list_all token_byte k then canon_from True k else k)"

definition hdr_Get :: "header \<Rightarrow> string \<Rightarrow> string" where
  "hdr_Get h k = (case h (canonical_key k) of Some (v # _) \<Rightarrow> v | _ \<Rightarrow> [])"

definition hdr_Set :: "header \<Rightarrow> string \<Rightarrow> string \<Rightarrow> header" where
  "hdr_Set h k v = h(canonical_key k \<mapsto> [v])"

lemma hdr_Get_Set [simp]:
  "hdr_Get (hdr_Set h k v) k' = (if canonical_key k' = canonical_key k then v else hdr_Get h k')"
  by (simp add: hdr_Get_def hdr_Set_def)

section \<open>Requests and the server's response writer\<close>

text \<open>\<open>ReqTLS\<close> is \<open>r.TLS\<close>: \<open>None\<close> for a plaintext request, the peer certificates otherwise.\<close>

record http_request =
  Method :: string
  RequestURI :: string
  URLPath :: string
  Host :: string
  RemoteAddr :: string
  ReqHeader :: header
  ReqClose :: bool
  ReqTLS :: "x509_cert list option"
  ReqCtx :: ctx

record response_writer =
  rw_header :: header
  rw_status :: "int option"
  rw_info :: "int list"
  rw_body :: string

text \<open>What a handler does with its response writer, call by call.\<close>

datatype rw_op = OpWriteHeader int | OpWrite string

definition informational :: "int \<Rightarrow> bool" where
  "informational code \<longleftrightarrow> 100 \<le> code \<and> code \<le> 199 \<and> code \<noteq> 101"

text \<open>
  The server's \<open>WriteHeader\<close>: ignored once a final status is out, a panic (\<open>None\<close>) on a code that
  has not three digits, informational codes are sent at once and do not end the header.
\<close>

definition rw_WriteHeader :: "response_writer \<Rightarrow> int \<Rightarrow> response_writer option" where
  "rw_WriteHeader w code =
     (if rw_status w \<noteq> None then Some w
      else if code < 100 \<or> 999 < code then None
      else if informational code then Some (w\<lparr>rw_info := rw_info w @ [code]\<rparr>)
      else Some (w\<lparr>rw_status := Some code\<rparr>))"

definition rw_Write :: "response_writer \<Rightarrow> string \<Rightarrow> response_writer" where
  "rw_Write w p =
     w\<lparr>rw_status := (case rw_status w of None \<Rightarrow> Some 200 | Some c \<Rightarrow> Some c), rw_body := rw_body w @ p\<rparr>"

text \<open>When the handler returns without a status, the server sends 200.\<close>

definition sent_status :: "response_writer \<Rightarrow> int" where
  "sent_status w = (case rw_status w of None \<Rightarrow> 200 | Some c \<Rightarrow> c)"

end
