(* ===== verification/Config.thy ===== *)
theory Config
  imports GoLib
begin

text \<open>
  \<open>data-plane/internal/config/config.go\<close>: the configuration records, \<open>CreateProxyConfig\<close> and
  \<open>Load\<close>, which reads the process environment. The lemmas say what a loaded configuration
  always provides: no empty default, no zero port.
\<close>

section \<open>The records\<close>

record LoggerConfig =
  Level :: string
  IsJSON :: bool
  AddSource :: bool
  AppVersion :: string
  LogServiceName :: string
  Env :: string
  Context :: ctx

record ProxyConfig =
  ProxyPort :: int
  InboundPort :: int
  OutboundPort :: int
  ServiceName :: string
  KubernetesNamespace :: string
  CACertPath :: string
  TargetURL :: string
  TargetGRPC :: string
  TrustedDomain :: string
  ControlPlaneURL :: string
  PodName :: string
  PodUID :: string
  ServiceAccount :: string
  LoggerCfg :: LoggerConfig

text \<open>Every field the composite literal leaves out has its zero value.\<close>

definition CreateProxyConfig :: "int \<Rightarrow> string \<Rightarrow> LoggerConfig \<Rightarrow> ProxyConfig" where
  "CreateProxyConfig port name loggerCfg =
     \<lparr>ProxyPort = port, InboundPort = 0, OutboundPort = 0, ServiceName = name,
      KubernetesNamespace = [], CACertPath = [], TargetURL = [], TargetGRPC = [],
      TrustedDomain = [], ControlPlaneURL = [], PodName = [], PodUID = [], ServiceAccount = [],
      LoggerCfg = loggerCfg\<rparr>"

section \<open>Load\<close>

definition read_env :: "environ \<Rightarrow> ProxyConfig \<Rightarrow> ProxyConfig" where
  "read_env getenv pc = pc\<lparr>
     TargetURL := getenv ''TARGET_URL'',
     TargetGRPC := getenv ''TARGET_GRPC'',
     ControlPlaneURL := getenv ''CONTROL_PLANE_URL'',
     CACertPath := getenv ''CA_CERT_PATH'',
     TrustedDomain := getenv ''SPIFFE_TRUST_DOMAIN'',
     KubernetesNamespace := getenv ''KUBERNETES_NAMESPACE'',
     PodName := getenv ''POD_NAME'',
     PodUID := getenv ''POD_UID'',
     ServiceAccount := getenv ''SERVICE_ACCOUNT''\<rparr>"

text \<open>A port variable that is empty or does not parse leaves the field as it is.\<close>

definition port_from_env :: "string \<Rightarrow> int \<Rightarrow> int" where
  "port_from_env port old =
     (if port \<noteq> [] then (case Atoi port of Some p \<Rightarrow> p | None \<Rightarrow> old) else old)"

definition read_ports :: "environ \<Rightarrow> ProxyConfig \<Rightarrow> ProxyConfig" where
  "read_ports getenv pc = pc\<lparr>
     InboundPort := port_from_env (getenv ''INBOUND_PORT'') (InboundPort pc),
     OutboundPort := port_from_env (getenv ''OUTBOUND_PORT'') (OutboundPort pc)\<rparr>"

definition or_default :: "'a \<Rightarrow> 'a \<Rightarrow> 'a \<Rightarrow> 'a" where
  "or_default zero d x = (if x = zero then d else x)"

definition set_defaults :: "ProxyConfig \<Rightarrow> ProxyConfig" where
  "set_defaults pc = pc\<lparr>
     InboundPort := or_default 0 15006 (InboundPort pc),
     OutboundPort := or_default 0 15001 (OutboundPort pc),
     TargetURL := or_default [] ''http://localhost:3005'' (TargetURL pc),
     ControlPlaneURL := or_default [] ''http://localhost:8081/api/v1/identity/issue'' (ControlPlaneURL pc),
     CACertPath := or_default [] ''../certs/root_ca.crt'' (CACertPath pc),
     TrustedDomain := or_default [] ''cluster.local'' (TrustedDomain pc),
     PodName := or_default [] ''unknown-pod'' (PodName pc),
     PodUID := or_default [] ''unknown-pod-uid'' (PodUID pc),
     ServiceAccount := or_default [] (ServiceName pc) (ServiceAccount pc)\<rparr>"

definition Load :: "environ \<Rightarrow> ProxyConfig \<Rightarrow> ProxyConfig" where
  "Load getenv pc = set_defaults (read_ports getenv (read_env getenv pc))"

lemmas load_defs = Load_def read_env_def read_ports_def set_defaults_def

section \<open>What a loaded configuration provides\<close>

text \<open>
  The well-formedness the other components rely on: everything with a default is non-empty
  (or non-zero), and the ports fit Go's 64-bit \<open>int\<close>.
\<close>

definition int64 :: "int \<Rightarrow> bool" where
  "int64 i \<longleftrightarrow> - (2 ^ 63) \<le> i \<and> i < 2 ^ 63"

definition config_wf :: "ProxyConfig \<Rightarrow> bool" where
  "config_wf pc \<longleftrightarrow>
     InboundPort pc \<noteq> 0 \<and> OutboundPort pc \<noteq> 0 \<and> int64 (InboundPort pc) \<and> int64 (OutboundPort pc) \<and>
     TargetURL pc \<noteq> [] \<and> ControlPlaneURL pc \<noteq> [] \<and> CACertPath pc \<noteq> [] \<and> TrustedDomain pc \<noteq> [] \<and>
     PodName pc \<noteq> [] \<and> PodUID pc \<noteq> [] \<and> (ServiceName pc \<noteq> [] \<longrightarrow> ServiceAccount pc \<noteq> [])"

lemma port_from_env_int64: "int64 old \<Longrightarrow> int64 (port_from_env port old)"
  using Atoi_bounds by (auto simp: port_from_env_def int64_def split: option.splits)

lemma or_default_nonzero [simp]: "or_default z d x = z \<longleftrightarrow> x = z \<and> d = z"
  by (simp add: or_default_def)

lemma or_default_idem [simp]: "or_default z d (or_default z d x) = or_default z d x"
  by (simp add: or_default_def)

lemma or_default_int64: "int64 x \<Longrightarrow> int64 d \<Longrightarrow> int64 (or_default 0 d x)"
  by (simp add: or_default_def)

lemma Load_frame [simp]:
  "ProxyPort (Load e pc) = ProxyPort pc"
  "ServiceName (Load e pc) = ServiceName pc"
  "LoggerCfg (Load e pc) = LoggerCfg pc"
  by (simp_all add: load_defs)

lemma Load_wf:
  assumes "int64 (InboundPort pc)" "int64 (OutboundPort pc)"
  shows "config_wf (Load e pc)"
  using assms
  by (simp add: config_wf_def load_defs or_default_int64 port_from_env_int64 int64_def [of 15006]
      int64_def [of 15001])

text \<open>Reading a port: a number in range is used, anything else leaves the default.\<close>

definition configured_port :: "string \<Rightarrow> int \<Rightarrow> int" where
  "configured_port port d = (case Atoi port of Some p \<Rightarrow> if p = 0 then d else p | None \<Rightarrow> d)"

lemma Atoi_Nil [simp]: "Atoi [] = None"
  by (simp add: Atoi_def Let_def HasPrefix_def)

lemma configured_port_eq:
  "or_default 0 d (port_from_env port 0) = configured_port port d"
  by (auto simp: port_from_env_def configured_port_def or_default_def split: option.splits)

lemma configured_port_int_str:
  "int64 v \<Longrightarrow> v \<noteq> 0 \<Longrightarrow> configured_port (int_str v) d = v"
  using Atoi_int_str by (simp add: configured_port_def int64_def)


section \<open>Properties\<close>

text \<open>
  For every environment, loading a freshly created configuration gives a well-formed
  one: the two listener ports are the numbers in \<open>INBOUND_PORT\<close> and \<open>OUTBOUND_PORT\<close> when
  these parse to a non-zero 64-bit integer and the defaults 15006 and 15001 otherwise (empty,
  garbage, out of range and zero included), no field that has a default is empty, and the
  fields given by the caller are kept.
\<close>

theorem load_fresh_config:
  "let pc = Load getenv (CreateProxyConfig port name lc) in
     config_wf pc \<and>
     InboundPort pc = configured_port (getenv ''INBOUND_PORT'') 15006 \<and>
     OutboundPort pc = configured_port (getenv ''OUTBOUND_PORT'') 15001 \<and>
     ProxyPort pc = port \<and> ServiceName pc = name \<and> LoggerCfg pc = lc"
proof -
  have "config_wf (Load getenv (CreateProxyConfig port name lc))"
    by (rule Load_wf) (simp_all add: CreateProxyConfig_def int64_def)
  then show ?thesis
    by (simp add: Let_def load_defs CreateProxyConfig_def configured_port_eq)
qed

text \<open>
  Loading is idempotent: a second \<open>Load\<close> in the same environment changes nothing, also
  when a port variable is malformed or zero and the first call fell back to the default.
\<close>

theorem load_idempotent: "Load getenv (Load getenv pc) = Load getenv pc"
  by (simp add: load_defs port_from_env_def or_default_def split: option.split)

end
