(* ===== verification/Logger.thy ===== *)
theory Logger
  imports GoNet Config AsyncLog
begin

text \<open>
  \<open>internal/logger/logger.go\<close> and \<open>middleware.go\<close>: the structured logger built by
  \<open>InitLogger\<close>, the context handler that is meant to add request attributes, and the HTTP
  middleware that assigns trace ids, records the response status and logs the request.
\<close>

section \<open>slog levels\<close>

text \<open>
  \<open>slog.Level.UnmarshalText\<close>: a level name in any case, optionally followed by a signed offset.
  \<open>strings.ToUpper\<close> maps two non-ASCII letters to ASCII ones (dotless i and long s); all other
  non-ASCII letters stay non-ASCII.
\<close>

fun ToUpper :: "string \<Rightarrow> string" where
  "ToUpper [] = []"
| "ToUpper [c] = [upper_char c]"
| "ToUpper (c # d # s) =
     (if c = CHR 0xC4 \<and> d = CHR 0xB1 then CHR ''I'' # ToUpper s
      else if c = CHR 0xC5 \<and> d = CHR 0xBF then CHR ''S'' # ToUpper s
      else upper_char c # ToUpper (d # s))"

definition wrap64 :: "int \<Rightarrow> int" where
  "wrap64 i = sint (word_of_int i :: 64 word)"

definition level_of_name :: "string \<Rightarrow> int option" where
  "level_of_name n =
     (if n = ''DEBUG'' then Some (- 4) else if n = ''INFO'' then Some 0
      else if n = ''WARN'' then Some 4 else if n = ''ERROR'' then Some 8 else None)"

definition is_sign :: "char \<Rightarrow> bool" where
  "is_sign c \<longleftrightarrow> c = CHR ''+'' \<or> c = CHR ''-''"

definition parse_level :: "string \<Rightarrow> int option" where
  "parse_level s =
     (let name = takeWhile (\<lambda>c. \<not> is_sign c) s; rest = dropWhile (\<lambda>c. \<not> is_sign c) s in
      case (if rest = [] then Some 0 else Atoi rest) of
        None \<Rightarrow> None
      | Some offset \<Rightarrow>
          (case level_of_name (ToUpper name) of None \<Rightarrow> None | Some l \<Rightarrow> Some (wrap64 (l + offset))))"

definition LevelInfo :: int where "LevelInfo = 0"
definition LevelWarn :: int where "LevelWarn = 4"
definition LevelError :: int where "LevelError = 8"

section \<open>Handlers\<close>

datatype attr_val = AStr string | AInt int

type_synonym attr = "string \<times> attr_val"

datatype base_format = JSONFormat | TextFormat

text \<open>
  The two handler types that occur: slog's own, with its format, level, source flag and preset
  attributes, and the program's \<open>ContextHandler\<close>, which embeds a handler.
\<close>

datatype slog_handler =
    BaseHandler base_format int bool "attr list"
  | ContextHandler slog_handler

text \<open>
  \<open>ContextHandler\<close> declares \<open>Handle\<close> only. Its \<open>WithAttrs\<close> and \<open>Enabled\<close> are the embedded handler's,
  promoted: they return and ask the embedded handler, without the wrapper.
\<close>

fun WithAttrs :: "slog_handler \<Rightarrow> attr list \<Rightarrow> slog_handler" where
  "WithAttrs (BaseHandler f l s as) new = BaseHandler f l s (as @ new)"
| "WithAttrs (ContextHandler h) new = WithAttrs h new"

fun Enabled :: "slog_handler \<Rightarrow> int \<Rightarrow> bool" where
  "Enabled (BaseHandler f l s as) lvl \<longleftrightarrow> l \<le> lvl"
| "Enabled (ContextHandler h) lvl \<longleftrightarrow> Enabled h lvl"

definition TraceIDKey :: ctx_key where "TraceIDKey = (''string'', ''trace_id'')"
definition RequestIDKey :: ctx_key where "RequestIDKey = (''string'', ''request_id'')"
definition HttpMethodKey :: ctx_key where "HttpMethodKey = (''string'', ''http_method'')"
definition HttpUriKey :: ctx_key where "HttpUriKey = (''string'', ''http_uri'')"
definition HttpRemoteAddrKey :: ctx_key where "HttpRemoteAddrKey = (''string'', ''http_remote_addr'')"

lemmas logger_key_defs =
  TraceIDKey_def RequestIDKey_def HttpMethodKey_def HttpUriKey_def HttpRemoteAddrKey_def

definition WithTraceID :: "ctx \<Rightarrow> string \<Rightarrow> ctx" where
  "WithTraceID c traceID = WithValue c TraceIDKey traceID"

text \<open>The attributes \<open>ContextHandler.Handle\<close> adds: one per key found in the context.\<close>

definition attr_of_key :: "ctx \<Rightarrow> ctx_key \<Rightarrow> attr list" where
  "attr_of_key c k = (case ctx_Value c k of Some v \<Rightarrow> [(snd k, AStr v)] | None \<Rightarrow> [])"

definition ContextHandler_attrs :: "ctx \<Rightarrow> attr list" where
  "ContextHandler_attrs c =
     attr_of_key c TraceIDKey @ attr_of_key c RequestIDKey @ attr_of_key c HttpMethodKey @
     attr_of_key c HttpUriKey @ attr_of_key c HttpRemoteAddrKey"

text \<open>\<open>Handle\<close>: the attributes of the line that is written, the preset ones first.\<close>

fun Handle :: "slog_handler \<Rightarrow> ctx \<Rightarrow> attr list \<Rightarrow> attr list" where
  "Handle (BaseHandler f l s as) c r = as @ r"
| "Handle (ContextHandler h) c r = Handle h c (r @ ContextHandler_attrs c)"

text \<open>\<open>Logger.Log\<close>: nothing below the handler's level.\<close>

definition slog_Log :: "slog_handler \<Rightarrow> ctx \<Rightarrow> int \<Rightarrow> attr list \<Rightarrow> attr list option" where
  "slog_Log h c lvl as = (if Enabled h lvl then Some (Handle h c as) else None)"

section \<open>InitLogger\<close>

text \<open>
  The logger's handler and the asynchronous writer it writes to; the cleanup function closes
  the latter. \<open>None\<close> when making the writer's channel panics.
\<close>

definition InitLogger :: "LoggerConfig \<Rightarrow> int \<Rightarrow> (slog_handler \<times> AsyncWriter) option" where
  "InitLogger cfg queueSize =
     (case NewAsyncWriter queueSize of
        None \<Rightarrow> None
      | Some asyncWriter \<Rightarrow>
          let level = (case parse_level (Level cfg) of Some l \<Rightarrow> l | None \<Rightarrow> LevelInfo);
              baseHandler = BaseHandler (if IsJSON cfg then JSONFormat else TextFormat) level (AddSource cfg) [];
              handler = ContextHandler baseHandler
          in Some (WithAttrs handler
                [(''version'', AStr (AppVersion cfg)), (''env'', AStr (Env cfg)),
                 (''APP_NAME'', AStr (LogServiceName cfg))],
              asyncWriter))"

section \<open>The middleware\<close>

text \<open>Hexadecimal encoding of the random bytes, two digits each.\<close>

definition hex_byte :: "byte \<Rightarrow> string" where
  "hex_byte b = [digit_char (unat b div 16), digit_char (unat b mod 16)]"

definition generateTraceID :: "bytes \<Rightarrow> string" where
  "generateTraceID b = concat (List.map hex_byte b)"

definition TraceIDHeader :: string where "TraceIDHeader = ''X-Trace-ID''"
definition RequestIDHeader :: string where "RequestIDHeader = ''X-Request-ID''"

definition ctxRequestIDKey :: ctx_key where "ctxRequestIDKey = (''logger.ctxKey'', ''request_id'')"
definition ctxHttpMethodKey :: ctx_key where "ctxHttpMethodKey = (''logger.ctxKey'', ''http_method'')"
definition ctxHttpUriKey :: ctx_key where "ctxHttpUriKey = (''logger.ctxKey'', ''http_uri'')"
definition ctxHttpRemoteAddrKey :: ctx_key where
  "ctxHttpRemoteAddrKey = (''logger.ctxKey'', ''http_remote_addr'')"

lemmas middleware_key_defs =
  ctxRequestIDKey_def ctxHttpMethodKey_def ctxHttpUriKey_def ctxHttpRemoteAddrKey_def

text \<open>The wrapper that remembers the last status code it was given.\<close>

record statusResponseWriter =
  sw_inner :: response_writer
  statusCode :: int

definition sw_WriteHeader :: "statusResponseWriter \<Rightarrow> int \<Rightarrow> statusResponseWriter option" where
  "sw_WriteHeader w code =
     map_option (\<lambda>inner. w\<lparr>sw_inner := inner, statusCode := code\<rparr>) (rw_WriteHeader (sw_inner w) code)"

text \<open>\<open>Write\<close> is the embedded writer's: the wrapper does not see it.\<close>

fun sw_apply :: "statusResponseWriter \<Rightarrow> rw_op list \<Rightarrow> statusResponseWriter option" where
  "sw_apply w [] = Some w"
| "sw_apply w (OpWriteHeader c # ops) =
     (case sw_WriteHeader w c of None \<Rightarrow> None | Some w' \<Rightarrow> sw_apply w' ops)"
| "sw_apply w (OpWrite p # ops) = sw_apply (w\<lparr>sw_inner := rw_Write (sw_inner w) p\<rparr>) ops"

text \<open>The id to use for a request: the header's, or a fresh one from the next random draw.\<close>

definition id_or_fresh :: "bytes list \<Rightarrow> string \<Rightarrow> string \<times> bytes list" where
  "id_or_fresh draws v = (if v = [] then (generateTraceID (hd draws), tl draws) else (v, draws))"

definition level_of_status :: "int \<Rightarrow> int" where
  "level_of_status code = (if 500 \<le> code then LevelError else if 400 \<le> code then LevelWarn else LevelInfo)"

text \<open>
  The middleware around a handler \<open>next\<close>, given two draws of 16 random bytes and the measured
  duration. The result is the final response and the line that is logged: \<open>None\<close> in the first
  place when the handler panics (then nothing is logged), \<open>None\<close> in the second when the level is
  below the logger's.
\<close>

definition request_ctx :: "http_request \<Rightarrow> string \<Rightarrow> string \<Rightarrow> ctx" where
  "request_ctx r traceID requestID =
     WithValue (WithValue (WithValue (WithValue (WithTraceID (ReqCtx r) traceID)
       ctxRequestIDKey requestID) ctxHttpMethodKey (Method r)) ctxHttpUriKey (RequestURI r))
       ctxHttpRemoteAddrKey (RemoteAddr r)"

definition Middleware ::
  "(http_request \<Rightarrow> rw_op list) \<Rightarrow> slog_handler \<Rightarrow> bytes list \<Rightarrow> int \<Rightarrow> response_writer \<Rightarrow> http_request \<Rightarrow>
   (response_writer \<times> attr list option) option" where
  "Middleware next_h l draws duration w r =
     (let (traceID, draws1) = id_or_fresh draws (hdr_Get (ReqHeader r) TraceIDHeader);
          (requestID, _) = id_or_fresh draws1 (hdr_Get (ReqHeader r) RequestIDHeader);
          c = request_ctx r traceID requestID;
          w1 = w\<lparr>rw_header := hdr_Set (hdr_Set (rw_header w) TraceIDHeader traceID) RequestIDHeader requestID\<rparr>;
          ww = \<lparr>sw_inner = w1, statusCode = 200\<rparr>
      in case sw_apply ww (next_h (r\<lparr>ReqCtx := c\<rparr>)) of
           None \<Rightarrow> None
         | Some ww' \<Rightarrow>
             Some (sw_inner ww',
               slog_Log l c (level_of_status (statusCode ww'))
                 [(''method'', AStr (Method r)), (''uri'', AStr (RequestURI r)),
                  (''status'', AInt (statusCode ww')), (''duration'', AInt duration),
                  (''client_ip'', AStr (RemoteAddr r))]))"

section \<open>Lemmas\<close>

lemma ctx_keys_distinct [simp]:
  "TraceIDKey \<noteq> RequestIDKey" "TraceIDKey \<noteq> HttpMethodKey" "TraceIDKey \<noteq> HttpUriKey"
  "TraceIDKey \<noteq> HttpRemoteAddrKey"
  "RequestIDKey \<noteq> TraceIDKey" "HttpMethodKey \<noteq> TraceIDKey" "HttpUriKey \<noteq> TraceIDKey"
  "HttpRemoteAddrKey \<noteq> TraceIDKey"
  by (simp_all add: logger_key_defs)

text \<open>A key of type \<open>string\<close> is never equal to one of type \<open>ctxKey\<close>.\<close>

lemma ctxKey_not_string:
  "fst k = ''string'' \<Longrightarrow> k \<noteq> ctxRequestIDKey \<and> k \<noteq> ctxHttpMethodKey \<and> k \<noteq> ctxHttpUriKey \<and>
     k \<noteq> ctxHttpRemoteAddrKey"
  by (cases k) (simp add: middleware_key_defs)

lemma ctx_Value_request_ctx:
  "fst k = ''string'' \<Longrightarrow> ctx_Value (request_ctx r t q) k =
     (if k = TraceIDKey then Some t else ctx_Value (ReqCtx r) k)"
  by (drule ctxKey_not_string) (simp add: request_ctx_def WithTraceID_def)

lemma string_keys [simp]:
  "fst TraceIDKey = ''string''" "fst RequestIDKey = ''string''" "fst HttpMethodKey = ''string''"
  "fst HttpUriKey = ''string''" "fst HttpRemoteAddrKey = ''string''"
  by (simp_all add: logger_key_defs)

lemma canonical_id_headers [simp]:
  "canonical_key TraceIDHeader = ''X-Trace-Id''"
  "canonical_key RequestIDHeader = ''X-Request-Id''"
  by (simp_all add: canonical_key_def TraceIDHeader_def RequestIDHeader_def token_byte_def
      upper_char_def lower_char_def is_upper_def is_lower_def char_of_def bit_0)

lemma rw_header_frame:
  "rw_WriteHeader w c = Some w' \<Longrightarrow> rw_header w' = rw_header w"
  "rw_header (rw_Write w p) = rw_header w"
  by (auto simp: rw_WriteHeader_def rw_Write_def split: if_splits)

lemma sw_apply_header: "sw_apply w ops = Some w' \<Longrightarrow> rw_header (sw_inner w') = rw_header (sw_inner w)"
  by (induction w ops rule: sw_apply.induct)
    (auto simp: sw_WriteHeader_def rw_header_frame split: option.splits)

lemma length_concat_hex: "length (concat (List.map hex_byte b)) = 2 * length b"
  by (induction b) (simp_all add: hex_byte_def)

lemma length_generateTraceID: "length (generateTraceID b) = 2 * length b"
  by (simp add: generateTraceID_def length_concat_hex)

text \<open>
  A handler that ends its header before its body: only body writes, or some informational
  codes, then one final status, then body writes.
\<close>

fun is_body :: "rw_op \<Rightarrow> bool" where
  "is_body (OpWrite p) = True"
| "is_body (OpWriteHeader c) = False"

fun is_info :: "rw_op \<Rightarrow> bool" where
  "is_info (OpWrite p) = False"
| "is_info (OpWriteHeader c) = informational c"

definition disciplined :: "rw_op list \<Rightarrow> bool" where
  "disciplined ops \<longleftrightarrow> list_all is_body ops \<or>
     (case dropWhile is_info ops of OpWriteHeader c # rest \<Rightarrow> list_all is_body rest | _ \<Rightarrow> False)"

lemma sw_apply_bodies:
  "list_all is_body ops \<Longrightarrow> sw_apply w ops = Some w' \<Longrightarrow>
     statusCode w' = statusCode w \<and>
     sent_status (sw_inner w') = sent_status (sw_inner w)"
  by (induction w ops rule: sw_apply.induct)
    (auto simp: rw_Write_def sent_status_def split: option.splits)

lemma sw_apply_final:
  assumes "rw_status (sw_inner w) = None" "\<not> informational c" "list_all is_body rest"
    and "sw_apply w (OpWriteHeader c # rest) = Some w'"
  shows "statusCode w' = c \<and> sent_status (sw_inner w') = c"
proof -
  from assms(4) obtain w1 where w1: "sw_WriteHeader w c = Some w1" "sw_apply w1 rest = Some w'"
    by (auto split: option.splits)
  with assms(1,2) have "statusCode w1 = c" "sent_status (sw_inner w1) = c"
    by (auto simp: sw_WriteHeader_def rw_WriteHeader_def sent_status_def split: if_splits)
  with sw_apply_bodies [OF assms(3) w1(2)] show ?thesis by simp
qed

lemma sw_apply_header_first:
  assumes "dropWhile is_info ops = OpWriteHeader c # rest" "list_all is_body rest"
    and "rw_status (sw_inner w) = None" "sw_apply w ops = Some w'"
  shows "statusCode w' = c \<and> sent_status (sw_inner w') = c"
  using assms
proof (induction ops arbitrary: w)
  case Nil
  then show ?case by simp
next
  case (Cons op ops)
  show ?case
  proof (cases "is_info op")
    case True
    then obtain i where op: "op = OpWriteHeader i" "informational i" by (cases op) auto
    with Cons.prems(4) obtain w1 where "sw_WriteHeader w i = Some w1" "sw_apply w1 ops = Some w'"
      by (auto split: option.splits)
    moreover from this op Cons.prems(3) have "rw_status (sw_inner w1) = None"
      by (auto simp: sw_WriteHeader_def rw_WriteHeader_def split: if_splits)
    ultimately show ?thesis using Cons.IH Cons.prems(1,2) op by simp
  next
    case False
    with Cons.prems(1) have "op = OpWriteHeader c" "ops = rest" "\<not> informational c" by auto
    with sw_apply_final [OF Cons.prems(3) _ Cons.prems(2)] Cons.prems(4) show ?thesis by simp
  qed
qed

lemma sw_apply_disciplined:
  assumes "disciplined ops" "rw_status (sw_inner w) = None" "statusCode w = 200"
    and "sw_apply w ops = Some w'"
  shows "statusCode w' = sent_status (sw_inner w')"
  using assms sw_apply_bodies [of ops w w'] sw_apply_header_first [of ops _ _ w w']
  by (fastforce simp: disciplined_def sent_status_def split: list.splits rw_op.splits)

text \<open>The parts of a completed middleware call.\<close>

lemma MiddlewareE:
  assumes "Middleware next_h l draws duration w r = Some (w', line)"
  obtains t q draws1 draws2 ww' where
    "id_or_fresh draws (hdr_Get (ReqHeader r) TraceIDHeader) = (t, draws1)"
    "id_or_fresh draws1 (hdr_Get (ReqHeader r) RequestIDHeader) = (q, draws2)"
    "sw_apply \<lparr>sw_inner = w\<lparr>rw_header :=
         hdr_Set (hdr_Set (rw_header w) TraceIDHeader t) RequestIDHeader q\<rparr>, statusCode = 200\<rparr>
       (next_h (r\<lparr>ReqCtx := request_ctx r t q\<rparr>)) = Some ww'"
    "w' = sw_inner ww'"
    "line = slog_Log l (request_ctx r t q) (level_of_status (statusCode ww'))
       [(''method'', AStr (Method r)), (''uri'', AStr (RequestURI r)),
        (''status'', AInt (statusCode ww')), (''duration'', AInt duration),
        (''client_ip'', AStr (RemoteAddr r))]"
  using assms unfolding Middleware_def Let_def by (auto split: option.splits prod.splits)

section \<open>Properties\<close>

text \<open>
  The logger \<open>InitLogger\<close> returns never consults the context: \<open>With\<close> is called on the
  context handler, whose \<open>WithAttrs\<close> is the embedded handler's, so the wrapper is gone and a
  line carries the three preset attributes and the caller's, whatever the context holds. The
  level is the configured one, and \<open>Info\<close> when the configured text is not a level.
\<close>

theorem init_logger_ignores_context:
  assumes "InitLogger cfg queueSize = Some (h, aw)"
  shows "slog_Log h c lvl as =
    (if (case parse_level (Level cfg) of Some l \<Rightarrow> l | None \<Rightarrow> LevelInfo) \<le> lvl
     then Some ([(''version'', AStr (AppVersion cfg)), (''env'', AStr (Env cfg)),
                 (''APP_NAME'', AStr (LogServiceName cfg))] @ as)
     else None)"
  using assms by (auto simp: InitLogger_def slog_Log_def Let_def split: option.splits)

text \<open>
  Even where \<open>ContextHandler.Handle\<close> runs, of the five request attributes the middleware
  stores it only finds the trace id: the other four are stored under keys of type \<open>ctxKey\<close> and
  looked up under keys of type \<open>string\<close>, so what is logged for them is whatever the incoming
  context had.
\<close>

theorem middleware_ctx_attrs:
  "ContextHandler_attrs (request_ctx r traceID requestID) =
     (''trace_id'', AStr traceID) #
     attr_of_key (ReqCtx r) RequestIDKey @ attr_of_key (ReqCtx r) HttpMethodKey @
     attr_of_key (ReqCtx r) HttpUriKey @ attr_of_key (ReqCtx r) HttpRemoteAddrKey"
  by (simp add: ContextHandler_attrs_def attr_of_key_def ctx_Value_request_ctx)
    (simp add: TraceIDKey_def)

text \<open>
  Every response that passes the middleware carries a trace id and a request id: the ones
  of the request where it has them, otherwise 32 hexadecimal digits made from the random
  draws, and no handler can make them disappear by its status or body writes.
\<close>

theorem middleware_ids:
  assumes "Middleware next_h l draws duration w r = Some (w', line)"
    and "length draws = 2" "list_all (\<lambda>d. length d = 16) draws"
  shows "hdr_Get (rw_header w') TraceIDHeader \<noteq> [] \<and> hdr_Get (rw_header w') RequestIDHeader \<noteq> [] \<and>
    (hdr_Get (ReqHeader r) TraceIDHeader \<noteq> [] \<longrightarrow>
      hdr_Get (rw_header w') TraceIDHeader = hdr_Get (ReqHeader r) TraceIDHeader) \<and>
    (hdr_Get (ReqHeader r) TraceIDHeader = [] \<longrightarrow>
      length (hdr_Get (rw_header w') TraceIDHeader) = 32) \<and>
    (hdr_Get (ReqHeader r) RequestIDHeader \<noteq> [] \<longrightarrow>
      hdr_Get (rw_header w') RequestIDHeader = hdr_Get (ReqHeader r) RequestIDHeader) \<and>
    (hdr_Get (ReqHeader r) RequestIDHeader = [] \<longrightarrow>
      length (hdr_Get (rw_header w') RequestIDHeader) = 32)"
proof -
  obtain d1 d2 where draws: "draws = [d1, d2]" "length d1 = 16" "length d2 = 16"
    using assms(2,3) by (auto simp: length_Suc_conv numeral_2_eq_2)
  then have gen: "length (generateTraceID d1) = 32" "length (generateTraceID d2) = 32"
    by (simp_all add: length_generateTraceID)
  from assms(1) show ?thesis
  proof (rule MiddlewareE)
    fix t q draws1 draws2 ww'
    assume ids: "id_or_fresh draws (hdr_Get (ReqHeader r) TraceIDHeader) = (t, draws1)"
      "id_or_fresh draws1 (hdr_Get (ReqHeader r) RequestIDHeader) = (q, draws2)"
    assume run: "sw_apply \<lparr>sw_inner = w\<lparr>rw_header :=
         hdr_Set (hdr_Set (rw_header w) TraceIDHeader t) RequestIDHeader q\<rparr>, statusCode = 200\<rparr>
       (next_h (r\<lparr>ReqCtx := request_ctx r t q\<rparr>)) = Some ww'" and "w' = sw_inner ww'"
    then have "hdr_Get (rw_header w') TraceIDHeader = t" "hdr_Get (rw_header w') RequestIDHeader = q"
      using sw_apply_header [OF run] by simp_all
    with ids gen draws(1) show ?thesis by (auto simp: id_or_fresh_def split: if_splits)
  qed
qed

text \<open>
  The status in the access log, and the level derived from it, are those of the response
  actually sent, for every handler that ends its header before its body and every request.
\<close>

theorem middleware_logs_sent_status:
  assumes "Middleware next_h l draws duration w r = Some (w', line)"
    and "rw_status w = None" "\<And>rq. disciplined (next_h rq)"
  shows "\<exists>c. line = slog_Log l c (level_of_status (sent_status w'))
      [(''method'', AStr (Method r)), (''uri'', AStr (RequestURI r)),
       (''status'', AInt (sent_status w')), (''duration'', AInt duration),
       (''client_ip'', AStr (RemoteAddr r))]"
proof -
  from assms(1) show ?thesis
  proof (rule MiddlewareE)
    fix t q ww'
    assume run: "sw_apply \<lparr>sw_inner = w\<lparr>rw_header :=
         hdr_Set (hdr_Set (rw_header w) TraceIDHeader t) RequestIDHeader q\<rparr>, statusCode = 200\<rparr>
       (next_h (r\<lparr>ReqCtx := request_ctx r t q\<rparr>)) = Some ww'" and w': "w' = sw_inner ww'"
      and line: "line = slog_Log l (request_ctx r t q) (level_of_status (statusCode ww'))
       [(''method'', AStr (Method r)), (''uri'', AStr (RequestURI r)),
        (''status'', AInt (statusCode ww')), (''duration'', AInt duration),
        (''client_ip'', AStr (RemoteAddr r))]"
    have "statusCode ww' = sent_status w'"
      using sw_apply_disciplined [OF assms(3) _ _ run] assms(2) w' by simp
    with line show ?thesis by auto
  qed
qed

text \<open>
  The discipline is needed: a handler that writes a body and then reports an error is
  answered with status 200 but logged, at error level, with status 500.
\<close>

theorem late_status_is_misreported:
  "let r = \<lparr>Method = ''GET'', RequestURI = ''/'', URLPath = ''/'', Host = [], RemoteAddr = [],
        ReqHeader = Map.empty, ReqClose = False, ReqTLS = None, ReqCtx = []\<rparr>;
      w = \<lparr>rw_header = Map.empty, rw_status = None, rw_info = [], rw_body = []\<rparr>;
      h = BaseHandler JSONFormat 0 False []
   in (case Middleware (\<lambda>_. [OpWrite ''x'', OpWriteHeader 500]) h [[], []] 7 w r of
         Some (w', Some line) \<Rightarrow> sent_status w' = 200 \<and> (''status'', AInt 500) \<in> set line
       | _ \<Rightarrow> False)"
  by (simp add: Middleware_def Let_def slog_Log_def level_of_status_def sw_WriteHeader_def
      rw_WriteHeader_def rw_Write_def sent_status_def LevelError_def LevelInfo_def split: prod.splits)

section \<open>Witnesses\<close>

abbreviation demo_request :: http_request where
  "demo_request \<equiv> \<lparr>Method = ''GET'', RequestURI = ''/a'', URLPath = ''/a'', Host = ''h'',
     RemoteAddr = ''10.0.0.1:5'', ReqHeader = [''X-Trace-Id'' \<mapsto> [''t'']], ReqClose = False,
     ReqTLS = None, ReqCtx = []\<rparr>"

abbreviation demo_writer :: response_writer where
  "demo_writer \<equiv> \<lparr>rw_header = Map.empty, rw_status = None, rw_info = [], rw_body = []\<rparr>"

abbreviation demo_next :: "http_request \<Rightarrow> rw_op list" where
  "demo_next \<equiv> \<lambda>_. [OpWriteHeader 103, OpWriteHeader 404, OpWrite ''x'']"

theorem init_logger_ignores_context_witness:
  "\<exists>h aw. InitLogger \<lparr>Level = ''warn'', IsJSON = True, AddSource = False, AppVersion = ''0.0.1'',
       LogServiceName = ''s'', Env = ''e'', Context = []\<rparr> 5000 = Some (h, aw) \<and>
     slog_Log h [(TraceIDKey, ''t'')] 8 [] =
       Some [(''version'', AStr ''0.0.1''), (''env'', AStr ''e''), (''APP_NAME'', AStr ''s'')]"
proof -
  let ?cfg = "\<lparr>Level = ''warn'', IsJSON = True, AddSource = False, AppVersion = ''0.0.1'',
       LogServiceName = ''s'', Env = ''e'', Context = []\<rparr>"
  obtain h aw where h: "InitLogger ?cfg 5000 = Some (h, aw)"
    by (cases "InitLogger ?cfg 5000") (auto simp: InitLogger_def NewAsyncWriter_def Let_def)
  have "parse_level ''warn'' = Some 4" by code_simp
  then show ?thesis using h init_logger_ignores_context [OF h, of "[(TraceIDKey, ''t'')]" 8 "[]"] by simp
qed

lemma demo_middleware:
  "\<exists>w' line. Middleware demo_next (BaseHandler TextFormat 0 False []) [replicate 16 1, replicate 16 2] 7
     demo_writer demo_request = Some (w', line)"
  by (auto simp: Middleware_def Let_def sw_WriteHeader_def rw_WriteHeader_def informational_def
      split: prod.splits)

theorem middleware_ids_witness:
  "\<exists>w' line. Middleware demo_next (BaseHandler TextFormat 0 False []) [replicate 16 1, replicate 16 2] 7
     demo_writer demo_request = Some (w', line) \<and>
     hdr_Get (rw_header w') TraceIDHeader \<noteq> [] \<and> hdr_Get (rw_header w') RequestIDHeader \<noteq> []"
  using demo_middleware middleware_ids [of demo_next "BaseHandler TextFormat 0 False []"
    "[replicate 16 1, replicate 16 2]" 7 demo_writer demo_request] by fastforce

theorem middleware_logs_sent_status_witness:
  "\<exists>w' line c. Middleware demo_next (BaseHandler TextFormat 0 False []) [replicate 16 1, replicate 16 2] 7
     demo_writer demo_request = Some (w', line) \<and>
     line = slog_Log (BaseHandler TextFormat 0 False []) c (level_of_status (sent_status w'))
      [(''method'', AStr ''GET''), (''uri'', AStr ''/a''),
       (''status'', AInt (sent_status w')), (''duration'', AInt 7), (''client_ip'', AStr ''10.0.0.1:5'')]"
proof -
  have "disciplined [OpWriteHeader 103, OpWriteHeader 404, OpWrite ''x'']"
    by (simp add: disciplined_def informational_def)
  then show ?thesis
    using demo_middleware middleware_logs_sent_status [of demo_next "BaseHandler TextFormat 0 False []"
      "[replicate 16 1, replicate 16 2]" 7 demo_writer demo_request] by fastforce
qed

end
