(* ===== verification/Identity.thy ===== *)
theory Identity
  imports GoNet
begin

text \<open>
  Who a workload is: the Kubernetes claims and the SPIFFE id of \<open>internal/utils/utils.go\<close>, the
  token request of \<open>token_provider.go\<close>, the certificate request of
  \<open>internal/grpc/cert_fetcher.go\<close>, and the original destination of a redirected connection.
  The JWT parser, the Kubernetes API, the gRPC call and the PEM decoder are parameters.
\<close>

unbundle bit_operations_syntax

section \<open>Claims and SPIFFE ids\<close>

type_synonym ServiceAccountToken = string

record KubernetesClaims =
  Namespace :: string
  SAName :: string

text \<open>What the JWT parser returns for \<open>token.Claims\<close>: an interface value of some dynamic type.\<close>

datatype jwt_claims = IsKubernetesClaims KubernetesClaims | OtherClaims

datatype identity_error =
    JWTError string
  | ClaimsTypeError
  | EmptyTrustedDomain

definition ParseJWT ::
  "(string \<Rightarrow> (string, jwt_claims) result) \<Rightarrow> string \<Rightarrow> (identity_error, KubernetesClaims) result" where
  "ParseJWT parseUnverified tokenString =
     (case parseUnverified tokenString of
        Inl err \<Rightarrow> Inl (JWTError err)
      | Inr (IsKubernetesClaims claims) \<Rightarrow> Inr claims
      | Inr OtherClaims \<Rightarrow> Inl ClaimsTypeError)"

definition GetSpiffeId :: "KubernetesClaims \<Rightarrow> string \<Rightarrow> (identity_error, string) result" where
  "GetSpiffeId k trustedDomain =
     (if trustedDomain = [] then Inl EmptyTrustedDomain
      else Inr (''spiffe://'' @ trustedDomain @ ''/ns/'' @ Namespace k @ ''/sa/'' @ SAName k))"

section \<open>Service account tokens\<close>

record BoundObjectReference =
  RefKind :: string
  RefAPIVersion :: string
  RefName :: string
  RefUID :: string

record TokenRequest =
  Audiences :: "string list"
  ExpirationSeconds :: int
  BoundObjectRef :: BoundObjectReference

text \<open>\<open>createToken namespace serviceAccount request\<close> is the API server's answer.\<close>

definition RequestToken ::
  "(string \<Rightarrow> string \<Rightarrow> TokenRequest \<Rightarrow> (string, string) result) \<Rightarrow>
   string \<Rightarrow> string \<Rightarrow> string \<Rightarrow> string \<Rightarrow> (string, ServiceAccountToken) result" where
  "RequestToken createToken namespace serviceAccount podName podUID =
     (let tokenRequest = \<lparr>Audiences = [''api''], ExpirationSeconds = 60 * 60,
            BoundObjectRef = \<lparr>RefKind = ''Pod'', RefAPIVersion = ''v1'', RefName = podName, RefUID = podUID\<rparr>\<rparr>
      in case createToken namespace serviceAccount tokenRequest of
           Inl err \<Rightarrow> Inl (''Failed to request token: '' @ err @ [CHR 0x0A])
         | Inr token \<Rightarrow> Inr token)"

definition CreateClientset ::
  "(string, 'cfg) result \<Rightarrow> ('cfg \<Rightarrow> (string, 'cs) result) \<Rightarrow> (string, 'cs) result" where
  "CreateClientset inClusterConfig newForConfig =
     (case inClusterConfig of
        Inl err \<Rightarrow> Inl (''Failed to create inCluster config: '' @ err @ [CHR 0x0A])
      | Inr config \<Rightarrow>
          (case newForConfig config of
             Inl err \<Rightarrow> Inl (''Failed to create k8s clientset: '' @ err @ [CHR 0x0A])
           | Inr clientset \<Rightarrow> Inr clientset))"

section \<open>Fetching a certificate\<close>

record IdentityResult =
  IdCertificate :: tls_cert
  PodUid :: string

record CertificateResponse =
  resp_certificate :: string
  resp_private_key :: string
  resp_issuing_ca :: string
  resp_serial_number :: string
  resp_pod_uid :: string

datatype fetch_error = RPCError string | NoCertificateBlock | KeyMismatch

text \<open>
  \<open>tls.X509KeyPair\<close>: the CERTIFICATE blocks of the PEM text (an error when there is none), with a
  private key that must fit the first of them. PEM decoding and the key check are parameters.
\<close>

definition X509KeyPair ::
  "(string \<Rightarrow> string list) \<Rightarrow> (string \<Rightarrow> string \<Rightarrow> bool) \<Rightarrow> string \<Rightarrow> string \<Rightarrow> (fetch_error, tls_cert) result" where
  "X509KeyPair certBlocks keyFits certPEM keyPEM =
     (case certBlocks certPEM of
        [] \<Rightarrow> Inl NoCertificateBlock
      | der # ders \<Rightarrow>
          if keyFits der keyPEM then Inr \<lparr>Certificate = Some (der # ders), PrivateKey = keyPEM\<rparr>
          else Inl KeyMismatch)"

text \<open>
  \<open>Fetch\<close>: one unary call with the bearer token in the metadata and the SPIFFE id as the service
  name. \<open>rpc metadata serviceName\<close> is the control plane's answer.
\<close>

definition Fetch ::
  "((string \<times> string) list \<Rightarrow> string \<Rightarrow> (string, CertificateResponse) result) \<Rightarrow>
   (string \<Rightarrow> string list) \<Rightarrow> (string \<Rightarrow> string \<Rightarrow> bool) \<Rightarrow>
   ServiceAccountToken \<Rightarrow> string \<Rightarrow> (fetch_error, IdentityResult) result" where
  "Fetch rpc certBlocks keyFits token spiffeId =
     (let md = [(''x-sentinel-token'', ''Bearer '' @ TrimSpace token)] in
      case rpc md spiffeId of
        Inl err \<Rightarrow> Inl (RPCError err)
      | Inr resp \<Rightarrow>
          (case X509KeyPair certBlocks keyFits (resp_certificate resp) (resp_private_key resp) of
             Inl err \<Rightarrow> Inl err
           | Inr cert \<Rightarrow> Inr \<lparr>IdCertificate = cert, PodUid = resp_pod_uid resp\<rparr>))"

text \<open>A certificate the rotation and the TLS stack can use: at least one DER block.\<close>

definition usable_cert :: "tls_cert \<Rightarrow> bool" where
  "usable_cert c \<longleftrightarrow> (case Certificate c of Some (der # ders) \<Rightarrow> True | _ \<Rightarrow> False)"

text \<open>
  The \<open>CertFetcher\<close> interface as its clients use it: \<open>fetch w token spiffeId\<close> is the answer in a
  state \<open>w\<close> of the outside world, and a success is a usable certificate.
\<close>

locale cert_fetcher =
  fixes fetch :: "'w \<Rightarrow> ServiceAccountToken \<Rightarrow> string \<Rightarrow> ('e, IdentityResult) result"
  assumes fetch_usable: "fetch w token spiffeId = Inr r \<Longrightarrow> usable_cert (IdCertificate r)"

lemma X509KeyPair_usable: "X509KeyPair blocks fits c k = Inr cert \<Longrightarrow> usable_cert cert"
  by (auto simp: X509KeyPair_def usable_cert_def split: list.splits if_splits)

interpretation real_fetcher: cert_fetcher "\<lambda>rpc. Fetch rpc blocks fits" for blocks fits
  by unfold_locales
    (auto simp: Fetch_def Let_def intro: X509KeyPair_usable split: sum.splits)

section \<open>The original destination of a redirected connection\<close>

definition be_uint16 :: "byte \<Rightarrow> byte \<Rightarrow> 16 word" where
  "be_uint16 hi lo = push_bit 8 (ucast hi) OR ucast lo"

text \<open>
  \<open>file\<close> is the result of \<open>conn.File()\<close>, \<open>sockopt fd\<close> the 16 bytes of \<open>mreq.Multiaddr\<close> that
  \<open>getsockopt\<close> with level \<open>IPPROTO_IP\<close> and option \<open>SO_ORIGINAL_DST\<close> fills.
\<close>

definition SO_ORIGINAL_DST :: int where
  "SO_ORIGINAL_DST = 80"

datatype dest_error = FileError string | SockoptError string | NotTCP

definition GetOriginalDest ::
  "(string, int) result \<Rightarrow> (int \<Rightarrow> int \<Rightarrow> (string, bytes) result) \<Rightarrow> (dest_error, tcp_addr) result" where
  "GetOriginalDest file sockopt =
     (case file of
        Inl err \<Rightarrow> Inl (FileError err)
      | Inr fd \<Rightarrow>
          (case sockopt fd SO_ORIGINAL_DST of
             Inl err \<Rightarrow> Inl (SockoptError err)
           | Inr multiaddr \<Rightarrow>
               let ip = take 4 (drop 4 multiaddr);
                   port = be_uint16 (multiaddr ! 2) (multiaddr ! 3)
               in Inr \<lparr>IP = ip, Port = uint port\<rparr>))"

section \<open>The host address\<close>

datatype net_addr = IPNetAddr bytes | IPAddrAddr bytes | OtherAddr

text \<open>\<open>net.IP.To4\<close>: \<open>None\<close> is the nil address, which prints as \<open><nil>\<close>.\<close>

definition To4 :: "bytes \<Rightarrow> bytes option" where
  "To4 ip =
     (if length ip = 4 then Some ip
      else if length ip = 16 \<and> take 10 ip = replicate 10 0 \<and> ip ! 10 = 255 \<and> ip ! 11 = 255
      then Some (drop 12 ip) else None)"

definition host_step :: "bytes \<Rightarrow> net_addr \<Rightarrow> bytes" where
  "host_step ip a =
     (case a of
        IPNetAddr v \<Rightarrow> v
      | IPAddrAddr v \<Rightarrow> v
      | OtherAddr \<Rightarrow> replicate 10 0 @ [255, 255, 49, 50, 51, 52])"

definition GetHostAddress :: "net_addr list list \<Rightarrow> string" where
  "GetHostAddress ifaces =
     (let ip = foldl host_step [] (concat ifaces) in
      case To4 ip of Some v \<Rightarrow> ip4_str v | None \<Rightarrow> ''<nil>'')"

section \<open>Lemmas\<close>

lemma uint_be_uint16: "uint (be_uint16 hi lo) = 256 * uint hi + uint lo"
proof -
  have "(push_bit 8 (ucast hi) :: 16 word) AND ucast lo = 0"
    by (rule bit_word_eqI) (auto simp: bit_simps dest: bit_imp_le_length)
  then have "be_uint16 hi lo = push_bit 8 (ucast hi) + ucast lo"
    unfolding be_uint16_def by (simp add: disjunctive_add_eq_or)
  moreover have "uint hi < 256" "uint lo < 256"
    using uint_lt2p [of hi] uint_lt2p [of lo] by simp_all
  ultimately show ?thesis
    by (simp add: push_bit_eq_mult uint_word_ariths unsigned_ucast_eq take_bit_eq_mod)
qed

text \<open>
  What Linux writes into the buffer for \<open>SO_ORIGINAL_DST\<close>: a \<open>sockaddr_in\<close> with the family in
  host order and the port in network order, padded to 16 bytes.
\<close>

definition sockaddr_in :: "bytes \<Rightarrow> 16 word \<Rightarrow> bytes" where
  "sockaddr_in ip port = [2, 0, ucast (drop_bit 8 port), ucast port] @ ip @ replicate 8 0"

lemma be_uint16_bytes: "be_uint16 (ucast (drop_bit 8 port)) (ucast port) = port"
  unfolding be_uint16_def by (rule bit_word_eqI) (auto simp: bit_simps)

text \<open>What \<open>GetOriginalDest\<close> reads back from the kernel's answer.\<close>

lemma GetOriginalDest_sockaddr:
  assumes "length ip = 4" "sockopt fd SO_ORIGINAL_DST = Inr (sockaddr_in ip port)"
  shows "GetOriginalDest (Inr fd) sockopt = Inr \<lparr>IP = ip, Port = uint port\<rparr>"
  using assms by (simp add: GetOriginalDest_def Let_def sockaddr_in_def be_uint16_bytes)

section \<open>Properties\<close>

text \<open>
  SPIFFE ids identify workloads: two tokens get the same id only when trust domain,
  namespace and service account all agree, provided domains and namespaces contain no slash
  (Kubernetes names never do); and every id starts with the scheme \<open>ExtractIdentity\<close> looks for.
\<close>

theorem spiffe_id_injective:
  assumes "GetSpiffeId k d = Inr s" "GetSpiffeId k' d' = Inr s'"
    and "CHR ''/'' \<notin> set d \<union> set d' \<union> set (Namespace k) \<union> set (Namespace k')"
  shows "HasPrefix s ''spiffe://'' \<and>
    (s = s' \<longleftrightarrow> d = d' \<and> Namespace k = Namespace k' \<and> SAName k = SAName k')"
proof -
  have s: "s = ''spiffe://'' @ d @ ''/ns/'' @ Namespace k @ ''/sa/'' @ SAName k"
    and s': "s' = ''spiffe://'' @ d' @ ''/ns/'' @ Namespace k' @ ''/sa/'' @ SAName k'"
    using assms(1,2) by (auto simp: GetSpiffeId_def split: if_splits)
  have "d = d' \<and> Namespace k = Namespace k' \<and> SAName k = SAName k'" if "s = s'"
  proof -
    from that have "d @ CHR ''/'' # ''ns/'' @ Namespace k @ ''/sa/'' @ SAName k =
        d' @ CHR ''/'' # ''ns/'' @ Namespace k' @ ''/sa/'' @ SAName k'"
      by (simp add: s s')
    with assms(3) have d: "d = d'" and "Namespace k @ CHR ''/'' # ''sa/'' @ SAName k =
        Namespace k' @ CHR ''/'' # ''sa/'' @ SAName k'"
      using append_eq_at_char [of "CHR ''/''" d d'] by auto
    with assms(3) show ?thesis
      using append_eq_at_char [of "CHR ''/''" "Namespace k" "Namespace k'"] by auto
  qed
  moreover have "HasPrefix s ''spiffe://''"
    unfolding s by (rule HasPrefix_append)
  ultimately show ?thesis by (auto simp: s s')
qed

text \<open>
  C28: The original destination survives the socket option, its printed form and its parsing:
  for every IPv4 address and port, \<open>GetOriginalDest\<close> reads back what the kernel wrote, and
  splitting the printed address gives the dotted address and the decimal port. A dotted
  address equals another only if the addresses are equal.
\<close>

theorem original_dest_roundtrip:
  assumes "length ip = 4" "sockopt fd SO_ORIGINAL_DST = Inr (sockaddr_in ip port)"
  shows "\<exists>a. GetOriginalDest (Inr fd) sockopt = Inr a \<and> IP a = ip \<and> Port a = uint port \<and>
    SplitHostPort (addr_str a) = Inr (ip4_str ip, int_str (uint port)) \<and>
    (\<forall>ip'. length ip' = 4 \<longrightarrow> ip4_str ip = ip4_str ip' \<longrightarrow> ip = ip')"
proof -
  let ?a = "\<lparr>IP = ip, Port = uint port\<rparr>"
  have "GetOriginalDest (Inr fd) sockopt = Inr ?a"
    using assms by (rule GetOriginalDest_sockaddr)
  moreover have "SplitHostPort (addr_str ?a) = Inr (ip4_str ip, int_str (uint port))"
    using SplitHostPort_addr_str [of ?a] by simp
  moreover have "ip = ip'" if "length ip' = 4" "ip4_str ip = ip4_str ip'" for ip'
    using that assms(1) by (intro ip4_str_inject) auto
  ultimately show ?thesis by force
qed

text \<open>
  \<open>Fetch\<close> succeeds exactly when the call does, the returned PEM text holds at least one
  certificate and the key fits the first one; then the result is that chain and key with the
  pod uid of the same response, and it is a usable certificate. The token goes trimmed into the
  metadata entry the control plane reads.
\<close>

theorem fetch_functional:
  "(Fetch rpc blocks fits token spiffeId = Inr r) =
     (\<exists>resp der ders. rpc [(''x-sentinel-token'', ''Bearer '' @ TrimSpace token)] spiffeId = Inr resp \<and>
        blocks (resp_certificate resp) = der # ders \<and> fits der (resp_private_key resp) \<and>
        usable_cert (IdCertificate r) \<and>
        r = \<lparr>IdCertificate = \<lparr>Certificate = Some (der # ders), PrivateKey = resp_private_key resp\<rparr>,
              PodUid = resp_pod_uid resp\<rparr>)"
  by (auto simp: Fetch_def Let_def X509KeyPair_def usable_cert_def split: sum.splits list.splits if_splits)

theorem spiffe_id_injective_witness:
  "\<exists>s s'. GetSpiffeId \<lparr>Namespace = ''default'', SAName = ''a''\<rparr> ''cluster.local'' = Inr s \<and>
     GetSpiffeId \<lparr>Namespace = ''default'', SAName = ''b''\<rparr> ''cluster.local'' = Inr s' \<and> s \<noteq> s'"
proof -
  let ?k = "\<lparr>Namespace = ''default'', SAName = ''a''\<rparr>" and ?l = "\<lparr>Namespace = ''default'', SAName = ''b''\<rparr>"
  obtain s s' where h: "GetSpiffeId ?k ''cluster.local'' = Inr s" "GetSpiffeId ?l ''cluster.local'' = Inr s'"
    by (simp add: GetSpiffeId_def)
  then have "s \<noteq> s'" using spiffe_id_injective [OF h] by simp
  with h show ?thesis by blast
qed

theorem original_dest_roundtrip_witness:
  "\<exists>a. GetOriginalDest (Inr 3) (\<lambda>_ _. Inr (sockaddr_in [10, 0, 0, 7] 8080)) = Inr a \<and>
     IP a = [10, 0, 0, 7] \<and> Port a = 8080 \<and> SplitHostPort (addr_str a) = Inr (ip4_str [10, 0, 0, 7], int_str 8080)"
  using original_dest_roundtrip [of "[10, 0, 0, 7]" "\<lambda>_ _. Inr (sockaddr_in [10, 0, 0, 7] 8080)" 3 8080] by auto

end
