(* ===== verification/CertManager.thy ===== *)
theory CertManager
  imports Identity
begin

text \<open>
  \<open>internal/cert_manager/cert_manager.go\<close>: the certificate manager and its rotation goroutine
  \<open>StartRotation\<close>, as a state machine whose events are the answers of the outside world (the
  token provider, the certificate fetcher, timers, the renew channel, cancellation). One event
  moves the goroutine from one blocking point to the next; the calls it makes on the way are
  the output. \<open>RWLock\<close> treats the interleaving with \<open>GetCurrentCertificate\<close>.
\<close>

section \<open>State\<close>

record CertManager =
  CurrentCert :: "tls_cert option"
  CurrentPodUid :: string
  RetryDelay :: duration
  RenewalWindow :: duration

text \<open>\<open>ServiceAccountTokenContainer\<close>: \<open>TokMu\<close> says that the mutex pointer is not nil.\<close>

record token_container =
  TokMu :: bool
  Token :: ServiceAccountToken

text \<open>
  Where the goroutine is: at the head of the loop, in the \<open>select\<close> on the retry delay, in one of
  the two fetches or the token request, in the \<open>select\<close> on the rotation timer, returned, or
  crashed by an index out of range.
\<close>

datatype rot_pc = PLoop | PRetry | PFetchInitial | PSleep duration | PRequest | PFetchRotate | PDone | PPanic

record rotation =
  cm :: CertManager
  tok :: "token_container option"
  rpc_at :: rot_pc

text \<open>The arguments of \<open>StartRotation\<close> that do not change.\<close>

record rot_args =
  ra_namespace :: string
  ra_serviceAccount :: string
  ra_podName :: string
  ra_podUID :: string
  ra_spiffeId :: string

datatype rot_call =
    CallFetch ServiceAccountToken string
  | CallRequestToken string string string string

datatype rot_event =
    Iterate int \<comment> \<open>the next pass of the loop, with the clock reading\<close>
  | FetchReturns "(fetch_error, IdentityResult) result"
  | TokenReturns "(string, ServiceAccountToken) result"
  | TimerFires
  | RenewSignal
  | CtxDone

definition GetCurrentCertificate :: "CertManager \<Rightarrow> tls_cert option" where
  "GetCurrentCertificate c = CurrentCert c"

section \<open>When to renew\<close>

text \<open>Durations are signed 64-bit nanoseconds; times are nanoseconds since the epoch.\<close>

definition seconds :: "int \<Rightarrow> duration" where
  "seconds n = word_of_int (n * 1000000000)"

text \<open>\<open>time.Until\<close> saturates at the ends of the \<open>Duration\<close> range.\<close>

definition max_duration :: int where "max_duration = 2 ^ 63 - 1"
definition min_duration :: int where "min_duration = - (2 ^ 63)"

definition time_until :: "int \<Rightarrow> int \<Rightarrow> duration" where
  "time_until t now = word_of_int (max min_duration (min max_duration (t - now)))"

definition effective_window :: "CertManager \<Rightarrow> duration" where
  "effective_window c = (if RenewalWindow c = 0 then seconds (5 * 60) else RenewalWindow c)"

definition sleep_duration :: "CertManager \<Rightarrow> int \<Rightarrow> int \<Rightarrow> duration" where
  "sleep_duration c notAfter now =
     (let renewTime = notAfter + sint (- effective_window c);
          d = time_until renewTime now
      in if sint d \<le> 0 then seconds 10 else d)"

section \<open>The loop\<close>

definition token_ok :: "token_container option \<Rightarrow> bool" where
  "token_ok t = (case t of None \<Rightarrow> False | Some c \<Rightarrow> TokMu c \<and> Token c \<noteq> [])"

definition install :: "CertManager \<Rightarrow> IdentityResult \<Rightarrow> CertManager" where
  "install c r = c\<lparr>CurrentCert := Some (IdCertificate r), CurrentPodUid := PodUid r\<rparr>"

text \<open>
  One pass from the head of the loop to the next blocking call. \<open>parse\<close> is
  \<open>x509.ParseCertificate\<close>, reduced to the certificate's \<open>NotAfter\<close>. A certificate with a
  non-nil but empty chain makes \<open>Certificate[0]\<close> panic.
\<close>

definition loop_head ::
  "(string \<Rightarrow> int option) \<Rightarrow> rot_args \<Rightarrow> rotation \<Rightarrow> int \<Rightarrow> rotation \<times> rot_call list" where
  "loop_head parse a s now =
     (case tok s of
        Some t \<Rightarrow>
          if \<not> token_ok (Some t) then (s\<lparr>rpc_at := PRetry\<rparr>, [])
          else (case CurrentCert (cm s) of
              None \<Rightarrow> (s\<lparr>rpc_at := PFetchInitial\<rparr>, [CallFetch (Token t) (ra_spiffeId a)])
            | Some cert \<Rightarrow>
                (case Certificate cert of
                   None \<Rightarrow> (s\<lparr>rpc_at := PFetchInitial\<rparr>, [CallFetch (Token t) (ra_spiffeId a)])
                 | Some [] \<Rightarrow> (s\<lparr>rpc_at := PPanic\<rparr>, [])
                 | Some (der # _) \<Rightarrow>
                     (case parse der of
                        None \<Rightarrow> (s\<lparr>rpc_at := PRetry\<rparr>, [])
                      | Some notAfter \<Rightarrow> (s\<lparr>rpc_at := PSleep (sleep_duration (cm s) notAfter now)\<rparr>, []))))
      | None \<Rightarrow> (s\<lparr>rpc_at := PRetry\<rparr>, []))"

fun rot_step ::
  "(string \<Rightarrow> int option) \<Rightarrow> rot_args \<Rightarrow> rotation \<Rightarrow> rot_event \<Rightarrow> (rotation \<times> rot_call list) option" where
  "rot_step parse a s (Iterate now) =
     (if rpc_at s = PLoop then Some (loop_head parse a s now) else None)"
| "rot_step parse a s (FetchReturns res) =
     (if rpc_at s = PFetchInitial \<or> rpc_at s = PFetchRotate then
        (case res of
           Inl err \<Rightarrow> Some (s\<lparr>rpc_at := PRetry\<rparr>, [])
         | Inr result \<Rightarrow> Some (s\<lparr>cm := install (cm s) result, rpc_at := PLoop\<rparr>, []))
      else None)"
| "rot_step parse a s (TokenReturns res) =
     (if rpc_at s = PRequest then
        (case res of
           Inl err \<Rightarrow> Some (s\<lparr>rpc_at := PRetry\<rparr>, [])
         | Inr newToken \<Rightarrow>
             Some (s\<lparr>tok := map_option (\<lambda>t. t\<lparr>Token := newToken\<rparr>) (tok s), rpc_at := PFetchRotate\<rparr>,
               [CallFetch newToken (ra_spiffeId a)]))
      else None)"
| "rot_step parse a s TimerFires =
     (case rpc_at s of
        PRetry \<Rightarrow> Some (s\<lparr>rpc_at := PLoop\<rparr>, [])
      | PSleep d \<Rightarrow> Some (s\<lparr>rpc_at := PRequest\<rparr>,
          [CallRequestToken (ra_namespace a) (ra_serviceAccount a) (ra_podName a) (ra_podUID a)])
      | _ \<Rightarrow> None)"
| "rot_step parse a s RenewSignal =
     (case rpc_at s of
        PSleep d \<Rightarrow> Some (s\<lparr>rpc_at := PRequest\<rparr>,
          [CallRequestToken (ra_namespace a) (ra_serviceAccount a) (ra_podName a) (ra_podUID a)])
      | _ \<Rightarrow> None)"
| "rot_step parse a s CtxDone =
     (case rpc_at s of
        PRetry \<Rightarrow> Some (s\<lparr>rpc_at := PDone\<rparr>, [])
      | PSleep d \<Rightarrow> Some (s\<lparr>rpc_at := PDone\<rparr>, [])
      | _ \<Rightarrow> None)"

fun rot_run ::
  "(string \<Rightarrow> int option) \<Rightarrow> rot_args \<Rightarrow> rotation \<Rightarrow> rot_event list \<Rightarrow> (rotation \<times> rot_call list) option" where
  "rot_run parse a s [] = Some (s, [])"
| "rot_run parse a s (e # es) =
     (case rot_step parse a s e of
        None \<Rightarrow> None
      | Some (s1, cs) \<Rightarrow> map_option (\<lambda>(s2, cs'). (s2, cs @ cs')) (rot_run parse a s1 es))"

lemma rot_run_Cons_iff:
  "rot_run parse a s (e # es) = Some (s', calls) \<longleftrightarrow>
     (\<exists>s1 c1 c2. rot_step parse a s e = Some (s1, c1) \<and> rot_run parse a s1 es = Some (s', c2) \<and> calls = c1 @ c2)"
  by (auto split: option.splits)

declare rot_run.simps(2) [simp del]

text \<open>
  An invariant of single steps holds along every run; \<open>ok\<close> restricts the events and \<open>Q\<close> is a
  condition on the calls.
\<close>

lemma rot_run_invariant:
  assumes "\<And>s e s' cs. I s \<Longrightarrow> ok e \<Longrightarrow> rot_step parse a s e = Some (s', cs) \<Longrightarrow> I s' \<and> list_all Q cs"
  shows "I s \<Longrightarrow> list_all ok es \<Longrightarrow> rot_run parse a s es = Some (s', calls) \<Longrightarrow> I s' \<and> list_all Q calls"
proof (induction es arbitrary: s calls)
  case Nil
  then show ?case by simp
next
  case (Cons e es)
  from Cons.prems(3) obtain s1 c1 c2 where step: "rot_step parse a s e = Some (s1, c1)"
    and run: "rot_run parse a s1 es = Some (s', c2)" and calls: "calls = c1 @ c2"
    unfolding rot_run_Cons_iff by blast
  from assms [OF Cons.prems(1) _ step] Cons.prems(2) have "I s1" "list_all Q c1" by simp_all
  moreover from Cons.IH [OF this(1) _ run] Cons.prems(2) have "I s' \<and> list_all Q c2" by simp
  ultimately show ?case by (simp add: calls)
qed

lemma loop_head_frame:
  "loop_head parse a s now = (s', cs) \<Longrightarrow> cm s' = cm s \<and> tok s' = tok s"
  by (auto simp: loop_head_def split: option.splits list.splits if_splits)

section \<open>The certificate in use\<close>

text \<open>The rotation has a usable certificate and is not on the path that fetches the first one.\<close>

definition holds_cert :: "rotation \<Rightarrow> bool" where
  "holds_cert s \<longleftrightarrow> (\<exists>c. CurrentCert (cm s) = Some c \<and> usable_cert c) \<and>
     rpc_at s \<noteq> PPanic \<and> rpc_at s \<noteq> PFetchInitial"

lemma loop_head_holds:
  assumes "holds_cert s" "loop_head parse a s now = (s', cs)"
  shows "holds_cert s' \<and> cs = [] \<and> (rpc_at s' = PRetry \<or> (\<exists>d. rpc_at s' = PSleep d))"
  using assms
  by (auto simp: holds_cert_def loop_head_def usable_cert_def split: option.splits list.splits if_splits)

context cert_fetcher
begin

text \<open>A success the rotation sees is an answer of the fetcher.\<close>

definition answered :: "rot_event \<Rightarrow> bool" where
  "answered e \<longleftrightarrow> (\<forall>r. e = FetchReturns (Inr r) \<longrightarrow> (\<exists>w t sp. fetch w t sp = Inr r))"

lemma step_holds_cert:
  assumes "holds_cert s" "answered e" "rot_step parse a s e = Some (s', cs)"
  shows "holds_cert s'"
proof (cases e)
  case (Iterate now)
  with assms(1,3) show ?thesis
    by (cases "loop_head parse a s now") (auto dest: loop_head_holds split: if_splits)
next
  case (FetchReturns res)
  with assms show ?thesis
    by (auto simp: holds_cert_def install_def answered_def intro: fetch_usable split: if_splits sum.splits)
qed (use assms in \<open>auto simp: holds_cert_def split: if_splits sum.splits rot_pc.splits\<close>)

lemma run_holds_cert:
  assumes "holds_cert s" "list_all answered es" "rot_run parse a s es = Some (s', calls)"
  shows "holds_cert s'"
  using rot_run_invariant [of holds_cert answered parse a "\<lambda>_. True" s es s' calls] assms
    step_holds_cert by (simp add: list_all_iff)

end

text \<open>The certificate and pod uid last installed, starting from a given pair.\<close>

definition last_installed :: "tls_cert option \<times> string \<Rightarrow> rot_event list \<Rightarrow> tls_cert option \<times> string" where
  "last_installed = foldl (\<lambda>p e. case e of
      FetchReturns (Inr r) \<Rightarrow> (Some (IdCertificate r), PodUid r) | _ \<Rightarrow> p)"

lemma rot_step_installed:
  "rot_step parse a s e = Some (s', cs) \<Longrightarrow>
     (CurrentCert (cm s'), CurrentPodUid (cm s')) =
       (case e of FetchReturns (Inr r) \<Rightarrow> (Some (IdCertificate r), PodUid r)
        | _ \<Rightarrow> (CurrentCert (cm s), CurrentPodUid (cm s))) \<and>
     RetryDelay (cm s') = RetryDelay (cm s) \<and> RenewalWindow (cm s') = RenewalWindow (cm s)"
  by (cases e) (auto simp: install_def dest: loop_head_frame split: if_splits sum.splits rot_pc.splits)

lemma rot_run_installed:
  "rot_run parse a s es = Some (s', calls) \<Longrightarrow>
     (CurrentCert (cm s'), CurrentPodUid (cm s')) =
       last_installed (CurrentCert (cm s), CurrentPodUid (cm s)) es \<and>
     RetryDelay (cm s') = RetryDelay (cm s) \<and> RenewalWindow (cm s') = RenewalWindow (cm s)"
proof (induction es arbitrary: s calls)
  case Nil
  then show ?case by (simp add: last_installed_def)
next
  case (Cons e es)
  from Cons.prems obtain s1 c1 c2 where step: "rot_step parse a s e = Some (s1, c1)"
    and run: "rot_run parse a s1 es = Some (s', c2)"
    unfolding rot_run_Cons_iff by blast
  show ?case
    using Cons.IH [OF run] rot_step_installed [OF step] by (simp add: last_installed_def)
qed

section \<open>Wedged states\<close>

text \<open>
  The token is unusable, or it is fine and the current certificate does not parse: every pass of
  the loop goes back to the retry delay.
\<close>

definition wedged :: "(string \<Rightarrow> int option) \<Rightarrow> rotation \<Rightarrow> bool" where
  "wedged parse s \<longleftrightarrow>
     rpc_at s \<in> {PLoop, PRetry, PDone} \<and>
     (\<not> token_ok (tok s) \<or>
      (\<exists>c der ders. CurrentCert (cm s) = Some c \<and> Certificate c = Some (der # ders) \<and> parse der = None))"

lemma loop_head_wedged:
  assumes "wedged parse s"
  shows "loop_head parse a s now = (s\<lparr>rpc_at := PRetry\<rparr>, [])"
  using assms by (auto simp: wedged_def loop_head_def token_ok_def split: option.splits)

lemma rot_step_wedged:
  assumes "wedged parse s" "rot_step parse a s e = Some (s', cs)"
  shows "wedged parse s' \<and> cs = [] \<and> cm s' = cm s \<and> tok s' = tok s"
proof (cases e)
  case (Iterate now)
  with assms show ?thesis
    by (auto simp: loop_head_wedged split: if_splits) (auto simp: wedged_def)
qed (use assms in \<open>auto simp: wedged_def split: if_splits sum.splits rot_pc.splits\<close>)

section \<open>Order of calls\<close>

definition request_call :: "rot_args \<Rightarrow> rot_call" where
  "request_call a = CallRequestToken (ra_namespace a) (ra_serviceAccount a) (ra_podName a) (ra_podUID a)"

text \<open>Every fetch comes right after a token request for this pod, and asks for this identity.\<close>

fun fetches_fresh :: "rot_args \<Rightarrow> rot_call option \<Rightarrow> rot_call list \<Rightarrow> bool" where
  "fetches_fresh a prev [] = True"
| "fetches_fresh a prev (CallFetch t sp # cs) =
     (prev = Some (request_call a) \<and> sp = ra_spiffeId a \<and> fetches_fresh a (Some (CallFetch t sp)) cs)"
| "fetches_fresh a prev (CallRequestToken n sa p u # cs) =
     (CallRequestToken n sa p u = request_call a \<and> fetches_fresh a (Some (CallRequestToken n sa p u)) cs)"

lemma fetches_fresh_append:
  "fetches_fresh a prev (cs @ ds) \<longleftrightarrow>
     fetches_fresh a prev cs \<and> fetches_fresh a (if cs = [] then prev else Some (last cs)) ds"
  by (induction a prev cs rule: fetches_fresh.induct) auto

lemma rot_step_fresh:
  assumes "holds_cert s" "rpc_at s = PRequest \<longrightarrow> prev = Some (request_call a)"
    and "rot_step parse a s e = Some (s', cs)"
  shows "fetches_fresh a prev cs \<and>
    (rpc_at s' = PRequest \<longrightarrow> (if cs = [] then prev else Some (last cs)) = Some (request_call a))"
proof (cases e)
  case (Iterate now)
  with assms show ?thesis
    by (cases "loop_head parse a s now") (auto dest: loop_head_holds split: if_splits)
qed (use assms in \<open>auto simp: request_call_def split: if_splits sum.splits rot_pc.splits\<close>)

context cert_fetcher
begin

lemma run_fresh:
  "holds_cert s \<Longrightarrow> list_all answered es \<Longrightarrow> rpc_at s = PRequest \<longrightarrow> prev = Some (request_call a) \<Longrightarrow>
     rot_run parse a s es = Some (s', calls) \<Longrightarrow> fetches_fresh a prev calls"
proof (induction es arbitrary: s prev calls)
  case Nil
  then show ?case by simp
next
  case (Cons e es)
  from Cons.prems(4) obtain s1 c1 c2 where step: "rot_step parse a s e = Some (s1, c1)"
    and run: "rot_run parse a s1 es = Some (s', c2)" and calls: "calls = c1 @ c2"
    unfolding rot_run_Cons_iff by blast
  let ?prev = "if c1 = [] then prev else Some (last c1)"
  have fresh: "fetches_fresh a prev c1" "rpc_at s1 = PRequest \<longrightarrow> ?prev = Some (request_call a)"
    using rot_step_fresh [OF Cons.prems(1,3) step] by blast+
  moreover have "holds_cert s1"
    using step_holds_cert [OF Cons.prems(1) _ step] Cons.prems(2) by simp
  then have "fetches_fresh a ?prev c2"
    using Cons.IH [OF _ _ fresh(2) run] Cons.prems(2) by simp
  ultimately show ?case by (simp add: calls fetches_fresh_append)
qed

end

section \<open>Reaching a select\<close>

definition selects :: "rotation \<Rightarrow> bool" where
  "selects s \<longleftrightarrow> (case rpc_at s of PRetry \<Rightarrow> True | PSleep d \<Rightarrow> True | _ \<Rightarrow> False)"

text \<open>How many events away the next \<open>select\<close> is at most.\<close>

fun to_select :: "rot_pc \<Rightarrow> nat" where
  "to_select PRequest = 3"
| "to_select PFetchRotate = 2"
| "to_select PLoop = 1"
| "to_select _ = 0"

lemma rot_step_to_select:
  assumes "holds_cert s" "\<not> selects s" "rot_step parse a s e = Some (s', cs)"
  shows "selects s' \<or> to_select (rpc_at s') < to_select (rpc_at s)"
proof (cases e)
  case (Iterate now)
  with assms show ?thesis
    by (cases "loop_head parse a s now") (auto simp: selects_def dest: loop_head_holds split: if_splits)
qed (use assms in \<open>auto simp: holds_cert_def selects_def split: if_splits sum.splits rot_pc.splits\<close>)

lemma rot_step_PDone: "rpc_at s = PDone \<Longrightarrow> rot_step parse a s e = None"
  by (cases e) auto

context cert_fetcher
begin

lemma run_reaches_select:
  "holds_cert s \<Longrightarrow> list_all answered es \<Longrightarrow> rot_run parse a s es = Some (s', calls) \<Longrightarrow>
     to_select (rpc_at s) \<le> length es \<Longrightarrow> rpc_at s \<noteq> PDone \<Longrightarrow>
     \<exists>k s1 c1. k \<le> to_select (rpc_at s) \<and> rot_run parse a s (take k es) = Some (s1, c1) \<and> selects s1"
proof (induction es arbitrary: s calls)
  case Nil
  then show ?case by (cases "rpc_at s") (auto simp: selects_def holds_cert_def)
next
  case (Cons e es)
  show ?case
  proof (cases "selects s")
    case True
    then show ?thesis by (intro exI [of _ 0]) simp
  next
    case False
    from Cons.prems(3) obtain s1 c1 c2 where step: "rot_step parse a s e = Some (s1, c1)"
      and run: "rot_run parse a s1 es = Some (s', c2)"
      unfolding rot_run_Cons_iff by blast
    have s1: "holds_cert s1" using step_holds_cert [OF Cons.prems(1) _ step] Cons.prems(2) by simp
    from rot_step_to_select [OF Cons.prems(1) False step]
    show ?thesis
    proof
      assume "selects s1"
      moreover have "0 < to_select (rpc_at s)"
        using False Cons.prems(1,5) by (cases "rpc_at s") (auto simp: selects_def holds_cert_def)
      ultimately show ?thesis
        using step by (intro exI [of _ 1]) (auto simp: rot_run_Cons_iff)
    next
      assume less: "to_select (rpc_at s1) < to_select (rpc_at s)"
      have "rpc_at s1 \<noteq> PDone"
        using step False by (cases e) (auto simp: selects_def loop_head_def
            split: if_splits sum.splits rot_pc.splits option.splits list.splits)
      with less Cons.prems(2,4) obtain k s2 d where k: "k \<le> to_select (rpc_at s1)"
        "rot_run parse a s1 (take k es) = Some (s2, d)" "selects s2"
        using Cons.IH [OF s1 _ run] by auto
      with less step show ?thesis
        by (intro exI [of _ "Suc k"]) (auto simp: rot_run_Cons_iff)
    qed
  qed
qed

end

section \<open>Signed 64-bit durations\<close>

lemma sint_of_int64:
  "- (2 ^ 63) \<le> k \<Longrightarrow> k < 2 ^ 63 \<Longrightarrow> sint (word_of_int k :: duration) = k"
  by (simp add: signed_of_int signed_take_bit_int_eq_self)

lemma sint_neg_duration:
  assumes "- (2 ^ 63) < sint w"
  shows "sint (- w :: duration) = - sint w"
proof -
  have "- w = word_of_int (- sint w)" by simp
  moreover have "sint w < 2 ^ 63" using sint_lt [of w] by simp
  ultimately show ?thesis using assms by (simp only: sint_of_int64)
qed

lemma sint_time_until: "sint (time_until t now) = max min_duration (min max_duration (t - now))"
  unfolding time_until_def by (rule sint_of_int64) (auto simp: max_duration_def min_duration_def)

lemma sint_seconds: "\<bar>n\<bar> \<le> 9000000000 \<Longrightarrow> sint (seconds n) = n * 1000000000"
  unfolding seconds_def by (rule sint_of_int64) auto

lemma sleep_schedule:
  assumes "0 \<le> sint (RenewalWindow c)"
  shows "let w = (if RenewalWindow c = 0 then 300 * 1000000000 else sint (RenewalWindow c));
             d = sint (sleep_duration c notAfter now); left = notAfter - w - now
         in 0 < w \<and> 0 < d \<and> (left \<le> 0 \<longrightarrow> d = 10 * 1000000000) \<and>
            (0 < left \<longrightarrow> left \<le> max_duration \<longrightarrow> now + d = notAfter - w) \<and>
            (max_duration < left \<longrightarrow> d = max_duration)"
proof -
  let ?w = "if RenewalWindow c = 0 then 300 * 1000000000 else sint (RenewalWindow c)"
  have w: "sint (effective_window c) = ?w"
    by (simp add: effective_window_def sint_seconds)
  have "sint (RenewalWindow c) \<noteq> 0" if "RenewalWindow c \<noteq> 0"
    using that by (simp add: signed_eq_0_iff)
  with assms have pos: "0 < ?w" by auto
  then have "sint (- effective_window c) = - ?w" by (simp add: w sint_neg_duration)
  then have "sint (time_until (notAfter + sint (- effective_window c)) now) =
      max min_duration (min max_duration (notAfter - ?w - now))"
    by (simp add: sint_time_until)
  then show ?thesis
    using pos sint_seconds [of 10]
    by (auto simp: sleep_duration_def Let_def max_duration_def min_duration_def)
qed

section \<open>Properties\<close>

text \<open>
  Rotation is hitless. From a state with a usable certificate, however many rotations
  succeed or fail, in every order of timer, renew, token, fetch and cancellation events, the
  manager always hands out a usable certificate and the goroutine never crashes, as long as
  the fetched certificates come from the real fetcher (whatever the control plane answers).
\<close>

theorem rotation_hitless:
  assumes "CurrentCert (cm s) = Some c" "usable_cert c" "rpc_at s = PLoop"
    and "rot_run parse a s es = Some (s', calls)"
    and "\<And>r. FetchReturns (Inr r) \<in> set es \<Longrightarrow> \<exists>rpc t sp. Fetch rpc blocks fits t sp = Inr r"
  shows "(\<exists>c'. GetCurrentCertificate (cm s') = Some c' \<and> usable_cert c') \<and> rpc_at s' \<noteq> PPanic"
proof -
  have "holds_cert s" using assms(1-3) by (simp add: holds_cert_def)
  moreover have "list_all (real_fetcher.answered blocks fits) es"
    using assms(5) by (auto simp: list_all_iff real_fetcher.answered_def)
  ultimately have "holds_cert s'"
    using assms(4) by (rule real_fetcher.run_holds_cert)
  then show ?thesis by (simp add: holds_cert_def GetCurrentCertificate_def)
qed

text \<open>
  The certificate and pod uid in use always belong together: they are those of the most
  recent successful fetch of the run, or the initial ones; failed requests and fetches, timers
  and cancellation never change them, and nothing changes the delays.
\<close>

theorem rotation_installs_last:
  assumes "rot_run parse a s es = Some (s', calls)"
  shows "(GetCurrentCertificate (cm s'), CurrentPodUid (cm s')) =
      last_installed (GetCurrentCertificate (cm s), CurrentPodUid (cm s)) es \<and>
    RetryDelay (cm s') = RetryDelay (cm s) \<and> RenewalWindow (cm s') = RenewalWindow (cm s)"
  using rot_run_installed [OF assms] by (simp add: GetCurrentCertificate_def)

text \<open>
  C23: When the rotation sleeps: for a non-negative renewal window the delay is always positive;
  it ends exactly one window before the certificate expires when that moment lies ahead (and
  within the range of a \<open>Duration\<close>), and is ten seconds when that moment has passed. A zero
  window means five minutes.
\<close>

theorem rotation_schedule:
  assumes "0 \<le> sint (RenewalWindow c)"
  shows "let w = (if RenewalWindow c = 0 then 300 * 1000000000 else sint (RenewalWindow c));
             d = sint (sleep_duration c notAfter now); left = notAfter - w - now
         in 0 < w \<and> 0 < d \<and> (left \<le> 0 \<longrightarrow> d = 10 * 1000000000) \<and>
            (0 < left \<longrightarrow> left \<le> max_duration \<longrightarrow> now + d = notAfter - w) \<and>
            (max_duration < left \<longrightarrow> d = max_duration)"
  using assms by (rule sleep_schedule)


text \<open>
  C29: Two errors the loop never recovers from. With an unusable token (such as an empty one
  stored by an earlier rotation) or a certificate that does not parse, every later run makes no
  call at all, neither for a token nor for a certificate, and keeps both as they are; the log
  message announces a re-fetch that never happens.
\<close>

theorem rotation_wedged:
  assumes "wedged parse s" "rot_run parse a s es = Some (s', calls)"
  shows "wedged parse s' \<and> calls = [] \<and> cm s' = cm s \<and> tok s' = tok s"
proof -
  have "(wedged parse s' \<and> cm s' = cm s \<and> tok s' = tok s) \<and> list_all (\<lambda>_. False) calls"
    using assms rot_step_wedged [of parse _ a]
    by (intro rot_run_invariant [of "\<lambda>t. wedged parse t \<and> cm t = cm s \<and> tok t = tok s" "\<lambda>_. True"
          parse a "\<lambda>_. False" s es s' calls]) (auto simp: list_all_iff)
  then show ?thesis by (cases calls) auto
qed

text \<open>
  Cancellation is never blocked for long: within three events the goroutine is back in a
  \<open>select\<close>, a select always accepts the cancellation, and a cancelled goroutine does nothing more.
\<close>

theorem rotation_stops_on_cancel:
  assumes "holds_cert s" "rpc_at s \<noteq> PDone" "3 \<le> length es" "rot_run parse a s es = Some (s', calls)"
    and "\<And>r. FetchReturns (Inr r) \<in> set es \<Longrightarrow> \<exists>rpc t sp. Fetch rpc blocks fits t sp = Inr r"
  shows "\<exists>k s1 c1 s2. k \<le> 3 \<and> rot_run parse a s (take k es) = Some (s1, c1) \<and>
     rot_step parse a s1 CtxDone = Some (s2, []) \<and> (\<forall>e. rot_step parse a s2 e = None)"
proof -
  have "list_all (real_fetcher.answered blocks fits) es"
    using assms(5) by (auto simp: list_all_iff real_fetcher.answered_def)
  moreover have bound: "to_select (rpc_at s) \<le> 3" by (cases "rpc_at s") auto
  ultimately obtain k s1 c1 where k: "k \<le> to_select (rpc_at s)"
    "rot_run parse a s (take k es) = Some (s1, c1)" "selects s1"
    using real_fetcher.run_reaches_select [OF assms(1) _ assms(4) _ assms(2)] assms(3) by fastforce
  from k(3) have "rot_step parse a s1 CtxDone = Some (s1\<lparr>rpc_at := PDone\<rparr>, [])"
    by (auto simp: selects_def split: rot_pc.splits)
  moreover have "\<forall>e. rot_step parse a (s1\<lparr>rpc_at := PDone\<rparr>) e = None"
    by (simp add: rot_step_PDone)
  ultimately show ?thesis using k(1,2) bound
    by (intro exI [of _ k] exI [of _ s1] exI [of _ c1] exI [of _ "s1\<lparr>rpc_at := PDone\<rparr>"]) simp
qed

text \<open>
  A rotation with a cooperating token provider and control plane completes: from the sleep,
  the timer (or a renew signal), the token and the certificate arrive in three events, after which
  the new certificate, its pod uid and the new token are in place and the loop goes round.
\<close>

theorem rotation_completes:
  assumes "rpc_at s = PSleep d" "tok s = Some t" "trigger = TimerFires \<or> trigger = RenewSignal"
  shows "rot_run parse a s [trigger, TokenReturns (Inr new), FetchReturns (Inr r)] =
    Some (s\<lparr>cm := install (cm s) r, tok := Some (t\<lparr>Token := new\<rparr>), rpc_at := PLoop\<rparr>,
      [request_call a, CallFetch new (ra_spiffeId a)])"
  using assms by (auto simp: rot_run.simps(2) request_call_def)

section \<open>A concrete rotation\<close>

definition example_args :: rot_args where
  "example_args = \<lparr>ra_namespace = ''shop'', ra_serviceAccount = ''cart'', ra_podName = ''cart-0'',
     ra_podUID = ''u0'', ra_spiffeId = ''spiffe://td/ns/shop/sa/cart''\<rparr>"

definition example_result :: IdentityResult where
  "example_result = \<lparr>IdCertificate = \<lparr>Certificate = Some [''der1''], PrivateKey = ''key1''\<rparr>, PodUid = ''u1''\<rparr>"

definition example_state :: rotation where
  "example_state =
     \<lparr>cm = \<lparr>CurrentCert = Some \<lparr>Certificate = Some [''der0''], PrivateKey = ''key0''\<rparr>,
            CurrentPodUid = ''u0'', RetryDelay = seconds 10, RenewalWindow = 0\<rparr>,
      tok = Some \<lparr>TokMu = True, Token = ''t0''\<rparr>, rpc_at = PLoop\<rparr>"

definition example_events :: "rot_event list" where
  "example_events = [Iterate 0, TimerFires, TokenReturns (Inr ''t1''), FetchReturns (Inr example_result)]"

definition example_calls :: "rot_call list" where
  "example_calls = [CallRequestToken ''shop'' ''cart'' ''cart-0'' ''u0'', CallFetch ''t1'' ''spiffe://td/ns/shop/sa/cart'']"

definition example_final :: rotation where
  "example_final = example_state\<lparr>cm := install (cm example_state) example_result,
     tok := Some \<lparr>TokMu = True, Token = ''t1''\<rparr>\<rparr>"

text \<open>The certificates of the example never expire within the range of a \<open>Duration\<close>.\<close>

definition example_parse :: "string \<Rightarrow> int option" where
  "example_parse der = Some (10 ^ 20)"

lemma example_run:
  "rot_run example_parse example_args example_state example_events = Some (example_final, example_calls)"
  by (simp add: rot_run.simps(2) example_events_def example_state_def loop_head_def token_ok_def
      example_parse_def example_args_def example_calls_def example_final_def)

lemma example_fetch:
  "Fetch (\<lambda>md sp. Inr \<lparr>resp_certificate = ''der1'', resp_private_key = ''key1'', resp_issuing_ca = [],
     resp_serial_number = [], resp_pod_uid = ''u1''\<rparr>) (\<lambda>pem. [pem]) (\<lambda>der key. True) ''t1'' ''sp'' = Inr example_result"
  by (simp add: Fetch_def X509KeyPair_def example_result_def)

lemma example_from_fetcher:
  "FetchReturns (Inr r) \<in> set example_events \<Longrightarrow>
     \<exists>rpc t sp. Fetch rpc (\<lambda>pem. [pem]) (\<lambda>der key. True) t sp = Inr r"
  using example_fetch by (auto simp: example_events_def)

lemma rotation_hitless_witness:
  "\<exists>c. GetCurrentCertificate (cm example_final) = Some c \<and> usable_cert c"
  using rotation_hitless [of example_state "\<lparr>Certificate = Some [''der0''], PrivateKey = ''key0''\<rparr>"
      example_parse example_args example_events example_final example_calls "\<lambda>pem. [pem]" "\<lambda>der key. True"]
    example_run example_from_fetcher
  by (simp add: example_state_def usable_cert_def)

lemma rotation_installs_last_witness:
  "(GetCurrentCertificate (cm example_final), CurrentPodUid (cm example_final)) =
     (Some \<lparr>Certificate = Some [''der1''], PrivateKey = ''key1''\<rparr>, ''u1'')"
  using rotation_installs_last [OF example_run]
  by (simp add: last_installed_def example_events_def example_result_def)

lemma rotation_schedule_witness:
  "sint (sleep_duration (cm example_state) (10 ^ 12) 0) = 700 * 1000000000"
  using rotation_schedule [of "cm example_state" "10 ^ 12" 0]
  by (simp add: example_state_def max_duration_def Let_def)


lemma rotation_wedged_witness:
  "wedged (\<lambda>der. None) (example_state\<lparr>rpc_at := PRetry\<rparr>) \<and>
   rot_run (\<lambda>der. None) example_args example_state [Iterate 0] = Some (example_state\<lparr>rpc_at := PRetry\<rparr>, [])"
proof -
  have w: "wedged (\<lambda>der. None) example_state" by (simp add: wedged_def example_state_def)
  have run: "rot_run (\<lambda>der. None) example_args example_state [Iterate 0] =
      Some (example_state\<lparr>rpc_at := PRetry\<rparr>, [])"
    by (simp add: rot_run.simps(2) example_state_def loop_head_def token_ok_def)
  from rotation_wedged [OF w run] run show ?thesis by blast
qed

lemma rotation_stops_on_cancel_witness:
  "\<exists>k s1 c1 s2. k \<le> 3 \<and> rot_run example_parse example_args example_state (take k example_events) = Some (s1, c1) \<and>
     rot_step example_parse example_args s1 CtxDone = Some (s2, []) \<and>
     (\<forall>e. rot_step example_parse example_args s2 e = None)"
  using rotation_stops_on_cancel [OF _ _ _ example_run example_from_fetcher]
  by (simp add: example_state_def holds_cert_def usable_cert_def example_events_def)

lemma rotation_completes_witness:
  "rot_run example_parse example_args (example_state\<lparr>rpc_at := PSleep 1\<rparr>)
     [RenewSignal, TokenReturns (Inr ''t1''), FetchReturns (Inr example_result)] =
   Some (example_final, example_calls)"
  using rotation_completes [of "example_state\<lparr>rpc_at := PSleep 1\<rparr>" 1 "\<lparr>TokMu = True, Token = ''t0''\<rparr>"
      RenewSignal example_parse example_args "''t1''" example_result]
  by (simp add: example_state_def example_final_def example_calls_def example_args_def request_call_def)

end
