(* ===== verification/RWLock.thy ===== *)
theory RWLock
  imports CertManager
begin

text \<open>
  The read-write lock of \<open>CertManager\<close>: the rotation goroutine stores a new certificate and its pod
  uid under \<open>CertMutex.Lock\<close> while handshakes call \<open>GetCurrentCertificate\<close> under \<open>RLock\<close>. Here the stores and
  loads are single steps of an interleaving; the lemmas show that it behaves as if \<open>install\<close>
  and \<open>GetCurrentCertificate\<close> were atomic, which is how the other theories use them.
\<close>

section \<open>The lock\<close>

record rwmutex =
  w_held :: bool
  r_count :: nat

text \<open>\<open>None\<close> says that the call blocks (or, for the two releases, that it is a fatal error).\<close>

definition RLock :: "rwmutex \<Rightarrow> rwmutex option" where
  "RLock m = (if w_held m then None else Some (m\<lparr>r_count := Suc (r_count m)\<rparr>))"

definition RUnlock :: "rwmutex \<Rightarrow> rwmutex option" where
  "RUnlock m = (if r_count m = 0 then None else Some (m\<lparr>r_count := r_count m - 1\<rparr>))"

definition Lock :: "rwmutex \<Rightarrow> rwmutex option" where
  "Lock m = (if w_held m \<or> r_count m \<noteq> 0 then None else Some (m\<lparr>w_held := True\<rparr>))"

definition Unlock :: "rwmutex \<Rightarrow> rwmutex option" where
  "Unlock m = (if w_held m then Some (m\<lparr>w_held := False\<rparr>) else None)"

text \<open>
  What a client of such a lock relies on, and what follows for every sequence of its operations:
  a writer and a reader are never inside together.
\<close>

locale rw_lock =
  fixes rlock runlock lock unlock :: "'m \<Rightarrow> 'm option"
    and writing :: "'m \<Rightarrow> bool" and reading :: "'m \<Rightarrow> nat"
  assumes rlock_law: "rlock m = Some m' \<Longrightarrow> \<not> writing m \<and> \<not> writing m' \<and> reading m' = Suc (reading m)"
    and runlock_law: "runlock m = Some m' \<Longrightarrow> writing m' = writing m \<and> Suc (reading m') = reading m"
    and lock_law: "lock m = Some m' \<Longrightarrow> \<not> writing m \<and> reading m = 0 \<and> writing m' \<and> reading m' = 0"
    and unlock_law: "unlock m = Some m' \<Longrightarrow> writing m \<and> \<not> writing m' \<and> reading m' = reading m"
begin

definition exclusive :: "'m \<Rightarrow> bool" where
  "exclusive m \<longleftrightarrow> (writing m \<longrightarrow> reading m = 0)"

lemma exclusive_step:
  "exclusive m \<Longrightarrow> op \<in> {rlock, runlock, lock, unlock} \<Longrightarrow> op m = Some m' \<Longrightarrow> exclusive m'"
  using rlock_law [of m m'] runlock_law [of m m'] lock_law [of m m'] unlock_law [of m m']
  by (auto simp: exclusive_def)

end

interpretation go_lock: rw_lock RLock RUnlock Lock Unlock w_held r_count
  by unfold_locales (auto simp: RLock_def RUnlock_def Lock_def Unlock_def split: if_splits)

section \<open>Threads\<close>

text \<open>
  Where the storing goroutine is (\<open>Lock\<close>, the two stores, \<open>Unlock\<close>), and where a call of
  \<open>GetCurrentCertificate\<close> is.
\<close>

datatype store_pc =
    SIdle | SWaits IdentityResult | SLocked IdentityResult | SStoredCert IdentityResult | SStoredBoth IdentityResult

datatype load_pc = LIdle | LLocked | LLoaded "tls_cert option"

text \<open>\<open>published\<close> is the manager as the last completed store left it.\<close>

record locked_manager =
  mutex :: rwmutex
  manager :: CertManager
  spc :: store_pc
  loads :: "load_pc list"
  published :: CertManager

datatype lock_event =
    StoreBegin IdentityResult
  | StoreLock
  | StoreCert
  | StorePodUid
  | StoreUnlock IdentityResult
  | LoadLock nat
  | LoadCert nat
  | LoadReturn nat "tls_cert option"

fun lock_step :: "locked_manager \<Rightarrow> lock_event \<Rightarrow> locked_manager option" where
  "lock_step s (StoreBegin r) = (if spc s = SIdle then Some (s\<lparr>spc := SWaits r\<rparr>) else None)"
| "lock_step s StoreLock =
     (case spc s of
        SWaits r \<Rightarrow> map_option (\<lambda>m. s\<lparr>mutex := m, spc := SLocked r\<rparr>) (Lock (mutex s)) | _ \<Rightarrow> None)"
| "lock_step s StoreCert =
     (case spc s of
        SLocked r \<Rightarrow> Some (s\<lparr>manager := (manager s)\<lparr>CurrentCert := Some (IdCertificate r)\<rparr>, spc := SStoredCert r\<rparr>)
      | _ \<Rightarrow> None)"
| "lock_step s StorePodUid =
     (case spc s of
        SStoredCert r \<Rightarrow> Some (s\<lparr>manager := (manager s)\<lparr>CurrentPodUid := PodUid r\<rparr>, spc := SStoredBoth r\<rparr>)
      | _ \<Rightarrow> None)"
| "lock_step s (StoreUnlock r) =
     (if spc s = SStoredBoth r
      then map_option (\<lambda>m. s\<lparr>mutex := m, spc := SIdle, published := manager s\<rparr>) (Unlock (mutex s)) else None)"
| "lock_step s (LoadLock i) =
     (if i < length (loads s) \<and> loads s ! i = LIdle
      then map_option (\<lambda>m. s\<lparr>mutex := m, loads := (loads s)[i := LLocked]\<rparr>) (RLock (mutex s)) else None)"
| "lock_step s (LoadCert i) =
     (if i < length (loads s) \<and> loads s ! i = LLocked
      then Some (s\<lparr>loads := (loads s)[i := LLoaded (CurrentCert (manager s))]\<rparr>) else None)"
| "lock_step s (LoadReturn i c) =
     (if i < length (loads s) \<and> loads s ! i = LLoaded c
      then map_option (\<lambda>m. s\<lparr>mutex := m, loads := (loads s)[i := LIdle]\<rparr>) (RUnlock (mutex s)) else None)"

fun lock_run :: "locked_manager \<Rightarrow> lock_event list \<Rightarrow> locked_manager option" where
  "lock_run s [] = Some s"
| "lock_run s (e # es) = (case lock_step s e of None \<Rightarrow> None | Some t \<Rightarrow> lock_run t es)"

definition start_locked :: "CertManager \<Rightarrow> nat \<Rightarrow> locked_manager" where
  "start_locked c n =
     \<lparr>mutex = \<lparr>w_held = False, r_count = 0\<rparr>, manager = c, spc = SIdle, loads = replicate n LIdle, published = c\<rparr>"

section \<open>The atomic manager\<close>

text \<open>
  The specification: \<open>StoreUnlock r\<close> is the moment of \<open>install\<close>, \<open>LoadReturn i c\<close> the moment of a
  \<open>GetCurrentCertificate\<close> with result \<open>c\<close>; the other events are invisible.
\<close>

fun atomic_step :: "CertManager \<Rightarrow> lock_event \<Rightarrow> CertManager option" where
  "atomic_step c (StoreUnlock r) = Some (install c r)"
| "atomic_step c (LoadReturn i res) = (if GetCurrentCertificate c = res then Some c else None)"
| "atomic_step c _ = Some c"

fun atomic_run :: "CertManager \<Rightarrow> lock_event list \<Rightarrow> CertManager option" where
  "atomic_run c [] = Some c"
| "atomic_run c (e # es) = (case atomic_step c e of None \<Rightarrow> None | Some d \<Rightarrow> atomic_run d es)"

section \<open>Invariant\<close>

fun holds_write :: "store_pc \<Rightarrow> bool" where
  "holds_write SIdle = False"
| "holds_write (SWaits _) = False"
| "holds_write _ = True"

fun holds_read :: "load_pc \<Rightarrow> bool" where
  "holds_read LIdle = False"
| "holds_read _ = True"

definition readers_in :: "load_pc list \<Rightarrow> nat" where
  "readers_in ls = length (filter holds_read ls)"

fun load_ok :: "CertManager \<Rightarrow> load_pc \<Rightarrow> bool" where
  "load_ok c (LLoaded v) = (v = CurrentCert c)"
| "load_ok c _ = True"

fun store_ok :: "CertManager \<Rightarrow> CertManager \<Rightarrow> store_pc \<Rightarrow> bool" where
  "store_ok now old (SStoredCert r) = (now = old\<lparr>CurrentCert := Some (IdCertificate r)\<rparr>)"
| "store_ok now old (SStoredBoth r) = (now = install old r)"
| "store_ok now old _ = (now = old)"

definition lock_inv :: "locked_manager \<Rightarrow> bool" where
  "lock_inv s \<longleftrightarrow>
     w_held (mutex s) = holds_write (spc s) \<and>
     r_count (mutex s) = readers_in (loads s) \<and>
     go_lock.exclusive (mutex s) \<and>
     store_ok (manager s) (published s) (spc s) \<and>
     (\<forall>c \<in> set (loads s). load_ok (published s) c)"

lemma readers_in_update:
  "i < length ls \<Longrightarrow>
     readers_in (ls[i := c]) + (if holds_read (ls ! i) then 1 else 0) = readers_in ls + (if holds_read c then 1 else 0)"
proof (induction ls arbitrary: i)
  case Nil
  then show ?case by simp
next
  case (Cons l ls)
  then show ?case by (cases i) (auto simp: readers_in_def)
qed

lemma readers_in_pos: "c \<in> set ls \<Longrightarrow> holds_read c \<Longrightarrow> 0 < readers_in ls"
  by (auto simp: readers_in_def filter_empty_conv)

lemma set_list_update: "x \<in> set (ls[i := c]) \<Longrightarrow> x = c \<or> x \<in> set ls"
  using set_update_subset_insert [of ls i c] by auto

lemma lock_inv_start: "lock_inv (start_locked c n)"
  by (simp add: lock_inv_def start_locked_def readers_in_def go_lock.exclusive_def)

text \<open>No load is under way while the lock is held for writing.\<close>

lemma no_load_while_storing:
  assumes "lock_inv s" "holds_write (spc s)" "c \<in> set (loads s)"
  shows "c = LIdle"
  using assms readers_in_pos [OF assms(3)] by (cases c) (auto simp: lock_inv_def go_lock.exclusive_def)

lemma lock_inv_step:
  assumes "lock_inv s" "lock_step s e = Some s'"
  shows "lock_inv s' \<and> atomic_step (published s) e = Some (published s')"
proof (cases e)
  case (StoreBegin r)
  with assms show ?thesis by (auto simp: lock_inv_def split: if_splits)
next
  case StoreLock
  with assms obtain r m where s: "spc s = SWaits r" "Lock (mutex s) = Some m" "s' = s\<lparr>mutex := m, spc := SLocked r\<rparr>"
    by (auto split: store_pc.splits)
  with assms(1) show ?thesis
    using StoreLock by (auto simp: lock_inv_def Lock_def go_lock.exclusive_def split: if_splits)
next
  case StoreCert
  with assms show ?thesis by (auto simp: lock_inv_def split: store_pc.splits)
next
  case StorePodUid
  with assms show ?thesis by (auto simp: lock_inv_def install_def split: store_pc.splits)
next
  case (StoreUnlock r)
  with assms obtain m where s: "spc s = SStoredBoth r" "Unlock (mutex s) = Some m"
    "s' = s\<lparr>mutex := m, spc := SIdle, published := manager s\<rparr>"
    by (auto split: if_splits)
  have "\<forall>c \<in> set (loads s). c = LIdle" using no_load_while_storing [OF assms(1)] s(1) by simp
  with s assms(1) StoreUnlock show ?thesis
    by (auto simp: lock_inv_def Unlock_def go_lock.exclusive_def split: if_splits)
next
  case (LoadLock i)
  with assms obtain m where s: "i < length (loads s)" "loads s ! i = LIdle" "RLock (mutex s) = Some m"
    "s' = s\<lparr>mutex := m, loads := (loads s)[i := LLocked]\<rparr>"
    by (auto split: if_splits)
  with readers_in_update [OF s(1), of LLocked] assms(1) LoadLock show ?thesis
    by (auto simp: lock_inv_def RLock_def go_lock.exclusive_def split: if_splits dest!: set_list_update)
next
  case (LoadCert i)
  with assms have s: "i < length (loads s)" "loads s ! i = LLocked"
    "s' = s\<lparr>loads := (loads s)[i := LLoaded (CurrentCert (manager s))]\<rparr>"
    by (auto split: if_splits)
  have "LLocked \<in> set (loads s)" using s(1,2) by (metis nth_mem)
  then have "\<not> holds_write (spc s)" using no_load_while_storing [OF assms(1)] by fastforce
  with assms(1) have "manager s = published s" by (cases "spc s") (auto simp: lock_inv_def)
  with readers_in_update [OF s(1), of "LLoaded (CurrentCert (manager s))"] s assms(1) LoadCert show ?thesis
    by (auto simp: lock_inv_def split: if_splits dest!: set_list_update)
next
  case (LoadReturn i c)
  with assms obtain m where s: "i < length (loads s)" "loads s ! i = LLoaded c" "RUnlock (mutex s) = Some m"
    "s' = s\<lparr>mutex := m, loads := (loads s)[i := LIdle]\<rparr>"
    by (auto split: if_splits)
  have "LLoaded c \<in> set (loads s)" using s(1,2) by (metis nth_mem)
  with assms(1) have "c = CurrentCert (published s)" by (auto simp: lock_inv_def)
  with readers_in_update [OF s(1), of LIdle] s assms(1) LoadReturn show ?thesis
    by (auto simp: lock_inv_def RUnlock_def go_lock.exclusive_def GetCurrentCertificate_def
        split: if_splits dest!: set_list_update)
qed

lemma lock_run_refines:
  "lock_inv s \<Longrightarrow> lock_run s es = Some s' \<Longrightarrow>
     lock_inv s' \<and> atomic_run (published s) es = Some (published s')"
proof (induction es arbitrary: s)
  case Nil
  then show ?case by simp
next
  case (Cons e es)
  from Cons.prems(2) obtain t where t: "lock_step s e = Some t" "lock_run t es = Some s'"
    by (auto split: option.splits)
  with lock_inv_step [OF Cons.prems(1) t(1)] Cons.IH [of t] show ?case by auto
qed

section \<open>Progress\<close>

text \<open>The events by which a thread goes on with what it has begun.\<close>

fun proceeds :: "lock_event \<Rightarrow> bool" where
  "proceeds (StoreBegin _) = False"
| "proceeds (LoadLock _) = False"
| "proceeds _ = True"

lemma loads_proceed:
  assumes "lock_inv s" "c \<in> set (loads s)" "c \<noteq> LIdle"
  shows "\<exists>e t. proceeds e \<and> lock_step s e = Some t"
proof -
  obtain i where i: "i < length (loads s)" "loads s ! i = c" using assms(2) by (metis in_set_conv_nth)
  show ?thesis
  proof (cases c)
    case LLocked
    with i show ?thesis by (intro exI [of _ "LoadCert i"]) simp
  next
    case (LLoaded v)
    have "0 < r_count (mutex s)" using assms readers_in_pos [OF assms(2)] by (cases c) (auto simp: lock_inv_def)
    with LLoaded i show ?thesis by (intro exI [of _ "LoadReturn i v"]) (simp add: RUnlock_def)
  qed (use assms(3) in simp)
qed

lemma store_proceeds:
  assumes "lock_inv s" "spc s \<noteq> SIdle"
  shows "\<exists>e t. proceeds e \<and> lock_step s e = Some t"
proof (cases "\<exists>c \<in> set (loads s). c \<noteq> LIdle")
  case True
  with loads_proceed [OF assms(1)] show ?thesis by blast
next
  case False
  then have "filter holds_read (loads s) = []" by (auto simp: filter_empty_conv)
  then have readers: "r_count (mutex s) = 0" using assms(1) by (simp add: lock_inv_def readers_in_def)
  have "\<exists>e. proceeds e \<and> lock_step s e \<noteq> None"
  proof (cases "spc s")
    case (SWaits r)
    with readers assms(1) show ?thesis by (intro exI [of _ StoreLock]) (auto simp: Lock_def lock_inv_def)
  next
    case (SLocked r)
    then show ?thesis by (intro exI [of _ "StoreCert"]) simp
  next
    case (SStoredCert r)
    then show ?thesis by (intro exI [of _ "StorePodUid"]) simp
  next
    case (SStoredBoth r)
    with assms(1) show ?thesis by (intro exI [of _ "StoreUnlock r"]) (auto simp: Unlock_def lock_inv_def)
  qed (use assms(2) in simp)
  then show ?thesis by blast
qed

section \<open>Properties\<close>

text \<open>
  The locked manager is atomic: in every interleaving of a storing goroutine and any number of calls
  of \<open>GetCurrentCertificate\<close>, what the calls return is what they would return if each store happened
  at once when it releases the lock; in particular nobody sees a certificate without its pod uid.
\<close>

theorem locked_manager_is_atomic:
  assumes "lock_run (start_locked c n) es = Some s"
  shows "atomic_run c es = Some (published s) \<and>
    (spc s = SIdle \<longrightarrow> manager s = published s)"
  using lock_run_refines [OF lock_inv_start assms]
  by (auto simp: start_locked_def lock_inv_def)

text \<open>
  The lock never deadlocks: whenever the storing goroutine or a call has begun, some thread can
  go on with what it has begun.
\<close>

theorem locked_manager_progress:
  assumes "lock_run (start_locked c n) es = Some s" "spc s \<noteq> SIdle \<or> (\<exists>l \<in> set (loads s). l \<noteq> LIdle)"
  shows "\<exists>e t. proceeds e \<and> lock_step s e = Some t"
  using lock_run_refines [OF lock_inv_start assms(1)] assms(2) store_proceeds loads_proceed by blast

section \<open>A concrete interleaving\<close>

text \<open>A call that began before a store returns the old certificate, one that begins after it the new one.\<close>

definition example_interleaving :: "lock_event list" where
  "example_interleaving =
     [LoadLock 0, StoreBegin example_result, LoadCert 0, LoadReturn 0 (CurrentCert (cm example_state)),
      StoreLock, StoreCert, StorePodUid, StoreUnlock example_result,
      LoadLock 1, LoadCert 1, LoadReturn 1 (Some (IdCertificate example_result))]"

lemma example_interleaving_run:
  "\<exists>s. lock_run (start_locked (cm example_state) 2) example_interleaving = Some s \<and> spc s = SIdle"
  by (simp add: example_interleaving_def start_locked_def RLock_def RUnlock_def Lock_def Unlock_def numeral_2_eq_2)

lemma locked_manager_is_atomic_witness:
  "atomic_run (cm example_state) example_interleaving \<noteq> None"
  using example_interleaving_run locked_manager_is_atomic by fastforce

lemma locked_manager_progress_witness:
  "\<exists>s e t. lock_run (start_locked (cm example_state) 2) [StoreBegin example_result] = Some s \<and>
     proceeds e \<and> lock_step s e = Some t"
  using locked_manager_progress [of "cm example_state" 2 "[StoreBegin example_result]"]
  by (simp add: start_locked_def)

end
