(* ===== verification/SharedCert.thy ===== *)
theory SharedCert
  imports RWLock
begin

text \<open>
  \<open>StartRotation\<close> and \<open>GetCurrentCertificate\<close> as threads over shared memory: every access of the certificate
  manager and every operation of \<open>CertMutex\<close> is a step of its own, and the lock is Go's, where a waiting
  writer keeps new readers out. \<open>RWLock\<close> looks at the critical sections alone; here they are part
  of the goroutine. The lemmas show that what the threads do is what \<open>CertManager\<close> and
  \<open>System\<close> say with atomic steps, that no two accesses race, and that handshakes cannot
  hold up a renewal.
\<close>

section \<open>The lock\<close>

text \<open>\<open>sync.RWMutex\<close>: held by a writer, a writer waits, and how many readers are inside.\<close>

record go_rwmutex =
  mx_writer :: bool
  mx_pending :: bool
  mx_readers :: nat

text \<open>\<open>Lock\<close> first announces the writer, from when on \<open>RLock\<close> blocks, and then waits for the readers.\<close>

definition rw_RLock :: "go_rwmutex \<Rightarrow> go_rwmutex option" where
  "rw_RLock m = (if mx_writer m \<or> mx_pending m then None else Some (m\<lparr>mx_readers := Suc (mx_readers m)\<rparr>))"

definition rw_RUnlock :: "go_rwmutex \<Rightarrow> go_rwmutex option" where
  "rw_RUnlock m = (if mx_readers m = 0 then None else Some (m\<lparr>mx_readers := mx_readers m - 1\<rparr>))"

definition rw_announce :: "go_rwmutex \<Rightarrow> go_rwmutex option" where
  "rw_announce m = (if mx_writer m \<or> mx_pending m then None else Some (m\<lparr>mx_pending := True\<rparr>))"

definition rw_acquire :: "go_rwmutex \<Rightarrow> go_rwmutex option" where
  "rw_acquire m =
     (if mx_pending m \<and> \<not> mx_writer m \<and> mx_readers m = 0 then Some (m\<lparr>mx_writer := True, mx_pending := False\<rparr>) else None)"

definition rw_Unlock :: "go_rwmutex \<Rightarrow> go_rwmutex option" where
  "rw_Unlock m = (if mx_writer m then Some (m\<lparr>mx_writer := False\<rparr>) else None)"

text \<open>The contract of \<open>RWLock\<close>, with the promise that a waiting writer gets in.\<close>

locale fair_rw_lock = rw_lock rlock runlock acquire unlock writing reading
  for rlock runlock acquire unlock :: "'m \<Rightarrow> 'm option" and writing :: "'m \<Rightarrow> bool" and reading :: "'m \<Rightarrow> nat" +
  fixes announce :: "'m \<Rightarrow> 'm option" and waiting :: "'m \<Rightarrow> bool"
  assumes announce_law: "announce m = Some m' \<Longrightarrow> waiting m' \<and> writing m' = writing m \<and> reading m' = reading m"
    and waiting_blocks: "waiting m \<Longrightarrow> rlock m = None"
    and waiting_enters: "waiting m \<Longrightarrow> \<not> writing m \<Longrightarrow> reading m = 0 \<Longrightarrow> acquire m \<noteq> None"
begin

lemma waiting_reading:
  assumes "waiting m" "op m = Some m'" "op \<in> {rlock, runlock}"
  shows "reading m' < reading m"
  using assms waiting_blocks [of m] runlock_law [of m m'] by auto

lemma waiting_not_stuck:
  assumes "waiting m" "\<not> writing m"
  shows "acquire m \<noteq> None \<or> 0 < reading m"
  using waiting_enters [OF assms] by auto

end

interpretation fair_lock: fair_rw_lock rw_RLock rw_RUnlock rw_acquire rw_Unlock mx_writer mx_readers rw_announce mx_pending
  by unfold_locales
    (auto simp: rw_RLock_def rw_RUnlock_def rw_acquire_def rw_Unlock_def rw_announce_def split: if_splits)

lemmas lock_ops = rw_RLock_def rw_RUnlock_def rw_acquire_def rw_Unlock_def rw_announce_def

section \<open>The threads\<close>

text \<open>
  The goroutine: at a blocking point of \<open>CertManager\<close>, in the read section at the head of the loop (it
  knows whether it needs a certificate, then has the leaf), or between the answer of a fetch and
  the release of the lock, in either of the two copies of this section.
\<close>

datatype read_phase = RWants | RHolds | RKnows bool | RHasDER string

datatype store_phase = StAnswer | StPending | StLocked | StCertStored | StUidStored

datatype rot_thread = AtPoint rot_pc | Reading read_phase | Storing rot_pc IdentityResult store_phase

record shared_state =
  sh_mutex :: go_rwmutex
  sh_mem :: CertManager
  sh_tok :: "token_container option"
  sh_rot :: rot_thread
  sh_loads :: "load_pc list"

text \<open>The phases of a store are passed in this order; \<open>phase_rank\<close> counts the steps that are left.\<close>

fun phase_rank :: "store_phase \<Rightarrow> nat" where
  "phase_rank StAnswer = 5"
| "phase_rank StPending = 4"
| "phase_rank StLocked = 3"
| "phase_rank StCertStored = 2"
| "phase_rank StUidStored = 1"

lemma phase_rank_inject: "phase_rank p = phase_rank q \<longleftrightarrow> p = q"
  by (cases p; cases q) simp_all

instantiation store_phase :: linorder
begin

definition less_eq_store_phase :: "store_phase \<Rightarrow> store_phase \<Rightarrow> bool" where
  [simp]: "less_eq_store_phase p q \<longleftrightarrow> phase_rank q \<le> phase_rank p"

definition less_store_phase :: "store_phase \<Rightarrow> store_phase \<Rightarrow> bool" where
  [simp]: "less_store_phase p q \<longleftrightarrow> phase_rank q < phase_rank p"

instance
  by standard (auto simp flip: phase_rank_inject)

end

text \<open>What happens in a step; \<open>VRot\<close> and \<open>VLoad\<close> are the moments at which it counts.\<close>

datatype sh_label =
    Internal
  | Answered IdentityResult
  | VRot rot_event "rot_call list"
  | LoadLocks nat
  | LoadReads nat
  | VLoad nat "tls_cert option"

text \<open>The events that do not touch the manager.\<close>

fun local_event :: "rot_event \<Rightarrow> bool" where
  "local_event (Iterate now) = False"
| "local_event (FetchReturns res) = isl res"
| "local_event _ = True"

definition needs_fetch :: "tls_cert option \<Rightarrow> bool" where
  "needs_fetch c = (case c of None \<Rightarrow> True | Some cert \<Rightarrow> Certificate cert = None)"

inductive shared_step ::
  "(string \<Rightarrow> int option) \<Rightarrow> rot_args \<Rightarrow> shared_state \<Rightarrow> sh_label \<Rightarrow> shared_state \<Rightarrow> bool" for parse a where
  Local: "sh_rot s = AtPoint pc \<Longrightarrow> local_event e \<Longrightarrow>
    rot_step parse a \<lparr>cm = sh_mem s, tok = sh_tok s, rpc_at = pc\<rparr> e = Some (r, cs) \<Longrightarrow>
    shared_step parse a s (VRot e cs) (s\<lparr>sh_tok := tok r, sh_rot := AtPoint (rpc_at r)\<rparr>)"
| NoToken: "sh_rot s = AtPoint PLoop \<Longrightarrow> \<not> token_ok (sh_tok s) \<Longrightarrow>
    shared_step parse a s (VRot (Iterate now) []) (s\<lparr>sh_rot := AtPoint PRetry\<rparr>)"
| Head: "sh_rot s = AtPoint PLoop \<Longrightarrow> token_ok (sh_tok s) \<Longrightarrow>
    shared_step parse a s Internal (s\<lparr>sh_rot := Reading RWants\<rparr>)"
| ReadLock: "sh_rot s = Reading RWants \<Longrightarrow> rw_RLock (sh_mutex s) = Some m \<Longrightarrow>
    shared_step parse a s Internal (s\<lparr>sh_mutex := m, sh_rot := Reading RHolds\<rparr>)"
| ReadNil: "sh_rot s = Reading RHolds \<Longrightarrow>
    shared_step parse a s Internal (s\<lparr>sh_rot := Reading (RKnows (needs_fetch (CurrentCert (sh_mem s))))\<rparr>)"
| ReadFetch: "sh_rot s = Reading (RKnows True) \<Longrightarrow> rw_RUnlock (sh_mutex s) = Some m \<Longrightarrow> sh_tok s = Some t \<Longrightarrow>
    shared_step parse a s (VRot (Iterate now) [CallFetch (Token t) (ra_spiffeId a)])
      (s\<lparr>sh_mutex := m, sh_rot := AtPoint PFetchInitial\<rparr>)"
| ReadDER: "sh_rot s = Reading (RKnows False) \<Longrightarrow> CurrentCert (sh_mem s) = Some c \<Longrightarrow> Certificate c = Some (der # ders) \<Longrightarrow>
    shared_step parse a s Internal (s\<lparr>sh_rot := Reading (RHasDER der)\<rparr>)"
| ReadPanic: "sh_rot s = Reading (RKnows False) \<Longrightarrow> CurrentCert (sh_mem s) = Some c \<Longrightarrow> Certificate c = Some [] \<Longrightarrow>
    shared_step parse a s (VRot (Iterate now) []) (s\<lparr>sh_rot := AtPoint PPanic\<rparr>)"
| ReadSleep: "sh_rot s = Reading (RHasDER der) \<Longrightarrow> rw_RUnlock (sh_mutex s) = Some m \<Longrightarrow> parse der = Some notAfter \<Longrightarrow>
    shared_step parse a s (VRot (Iterate now) [])
      (s\<lparr>sh_mutex := m, sh_rot := AtPoint (PSleep (sleep_duration (sh_mem s) notAfter now))\<rparr>)"
| ReadUnparsable: "sh_rot s = Reading (RHasDER der) \<Longrightarrow> rw_RUnlock (sh_mutex s) = Some m \<Longrightarrow> parse der = None \<Longrightarrow>
    shared_step parse a s (VRot (Iterate now) []) (s\<lparr>sh_mutex := m, sh_rot := AtPoint PRetry\<rparr>)"
| Answer: "sh_rot s = AtPoint pc \<Longrightarrow> pc = PFetchInitial \<or> pc = PFetchRotate \<Longrightarrow>
    shared_step parse a s (Answered r) (s\<lparr>sh_rot := Storing pc r StAnswer\<rparr>)"
| Announce: "sh_rot s = Storing pc r StAnswer \<Longrightarrow> rw_announce (sh_mutex s) = Some m \<Longrightarrow>
    shared_step parse a s Internal (s\<lparr>sh_mutex := m, sh_rot := Storing pc r StPending\<rparr>)"
| Acquire: "sh_rot s = Storing pc r StPending \<Longrightarrow> rw_acquire (sh_mutex s) = Some m \<Longrightarrow>
    shared_step parse a s Internal (s\<lparr>sh_mutex := m, sh_rot := Storing pc r StLocked\<rparr>)"
| StoreCert: "sh_rot s = Storing pc r StLocked \<Longrightarrow>
    shared_step parse a s (VRot (FetchReturns (Inr r)) [])
      (s\<lparr>sh_mem := (sh_mem s)\<lparr>CurrentCert := Some (IdCertificate r)\<rparr>, sh_rot := Storing pc r StCertStored\<rparr>)"
| StoreUid: "sh_rot s = Storing pc r StCertStored \<Longrightarrow>
    shared_step parse a s Internal
      (s\<lparr>sh_mem := (sh_mem s)\<lparr>CurrentPodUid := PodUid r\<rparr>, sh_rot := Storing pc r StUidStored\<rparr>)"
| Release: "sh_rot s = Storing pc r StUidStored \<Longrightarrow> rw_Unlock (sh_mutex s) = Some m \<Longrightarrow>
    shared_step parse a s Internal (s\<lparr>sh_mutex := m, sh_rot := AtPoint PLoop\<rparr>)"
| LoadLock: "i < length (sh_loads s) \<Longrightarrow> sh_loads s ! i = LIdle \<Longrightarrow> rw_RLock (sh_mutex s) = Some m \<Longrightarrow>
    shared_step parse a s (LoadLocks i) (s\<lparr>sh_mutex := m, sh_loads := (sh_loads s)[i := LLocked]\<rparr>)"
| LoadCert: "i < length (sh_loads s) \<Longrightarrow> sh_loads s ! i = LLocked \<Longrightarrow>
    shared_step parse a s (LoadReads i) (s\<lparr>sh_loads := (sh_loads s)[i := LLoaded (CurrentCert (sh_mem s))]\<rparr>)"
| LoadReturn: "i < length (sh_loads s) \<Longrightarrow> sh_loads s ! i = LLoaded c \<Longrightarrow> rw_RUnlock (sh_mutex s) = Some m \<Longrightarrow>
    shared_step parse a s (VLoad i c) (s\<lparr>sh_mutex := m, sh_loads := (sh_loads s)[i := LIdle]\<rparr>)"

code_pred (modes: i \<Rightarrow> i \<Rightarrow> i \<Rightarrow> i \<Rightarrow> o \<Rightarrow> bool) shared_step .

text \<open>Runs, and how they start: beside a goroutine at a blocking point, no call is under way.\<close>

inductive shared_run ::
  "(string \<Rightarrow> int option) \<Rightarrow> rot_args \<Rightarrow> shared_state \<Rightarrow> sh_label list \<Rightarrow> shared_state \<Rightarrow> bool" for parse a where
  Nil: "shared_run parse a s [] s"
| Cons: "shared_step parse a s l s1 \<Longrightarrow> shared_run parse a s1 ls s2 \<Longrightarrow> shared_run parse a s (l # ls) s2"

inductive_simps shared_run_Nil [simp]: "shared_run parse a s [] s'"
inductive_simps shared_run_Cons: "shared_run parse a s (l # ls) s'"

definition start_shared :: "rotation \<Rightarrow> nat \<Rightarrow> shared_state" where
  "start_shared r n =
     \<lparr>sh_mutex = \<lparr>mx_writer = False, mx_pending = False, mx_readers = 0\<rparr>, sh_mem = cm r, sh_tok = tok r,
      sh_rot = AtPoint (rpc_at r), sh_loads = replicate n LIdle\<rparr>"

section \<open>The atomic view\<close>

text \<open>What counts in a run, in order.\<close>

fun rot_labels :: "sh_label list \<Rightarrow> rot_event list" where
  "rot_labels [] = []"
| "rot_labels (VRot e cs # ls) = e # rot_labels ls"
| "rot_labels (_ # ls) = rot_labels ls"

fun call_labels :: "sh_label list \<Rightarrow> rot_call list" where
  "call_labels [] = []"
| "call_labels (VRot e cs # ls) = cs @ call_labels ls"
| "call_labels (_ # ls) = call_labels ls"

text \<open>The state of \<open>CertManager\<close> that a shared state stands for: a store happens with its first write.\<close>

fun point_of :: "rot_thread \<Rightarrow> rot_pc" where
  "point_of (AtPoint pc) = pc"
| "point_of (Reading ph) = PLoop"
| "point_of (Storing pc r ph) = (if StCertStored \<le> ph then PLoop else pc)"

fun mem_of :: "rot_thread \<Rightarrow> CertManager \<Rightarrow> CertManager" where
  "mem_of (Storing pc r ph) m = (if ph = StCertStored then install m r else m)"
| "mem_of _ m = m"

definition rotation_of :: "shared_state \<Rightarrow> rotation" where
  "rotation_of s = \<lparr>cm = mem_of (sh_rot s) (sh_mem s), tok = sh_tok s, rpc_at = point_of (sh_rot s)\<rparr>"

section \<open>Invariant\<close>

fun writing_thread :: "rot_thread \<Rightarrow> bool" where
  "writing_thread (Storing pc r ph) = (StLocked \<le> ph)"
| "writing_thread _ = False"

fun pending_thread :: "rot_thread \<Rightarrow> bool" where
  "pending_thread (Storing pc r ph) = (ph = StPending)"
| "pending_thread _ = False"

text \<open>A panic in the read section leaves the lock behind.\<close>

fun reading_thread :: "rot_thread \<Rightarrow> bool" where
  "reading_thread (Reading ph) = (ph \<noteq> RWants)"
| "reading_thread (AtPoint pc) = (pc = PPanic)"
| "reading_thread _ = False"

fun knows :: "CertManager \<Rightarrow> token_container option \<Rightarrow> rot_thread \<Rightarrow> bool" where
  "knows m t (AtPoint pc) = True"
| "knows m t (Reading ph) = (token_ok t \<and>
     (case ph of RKnows b \<Rightarrow> b = needs_fetch (CurrentCert m)
      | RHasDER der \<Rightarrow> \<exists>c ders. CurrentCert m = Some c \<and> Certificate c = Some (der # ders)
      | _ \<Rightarrow> True))"
| "knows m t (Storing pc r ph) = ((pc = PFetchInitial \<or> pc = PFetchRotate) \<and>
     (ph = StCertStored \<longrightarrow> CurrentCert m = Some (IdCertificate r)))"

definition shared_inv :: "shared_state \<Rightarrow> bool" where
  "shared_inv s \<longleftrightarrow>
     mx_writer (sh_mutex s) = writing_thread (sh_rot s) \<and>
     mx_pending (sh_mutex s) = pending_thread (sh_rot s) \<and>
     mx_readers (sh_mutex s) = readers_in (sh_loads s) + (if reading_thread (sh_rot s) then 1 else 0) \<and>
     fair_lock.exclusive (sh_mutex s) \<and>
     knows (sh_mem s) (sh_tok s) (sh_rot s) \<and>
     (\<forall>l \<in> set (sh_loads s). load_ok (sh_mem s) l)"

lemma shared_inv_start: "rpc_at r \<noteq> PPanic \<Longrightarrow> shared_inv (start_shared r n)"
  by (simp add: shared_inv_def start_shared_def readers_in_def fair_lock.exclusive_def)

lemma rotation_of_start: "rotation_of (start_shared r n) = r"
  by (simp add: rotation_of_def start_shared_def)

text \<open>While the goroutine is inside for writing, no call is inside.\<close>

lemma no_load_while_writing:
  assumes "shared_inv s" "writing_thread (sh_rot s)" "l \<in> set (sh_loads s)"
  shows "l = LIdle"
  using assms readers_in_pos [OF assms(3)] by (cases l) (auto simp: shared_inv_def fair_lock.exclusive_def)

text \<open>What one step means for the atomic machine.\<close>

fun label_ok :: "(string \<Rightarrow> int option) \<Rightarrow> rot_args \<Rightarrow> rotation \<Rightarrow> sh_label \<Rightarrow> rotation \<Rightarrow> bool" where
  "label_ok parse a r (VRot e cs) r' = (rot_step parse a r e = Some (r', cs))"
| "label_ok parse a r (VLoad i c) r' = (r' = r \<and> c = GetCurrentCertificate (cm r))"
| "label_ok parse a r _ r' = (r' = r)"

lemma local_event_mem:
  assumes "local_event e" "rot_step parse a r e = Some (r', cs)"
  shows "cm r' = cm r \<and> rpc_at r' \<noteq> PPanic \<and> rpc_at r \<noteq> PPanic"
  using assms by (cases e) (auto split: if_splits sum.splits rot_pc.splits)

lemma loaded_current:
  assumes "shared_inv s" "i < length (sh_loads s)" "sh_loads s ! i = LLoaded c"
  shows "c = CurrentCert (sh_mem s) \<and> mem_of (sh_rot s) (sh_mem s) = sh_mem s"
proof -
  have l: "LLoaded c \<in> set (sh_loads s)" using assms(2,3) by (metis nth_mem)
  then have "\<not> writing_thread (sh_rot s)" using no_load_while_writing [OF assms(1)] by auto
  then have "mem_of (sh_rot s) (sh_mem s) = sh_mem s" by (cases "sh_rot s") auto
  with l assms(1) show ?thesis by (fastforce simp: shared_inv_def)
qed

lemma install_stored:
  "CurrentCert m = Some (IdCertificate (r :: IdentityResult)) \<Longrightarrow> install m r = m\<lparr>CurrentPodUid := PodUid r\<rparr>"
  by (cases m) (simp add: install_def)

lemma shared_step_label:
  assumes "shared_step parse a s l s'" "shared_inv s"
  shows "label_ok parse a (rotation_of s) l (rotation_of s')"
  using assms
proof cases
  case (Local pc e r cs)
  with local_event_mem [OF Local(4,5)] show ?thesis
    by (auto simp: rotation_of_def)
next
  case (LoadReturn i c m)
  with loaded_current [OF assms(2)] show ?thesis
    by (auto simp: rotation_of_def GetCurrentCertificate_def)
next
  case (StoreUid pc r)
  with assms(2) install_stored [of "sh_mem s" r] show ?thesis
    by (simp add: rotation_of_def shared_inv_def)
qed (auto simp: rotation_of_def shared_inv_def loop_head_def needs_fetch_def token_ok_def install_def
      split: option.splits list.splits)

text \<open>Each kind of step keeps the invariant.\<close>

lemma load_step_inv:
  assumes "shared_inv s" "i < length (sh_loads s)" "sh_loads s ! i \<noteq> l" "load_ok (sh_mem s) l"
    and "mx_writer m = mx_writer (sh_mutex s)" "mx_pending m = mx_pending (sh_mutex s)" "fair_lock.exclusive m"
    and "mx_readers m + (if holds_read (sh_loads s ! i) then 1 else 0) =
      mx_readers (sh_mutex s) + (if holds_read l then 1 else 0)"
  shows "shared_inv (s\<lparr>sh_mutex := m, sh_loads := (sh_loads s)[i := l]\<rparr>)"
  using assms readers_in_update [OF assms(2), of l]
  by (auto simp: shared_inv_def split: if_splits dest!: set_list_update)

lemma shared_step_inv:
  assumes "shared_step parse a s l s'" "shared_inv s"
  shows "shared_inv s'"
proof -
  have ex: "fair_lock.exclusive (sh_mutex s)" using assms(2) by (simp add: shared_inv_def)
  from assms(1) show ?thesis
  proof cases
    case (Local pc e r cs)
    with local_event_mem [OF Local(4,5)] assms(2) show ?thesis by (simp add: shared_inv_def)
  next
    case (LoadLock i m)
    from fair_lock.exclusive_step [OF ex, of rw_RLock m] LoadLock(5) have "fair_lock.exclusive m" by simp
    with LoadLock show ?thesis
      using load_step_inv [OF assms(2) LoadLock(3), of LLocked m] by (auto simp: rw_RLock_def split: if_splits)
  next
    case (LoadCert i)
    with ex show ?thesis
      using load_step_inv [OF assms(2) LoadCert(3), of "LLoaded (CurrentCert (sh_mem s))" "sh_mutex s"] by auto
  next
    case (LoadReturn i c m)
    with ex show ?thesis
      using load_step_inv [OF assms(2) LoadReturn(3), of LIdle m]
      by (auto simp: rw_RUnlock_def fair_lock.exclusive_def split: if_splits)
  next
    case (StoreCert pc r)
    then show ?thesis using assms(2) no_load_while_writing [OF assms(2)]
      by (force simp: shared_inv_def)
  next
    case (StoreUid pc r)
    then show ?thesis using assms(2) no_load_while_writing [OF assms(2)]
      by (force simp: shared_inv_def)
  qed (use assms(2) in \<open>auto simp: shared_inv_def lock_ops fair_lock.exclusive_def split: if_splits\<close>)
qed

lemma shared_run_refines:
  "shared_run parse a s ls s' \<Longrightarrow> shared_inv s \<Longrightarrow>
     shared_inv s' \<and> rot_run parse a (rotation_of s) (rot_labels ls) = Some (rotation_of s', call_labels ls)"
proof (induction rule: shared_run.induct)
  case (Nil s)
  then show ?case by simp
next
  case (Cons s l s1 ls s2)
  from shared_step_label [OF Cons.hyps(1) Cons.prems] shared_step_inv [OF Cons.hyps(1) Cons.prems] Cons.IH
  show ?case by (cases l) (auto simp: rot_run_Cons_iff)
qed

lemma shared_run_append:
  "shared_run parse a s (xs @ ys) s' \<longleftrightarrow> (\<exists>m. shared_run parse a s xs m \<and> shared_run parse a m ys s')"
  by (induction xs arbitrary: s) (auto simp: shared_run_Cons)

lemma shared_run_length: "shared_run parse a s ls s' \<Longrightarrow> length (sh_loads s') = length (sh_loads s)"
proof (induction rule: shared_run.induct)
  case (Cons s l s1 ls s2)
  from Cons.hyps(1) have "length (sh_loads s1) = length (sh_loads s)" by cases auto
  with Cons.IH show ?case by simp
qed simp

lemma reachable_inv:
  assumes "rpc_at r \<noteq> PPanic" "shared_run parse a (start_shared r n) ls s"
  shows "shared_inv s" "length (sh_loads s) = n"
  using shared_run_refines [OF assms(2) shared_inv_start [OF assms(1)]] shared_run_length [OF assms(2)]
  by (simp_all add: start_shared_def)

section \<open>Progress of a store\<close>

text \<open>How many steps the calls that are inside have left.\<close>

fun steps_left :: "load_pc \<Rightarrow> nat" where
  "steps_left LIdle = 0"
| "steps_left LLocked = 2"
| "steps_left (LLoaded c) = 1"

definition loads_left :: "shared_state \<Rightarrow> nat" where
  "loads_left s = sum_list (List.map steps_left (sh_loads s))"

lemma loads_left_bound: "loads_left s \<le> 2 * length (sh_loads s)"
proof -
  have "sum_list (List.map steps_left ls) \<le> 2 * length ls" for ls
  proof (induction ls)
    case (Cons l ls)
    then show ?case by (cases l) auto
  qed simp
  then show ?thesis by (simp add: loads_left_def)
qed

lemma sum_list_less:
  fixes f :: "'a \<Rightarrow> nat"
  shows "i < length xs \<Longrightarrow> f x < f (xs ! i) \<Longrightarrow> sum_list (List.map f (xs[i := x])) < sum_list (List.map f xs)"
proof (induction xs arbitrary: i)
  case (Cons y ys)
  then show ?case by (cases i) auto
qed simp

text \<open>What the memory holds of the new certificate in each phase.\<close>

fun stored_so_far :: "CertManager \<Rightarrow> IdentityResult \<Rightarrow> store_phase \<Rightarrow> bool" where
  "stored_so_far m r StCertStored = (CurrentCert m = Some (IdCertificate r))"
| "stored_so_far m r StUidStored = (CurrentCert m = Some (IdCertificate r) \<and> CurrentPodUid m = PodUid r)"
| "stored_so_far m r _ = True"

lemma store_step:
  assumes "shared_step parse a s l s'" "shared_inv s" "sh_rot s = Storing pc r ph" "ph \<noteq> StAnswer"
    and "stored_so_far (sh_mem s) r ph"
  shows "(\<exists>ph'. sh_rot s' = Storing pc r ph' \<and> ph' \<noteq> StAnswer \<and> stored_so_far (sh_mem s') r ph' \<and>
       loads_left s' + phase_rank ph' < loads_left s + phase_rank ph) \<or>
     (sh_rot s' = AtPoint PLoop \<and> CurrentCert (sh_mem s') = Some (IdCertificate r) \<and>
       CurrentPodUid (sh_mem s') = PodUid r)"
  using assms(1)
proof cases
  case (LoadLock i m)
  with assms(2-4) show ?thesis by (cases ph) (auto simp: shared_inv_def rw_RLock_def)
next
  case (LoadCert i)
  with assms(3-5) sum_list_less [of i "sh_loads s" steps_left "LLoaded (CurrentCert (sh_mem s))"] show ?thesis
    by (simp add: loads_left_def)
next
  case (LoadReturn i c m)
  with assms(3-5) sum_list_less [of i "sh_loads s" steps_left LIdle] show ?thesis
    by (simp add: loads_left_def)
qed (use assms(3-5) in \<open>auto simp: loads_left_def\<close>)

lemma store_enabled:
  assumes "shared_inv s" "sh_rot s = Storing pc r ph"
  shows "\<exists>l s'. shared_step parse a s l s'"
proof (cases "ph = StPending \<and> mx_readers (sh_mutex s) \<noteq> 0")
  case True
  then have "readers_in (sh_loads s) \<noteq> 0" using assms by (auto simp: shared_inv_def)
  then obtain i where i: "i < length (sh_loads s)" "holds_read (sh_loads s ! i)"
    by (auto simp: readers_in_def filter_empty_conv in_set_conv_nth)
  show ?thesis
  proof (cases "sh_loads s ! i")
    case LLocked
    with i shared_step.LoadCert show ?thesis by blast
  next
    case (LLoaded c)
    with True i shared_step.LoadReturn [of i s c _ parse a] show ?thesis by (auto simp: rw_RUnlock_def)
  qed (use i in simp)
next
  case False
  show ?thesis
  proof (cases ph)
    case StAnswer
    with assms have "rw_announce (sh_mutex s) \<noteq> None" by (simp add: shared_inv_def rw_announce_def)
    with shared_step.Announce assms(2) StAnswer show ?thesis by blast
  next
    case StPending
    with assms False have "rw_acquire (sh_mutex s) \<noteq> None" by (simp add: shared_inv_def rw_acquire_def)
    with shared_step.Acquire assms(2) StPending show ?thesis by blast
  next
    case StUidStored
    with assms have "rw_Unlock (sh_mutex s) \<noteq> None" by (simp add: shared_inv_def rw_Unlock_def)
    with shared_step.Release assms(2) StUidStored show ?thesis by blast
  qed (use assms(2) shared_step.StoreCert shared_step.StoreUid in blast)+
qed

lemma store_completes:
  assumes "shared_run parse a s ls s'" "shared_inv s" "sh_rot s = Storing pc r ph" "ph \<noteq> StAnswer"
    and "stored_so_far (sh_mem s) r ph" "loads_left s + phase_rank ph \<le> length ls"
  shows "\<exists>k \<le> length ls. \<exists>s1. shared_run parse a s (take k ls) s1 \<and> sh_rot s1 = AtPoint PLoop \<and>
    CurrentCert (sh_mem s1) = Some (IdCertificate r) \<and> CurrentPodUid (sh_mem s1) = PodUid r"
  using assms
proof (induction arbitrary: ph rule: shared_run.induct)
  case (Nil s)
  then show ?case by (cases ph) simp_all
next
  case (Cons s l s1 ls s2)
  from store_step [OF Cons.hyps(1) Cons.prems(1-4)] show ?case
  proof (elim disjE exE conjE)
    fix ph'
    assume "sh_rot s1 = Storing pc r ph'" "ph' \<noteq> StAnswer" "stored_so_far (sh_mem s1) r ph'"
      "loads_left s1 + phase_rank ph' < loads_left s + phase_rank ph"
    with Cons.IH [OF shared_step_inv [OF Cons.hyps(1) Cons.prems(1)]] Cons.prems(5)
    obtain k t where "k \<le> length ls" "shared_run parse a s1 (take k ls) t" "sh_rot t = AtPoint PLoop"
      "CurrentCert (sh_mem t) = Some (IdCertificate r)" "CurrentPodUid (sh_mem t) = PodUid r" by fastforce
    with Cons.hyps(1) show ?thesis
      by (intro exI [of _ "Suc k"]) (auto simp: shared_run_Cons)
  next
    assume "sh_rot s1 = AtPoint PLoop" "CurrentCert (sh_mem s1) = Some (IdCertificate r)"
      "CurrentPodUid (sh_mem s1) = PodUid r"
    with Cons.hyps(1) show ?thesis
      by (intro exI [of _ "Suc 0"]) (auto simp: shared_run_Cons)
  qed
qed

section \<open>Properties\<close>

text \<open>
  The threads refine the atomic model. In every interleaving of the goroutine with any number of calls of
  \<open>GetCurrentCertificate\<close>, load by load and store by store, what counts is a run of \<open>rot_step\<close> with the same calls
  to the outside, and each call returns the certificate that the atomic manager holds at that point of
  the run. The goroutine's own view of the certificate, read under \<open>RLock\<close> and used after
  \<open>RUnlock\<close>, is never out of date.
\<close>

theorem shared_memory_refines:
  assumes "rpc_at r \<noteq> PPanic" "shared_run parse a (start_shared r n) ls s"
  shows "rot_run parse a r (rot_labels ls) = Some (rotation_of s, call_labels ls) \<and>
    (\<forall>pre i c post. ls = pre @ VLoad i c # post \<longrightarrow>
       (\<exists>r1. rot_run parse a r (rot_labels pre) = Some (r1, call_labels pre) \<and> c = GetCurrentCertificate (cm r1)))"
proof (intro conjI allI impI)
  show "rot_run parse a r (rot_labels ls) = Some (rotation_of s, call_labels ls)"
    using shared_run_refines [OF assms(2) shared_inv_start [OF assms(1)]] by (simp add: rotation_of_start)
next
  fix pre i c post
  assume "ls = pre @ VLoad i c # post"
  with assms(2) obtain s1 s2 where pre: "shared_run parse a (start_shared r n) pre s1"
    and step: "shared_step parse a s1 (VLoad i c) s2"
    by (auto simp: shared_run_append shared_run_Cons)
  from shared_run_refines [OF pre shared_inv_start [OF assms(1)]] shared_step_label [OF step]
  show "\<exists>r1. rot_run parse a r (rot_labels pre) = Some (r1, call_labels pre) \<and> c = GetCurrentCertificate (cm r1)"
    by (auto simp: rotation_of_start)
qed

text \<open>No data race: the goroutine never stands before a write of the manager while a call stands before its read.\<close>

theorem manager_race_free:
  assumes "rpc_at r \<noteq> PPanic" "shared_run parse a (start_shared r n) ls s"
  shows "\<not> (writing_thread (sh_rot s) \<and> LLocked \<in> set (sh_loads s))"
  using no_load_while_writing [OF reachable_inv(1) [OF assms]] by auto

text \<open>
  C14: Handshakes cannot hold up a renewal. Once the goroutine has announced that it wants to write, some
  thread can always go on, and every run of \<open>2 * n + 4\<close> further steps, with \<open>n\<close> handlers, goes through the end of
  the store: new certificate and pod uid are in memory and the goroutine is at the head of its loop.
\<close>

theorem renewal_not_starved:
  assumes "rpc_at r0 \<noteq> PPanic" "shared_run parse a (start_shared r0 n) ls s" "sh_rot s = Storing pc r StPending"
  shows "(\<exists>l s'. shared_step parse a s l s') \<and>
    (\<forall>ls' s'. shared_run parse a s ls' s' \<and> length ls' = 2 * n + 4 \<longrightarrow>
       (\<exists>k \<le> length ls'. \<exists>s1. shared_run parse a s (take k ls') s1 \<and> sh_rot s1 = AtPoint PLoop \<and>
          CurrentCert (sh_mem s1) = Some (IdCertificate r) \<and> CurrentPodUid (sh_mem s1) = PodUid r))"
proof -
  note inv = reachable_inv [OF assms(1,2)]
  have "loads_left s + phase_rank StPending \<le> 2 * n + 4"
    using loads_left_bound [of s] inv(2) by simp
  then have
    "\<exists>k \<le> length ls'. \<exists>s1. shared_run parse a s (take k ls') s1 \<and> sh_rot s1 = AtPoint PLoop \<and>
      CurrentCert (sh_mem s1) = Some (IdCertificate r) \<and> CurrentPodUid (sh_mem s1) = PodUid r"
    if "shared_run parse a s ls' s'" "length ls' = 2 * n + 4" for ls' s'
    using that by (intro store_completes [OF that(1) inv(1) assms(3)]) simp_all
  with store_enabled [OF inv(1) assms(3)] show ?thesis by blast
qed

section \<open>A concrete run\<close>

text \<open>A call is inside when the goroutine announces its store: it returns the old certificate, then the store goes on.\<close>

definition example_fetching :: rotation where
  "example_fetching = example_state\<lparr>rpc_at := PFetchRotate\<rparr>"

definition example_pending :: shared_state where
  "example_pending =
     \<lparr>sh_mutex = \<lparr>mx_writer = False, mx_pending = True, mx_readers = 1\<rparr>, sh_mem = cm example_state,
      sh_tok = tok example_state, sh_rot = Storing PFetchRotate example_result StPending, sh_loads = [LLocked]\<rparr>"

definition example_store_labels :: "sh_label list" where
  "example_store_labels =
     [LoadReads 0, VLoad 0 (CurrentCert (cm example_state)), Internal, VRot (FetchReturns (Inr example_result)) [],
      Internal, Internal]"

lemma example_pending_run:
  "shared_run example_parse example_args (start_shared example_fetching 1) [LoadLocks 0, Answered example_result, Internal]
     example_pending"
proof -
  let ?s = "start_shared example_fetching 1"
  let ?t = "?s\<lparr>sh_mutex := (sh_mutex ?s)\<lparr>mx_readers := 1\<rparr>, sh_loads := [LLocked]\<rparr>"
  let ?u = "?t\<lparr>sh_rot := Storing PFetchRotate example_result StAnswer\<rparr>"
  have "shared_step example_parse example_args ?s (LoadLocks 0) ?t"
    using shared_step.LoadLock [of 0 ?s "(sh_mutex ?s)\<lparr>mx_readers := 1\<rparr>" example_parse example_args]
    by (simp add: start_shared_def rw_RLock_def)
  moreover have "shared_step example_parse example_args ?t (Answered example_result) ?u"
    by (rule shared_step.Answer) (simp_all add: start_shared_def example_fetching_def)
  moreover have "shared_step example_parse example_args ?u Internal example_pending"
    using shared_step.Announce [of ?u PFetchRotate example_result "sh_mutex example_pending" example_parse example_args]
    by (simp add: start_shared_def rw_announce_def example_pending_def example_fetching_def)
  ultimately show ?thesis by (auto simp: shared_run_Cons)
qed

lemma example_store_run: "\<exists>s. shared_run example_parse example_args example_pending example_store_labels s"
proof -
  let ?s = "example_pending\<lparr>sh_loads := [LLoaded (CurrentCert (cm example_state))]\<rparr>"
  let ?t = "\<lambda>w. example_pending\<lparr>sh_mutex := \<lparr>mx_writer = w, mx_pending = \<not> w, mx_readers = 0\<rparr>, sh_loads := [LIdle]\<rparr>"
  let ?u = "(?t True)\<lparr>sh_rot := Storing PFetchRotate example_result StLocked\<rparr>"
  let ?v = "?u\<lparr>sh_mem := (sh_mem ?u)\<lparr>CurrentCert := Some (IdCertificate example_result)\<rparr>,
    sh_rot := Storing PFetchRotate example_result StCertStored\<rparr>"
  let ?w = "?v\<lparr>sh_mem := (sh_mem ?v)\<lparr>CurrentPodUid := PodUid example_result\<rparr>,
    sh_rot := Storing PFetchRotate example_result StUidStored\<rparr>"
  have "shared_step example_parse example_args example_pending (LoadReads 0) ?s"
    using shared_step.LoadCert [of 0 example_pending example_parse example_args] by (simp add: example_pending_def)
  moreover have "shared_step example_parse example_args ?s (VLoad 0 (CurrentCert (cm example_state))) (?t False)"
    using shared_step.LoadReturn [of 0 ?s "CurrentCert (cm example_state)" "sh_mutex (?t False)" example_parse example_args]
    by (simp add: example_pending_def rw_RUnlock_def)
  moreover have "shared_step example_parse example_args (?t False) Internal ?u"
    using shared_step.Acquire [of "?t False" PFetchRotate example_result "sh_mutex ?u" example_parse example_args]
    by (simp add: example_pending_def rw_acquire_def)
  moreover have "shared_step example_parse example_args ?u (VRot (FetchReturns (Inr example_result)) []) ?v"
    by (rule shared_step.StoreCert) simp
  moreover have "shared_step example_parse example_args ?v Internal ?w"
    by (rule shared_step.StoreUid) simp
  moreover have "\<exists>x. shared_step example_parse example_args ?w Internal x"
    using shared_step.Release [of ?w PFetchRotate example_result _ example_parse example_args]
    by (auto simp: rw_Unlock_def)
  ultimately show ?thesis
    unfolding example_store_labels_def by (meson shared_run.Cons shared_run.Nil)
qed

theorem shared_memory_refines_witness:
  "\<exists>r1. rot_run example_parse example_args example_fetching [] = Some (r1, []) \<and>
     CurrentCert (cm example_state) = GetCurrentCertificate (cm r1)"
proof -
  from example_store_run obtain s where
    "shared_run example_parse example_args (start_shared example_fetching 1)
       ([LoadLocks 0, Answered example_result, Internal] @ example_store_labels) s"
    using example_pending_run shared_run_append by blast
  from shared_memory_refines [OF _ this] show ?thesis
    by (auto simp: example_fetching_def example_state_def GetCurrentCertificate_def)
qed

theorem renewal_not_starved_witness:
  "\<exists>k s1. shared_run example_parse example_args example_pending (take k example_store_labels) s1 \<and>
     sh_rot s1 = AtPoint PLoop \<and> CurrentPodUid (sh_mem s1) = ''u1''"
proof -
  from example_store_run obtain s where run: "shared_run example_parse example_args example_pending example_store_labels s"
    by blast
  have len: "length example_store_labels = 2 * 1 + 4" by (simp add: example_store_labels_def)
  have "rpc_at example_fetching \<noteq> PPanic" "sh_rot example_pending = Storing PFetchRotate example_result StPending"
    by (simp_all add: example_fetching_def example_pending_def)
  from renewal_not_starved [OF this(1) example_pending_run this(2)] run len show ?thesis
    by (fastforce simp: example_result_def)
qed

end
