(* ===== verification/HttpRelay.thy ===== *)
theory HttpRelay
  imports GoNet
begin

text \<open>
  The two HTTP relays of \<open>internal/proxy/proxy.go\<close>, \<open>proxyInboundHTTPRequests\<close> (client over
  mutual TLS to the local application) and \<open>proxyOutboundHTTPRequests\<close> (local application to
  a remote sidecar), with \<open>ExtractIdentity\<close> and \<open>ExtractServerName\<close>. Parsing a request or a
  response from a connection and writing one to it are events of the outside world: their
  outcomes are parameters, what is sent and in which order is the trace.
\<close>

section \<open>Names\<close>

definition ExtractServerName :: "string \<Rightarrow> string" where
  "ExtractServerName addr = (case SplitHostPort addr of Inl err \<Rightarrow> addr | Inr (host, _) \<Rightarrow> host)"

fun first_spiffe :: "string list \<Rightarrow> string option" where
  "first_spiffe [] = None"
| "first_spiffe (san # sans) = (if HasPrefix san ''spiffe://'' then Some san else first_spiffe sans)"

definition ExtractIdentity :: "x509_cert \<Rightarrow> string" where
  "ExtractIdentity cert = (case first_spiffe (DNSNames cert) of Some san \<Rightarrow> san | None \<Rightarrow> CommonName cert)"

lemma first_spiffe_append:
  "\<forall>u \<in> set us. \<not> HasPrefix u ''spiffe://'' \<Longrightarrow> HasPrefix s ''spiffe://'' \<Longrightarrow>
     first_spiffe (us @ s # vs) = Some s"
  by (induction us) auto

lemma first_spiffe_None: "first_spiffe sans = None \<longleftrightarrow> (\<forall>s \<in> set sans. \<not> HasPrefix s ''spiffe://'')"
  by (induction sans) auto

section \<open>Relaying one connection\<close>

record http_response =
  StatusCode :: int
  RespBody :: string
  RespClose :: bool

datatype read_error = EOF | UnexpectedEOF | ReadFailed string

text \<open>The outcomes of the calls of one relay; an error is \<open>Some\<close>.\<close>

record relay_io =
  req_Write :: "http_request \<Rightarrow> string option"
  ReadResponse :: "http_request \<Rightarrow> (read_error, http_response) result"
  resp_Write :: "http_response \<Rightarrow> string option"

datatype relay_event =
    LogInbound string string string
  | LogOutbound string string string
  | LogStatus int
  | LogEOF
  | WriteReq http_request
  | WriteResp http_response
  | CloseBody

datatype relay_error = ReadError read_error | WriteError string

text \<open>
  What a relay does with its connections: the trace, the error it returns, and the requests of
  the client's stream it leaves unread.
\<close>

record relay_run =
  trace :: "relay_event list"
  rerr :: "relay_error option"
  unread :: "(read_error, http_request) result list"

text \<open>\<open>http.ReadRequest\<close> on a stream: the next parse outcome, \<open>EOF\<close> at the end.\<close>

definition ReadRequest ::
  "(read_error, http_request) result list \<Rightarrow>
   (read_error, http_request) result \<times> (read_error, http_request) result list" where
  "ReadRequest reqs = (case reqs of [] \<Rightarrow> (Inl EOF, []) | r # rs \<Rightarrow> (r, rs))"

definition is_eof :: "read_error \<Rightarrow> bool" where
  "is_eof e \<longleftrightarrow> e = EOF \<or> e = UnexpectedEOF"

definition rewrite_req :: "http_request \<Rightarrow> http_request" where
  "rewrite_req req = req\<lparr>RequestURI := [], ReqClose := True\<rparr>"

definition rewrite_resp :: "http_response \<Rightarrow> http_response" where
  "rewrite_resp resp = resp\<lparr>RespClose := True\<rparr>"

definition peer_identity :: "x509_cert list \<Rightarrow> string" where
  "peer_identity peers = (case peers of [] \<Rightarrow> ''unknown'' | cert # _ \<Rightarrow> ExtractIdentity cert)"

text \<open>
  Every branch of the body of the \<open>for\<close> loop returns, so the loop runs once.
\<close>

definition proxyInboundHTTPRequests ::
  "relay_io \<Rightarrow> x509_cert list \<Rightarrow> (read_error, http_request) result list \<Rightarrow> relay_run" where
  "proxyInboundHTTPRequests io peers reqs =
     (let clientIdentity = peer_identity peers in
      case ReadRequest reqs of
        (Inl err, rest) \<Rightarrow>
          if is_eof err then \<lparr>trace = [LogEOF], rerr = None, unread = rest\<rparr>
          else \<lparr>trace = [], rerr = Some (ReadError err), unread = rest\<rparr>
      | (Inr req, rest) \<Rightarrow>
          let log1 = LogInbound clientIdentity (Method req) (URLPath req);
              req' = rewrite_req req
          in case req_Write io req' of
               Some err \<Rightarrow> \<lparr>trace = [log1, WriteReq req'], rerr = Some (WriteError err), unread = rest\<rparr>
             | None \<Rightarrow>
                 (case ReadResponse io req' of
                    Inl err \<Rightarrow>
                      if is_eof err
                      then \<lparr>trace = [log1, WriteReq req', LogEOF], rerr = None, unread = rest\<rparr>
                      else \<lparr>trace = [log1, WriteReq req'], rerr = Some (ReadError err), unread = rest\<rparr>
                  | Inr resp \<Rightarrow>
                      let resp' = rewrite_resp resp
                      in \<lparr>trace = [log1, WriteReq req', LogStatus (StatusCode resp), WriteResp resp', CloseBody],
                          rerr = map_option WriteError (resp_Write io resp'), unread = rest\<rparr>))"

definition proxyOutboundHTTPRequests ::
  "relay_io \<Rightarrow> (read_error, http_request) result list \<Rightarrow> relay_run" where
  "proxyOutboundHTTPRequests io reqs =
     (case ReadRequest reqs of
        (Inl err, rest) \<Rightarrow>
          if is_eof err then \<lparr>trace = [LogEOF], rerr = None, unread = rest\<rparr>
          else \<lparr>trace = [], rerr = Some (ReadError err), unread = rest\<rparr>
      | (Inr req, rest) \<Rightarrow>
          let log1 = LogOutbound (Method req) (URLPath req) (Host req);
              req' = rewrite_req req
          in case req_Write io req' of
               Some err \<Rightarrow> \<lparr>trace = [log1, WriteReq req'], rerr = Some (WriteError err), unread = rest\<rparr>
             | None \<Rightarrow>
                 (case ReadResponse io req' of
                    Inl err \<Rightarrow> \<lparr>trace = [log1, WriteReq req'], rerr = Some (ReadError err), unread = rest\<rparr>
                  | Inr resp \<Rightarrow>
                      let resp' = rewrite_resp resp
                      in \<lparr>trace = [log1, WriteReq req', LogStatus (StatusCode resp), WriteResp resp', CloseBody],
                          rerr = map_option WriteError (resp_Write io resp'), unread = rest\<rparr>))"

lemmas relay_defs = proxyInboundHTTPRequests_def proxyOutboundHTTPRequests_def ReadRequest_def Let_def

section \<open>What a relay may do\<close>

text \<open>The requests and responses of a trace, in order.\<close>

fun sent_reqs :: "relay_event list \<Rightarrow> http_request list" where
  "sent_reqs [] = []"
| "sent_reqs (WriteReq r # es) = r # sent_reqs es"
| "sent_reqs (_ # es) = sent_reqs es"

fun sent_resps :: "relay_event list \<Rightarrow> http_response list" where
  "sent_resps [] = []"
| "sent_resps (WriteResp p # es) = p # sent_resps es"
| "sent_resps (_ # es) = sent_resps es"

text \<open>What a relay does beside logging.\<close>

fun is_log :: "relay_event \<Rightarrow> bool" where
  "is_log (LogInbound _ _ _) = True"
| "is_log (LogOutbound _ _ _) = True"
| "is_log (LogStatus _) = True"
| "is_log LogEOF = True"
| "is_log _ = False"

definition wire :: "relay_run \<Rightarrow> relay_event list" where
  "wire r = filter (Not \<circ> is_log) (trace r)"

text \<open>
  The contract of a relay, over the client's stream: it forwards at most the first request, marked
  to close the connection, answers at most once and with the response to that very request, and
  releases the body of every response it has read.
\<close>

definition one_exchange :: "relay_io \<Rightarrow> (read_error, http_request) result list \<Rightarrow> relay_run \<Rightarrow> bool" where
  "one_exchange io reqs r \<longleftrightarrow>
     unread r = tl reqs \<and>
     sent_reqs (trace r) = (case reqs of Inr req # _ \<Rightarrow> [rewrite_req req] | _ \<Rightarrow> []) \<and>
     sent_resps (trace r) =
       (case sent_reqs (trace r) of
          [req'] \<Rightarrow> (if req_Write io req' = None then
                       (case ReadResponse io req' of Inr resp \<Rightarrow> [rewrite_resp resp] | Inl _ \<Rightarrow> [])
                     else [])
        | _ \<Rightarrow> []) \<and>
     wire r = List.map WriteReq (sent_reqs (trace r)) @ List.map WriteResp (sent_resps (trace r)) @
       (if sent_resps (trace r) = [] then [] else [CloseBody])"

text \<open>The cases of a relay: how reading the request, writing it and reading the response end.\<close>

lemma relay_cases:
  obtains (eof) "reqs = []"
    | (bad) e rest where "reqs = Inl e # rest"
    | (unsent) req rest e where "reqs = Inr req # rest" "req_Write io (rewrite_req req) = Some e"
    | (unanswered) req rest e where "reqs = Inr req # rest" "req_Write io (rewrite_req req) = None"
        "ReadResponse io (rewrite_req req) = Inl e"
    | (answered) req rest resp where "reqs = Inr req # rest" "req_Write io (rewrite_req req) = None"
        "ReadResponse io (rewrite_req req) = Inr resp"
  by (metis list.exhaust old.sum.exhaust option.exhaust)

lemma inbound_one_exchange: "one_exchange io reqs (proxyInboundHTTPRequests io peers reqs)"
  by (rule relay_cases [where reqs = reqs and io = io])
    (auto simp: one_exchange_def wire_def relay_defs is_eof_def)

lemma outbound_one_exchange: "one_exchange io reqs (proxyOutboundHTTPRequests io reqs)"
  by (rule relay_cases [where reqs = reqs and io = io])
    (auto simp: one_exchange_def wire_def relay_defs is_eof_def)

section \<open>Properties\<close>



text \<open>
  The identity the inbound relay logs is that of the certificate presented first: its first
  DNS name that starts with \<open>spiffe://\<close>, whatever names come before it, and its common name when
  there is none.
\<close>

theorem inbound_logs_peer_identity:
  assumes "DNSNames cert = us @ vs" "\<forall>u \<in> set us. \<not> HasPrefix u ''spiffe://''"
    and "(\<exists>ws. vs = s # ws \<and> HasPrefix s ''spiffe://'') \<or> (vs = [] \<and> s = CommonName cert)"
  shows "hd (trace (proxyInboundHTTPRequests io (cert # chain) (Inr req # rest))) =
    LogInbound s (Method req) (URLPath req)"
proof -
  have "ExtractIdentity cert = s"
    using assms by (auto simp: ExtractIdentity_def first_spiffe_append iffD2 [OF first_spiffe_None])
  then show ?thesis
    by (auto simp: relay_defs peer_identity_def split: sum.splits option.splits)
qed

section \<open>A concrete exchange\<close>

definition example_req :: http_request where
  "example_req = \<lparr>Method = ''GET'', RequestURI = ''/cart'', URLPath = ''/cart'', Host = ''cart'',
     RemoteAddr = ''10.0.0.9:4000'', ReqHeader = (\<lambda>_. None), ReqClose = False, ReqTLS = None, ReqCtx = []\<rparr>"

definition example_io :: relay_io where
  "example_io = \<lparr>req_Write = (\<lambda>_. None),
     ReadResponse = (\<lambda>_. Inr \<lparr>StatusCode = 200, RespBody = ''ok'', RespClose = False\<rparr>),
     resp_Write = (\<lambda>_. None)\<rparr>"

theorem inbound_logs_peer_identity_witness:
  "hd (trace (proxyInboundHTTPRequests example_io
     [\<lparr>Raw = [], DNSNames = [''cart'', ''spiffe://td/ns/shop/sa/cart''], CommonName = ''cart'', NotAfter = 0\<rparr>]
     [Inr example_req])) = LogInbound ''spiffe://td/ns/shop/sa/cart'' ''GET'' ''/cart''"
  using inbound_logs_peer_identity [of
      "\<lparr>Raw = [], DNSNames = [''cart'', ''spiffe://td/ns/shop/sa/cart''], CommonName = ''cart'', NotAfter = 0\<rparr>"
      "[''cart'']" "[''spiffe://td/ns/shop/sa/cart'']" "''spiffe://td/ns/shop/sa/cart''" example_io "[]" example_req "[]"]
  by (simp add: HasPrefix_def example_req_def)

end
