(* ===== verification/CopyRelay.thy ===== *)
theory CopyRelay
  imports GoLib "HOL-Library.Sublist"
begin

text \<open>
  \<open>proxyCopy\<close> of \<open>internal/proxy/proxy.go\<close>: two goroutines copy bytes between the connections
  \<open>dst\<close> and \<open>src\<close>, one per direction; each closes its target when its \<open>io.Copy\<close> returns, and
  \<open>proxyCopy\<close> returns when both are through. The model is a step relation over every
  interleaving of the two goroutines and of what the two remote ends do.
\<close>

section \<open>State\<close>

datatype side = Dst | Src
datatype dir = Forward | Backward \<comment> \<open>\<open>io.Copy(dst, src)\<close> and \<open>io.Copy(src, dst)\<close>\<close>

fun source :: "dir \<Rightarrow> side" where
  "source Forward = Src"
| "source Backward = Dst"

fun target :: "dir \<Rightarrow> side" where
  "target Forward = Dst"
| "target Backward = Src"

text \<open>
  One connection, seen from the proxy: \<open>received\<close> are all bytes the remote end has sent so far,
  \<open>inbox\<close> those not read yet, \<open>at_eof\<close> says that the remote end has shut down its sending half,
  \<open>written\<close> are the bytes the proxy has sent, and \<open>is_open\<close> says that the proxy has not closed it.
\<close>

record endpoint =
  received :: string
  inbox :: string
  at_eof :: bool
  written :: string
  is_open :: bool

text \<open>
  A goroutine is in \<open>Read\<close>, holds a chunk it is about to write, is past \<open>io.Copy\<close> (with the reason),
  or is done.
\<close>

datatype copier = Reading | Holding string | Ended bool | Finished bool
  \<comment> \<open>the flag: the copy ended with the end of the stream\<close>

record relay =
  conn :: "side \<Rightarrow> endpoint"
  copier_at :: "dir \<Rightarrow> copier"

definition upd_conn :: "side \<Rightarrow> (endpoint \<Rightarrow> endpoint) \<Rightarrow> relay \<Rightarrow> relay" where
  "upd_conn x f s = s\<lparr>conn := (conn s)(x := f (conn s x))\<rparr>"

definition set_copier :: "dir \<Rightarrow> copier \<Rightarrow> relay \<Rightarrow> relay" where
  "set_copier d c s = s\<lparr>copier_at := (copier_at s)(d := c)\<rparr>"

definition fresh_conn :: endpoint where
  "fresh_conn = \<lparr>received = [], inbox = [], at_eof = False, written = [], is_open = True\<rparr>"

definition start_copy :: relay where
  "start_copy = \<lparr>conn = (\<lambda>_. fresh_conn), copier_at = (\<lambda>_. Reading)\<rparr>"

section \<open>Steps\<close>

text \<open>
  The remote ends send bytes and shut down; a goroutine reads a chunk, writes it, fails in
  either call, meets the end of the stream, or closes its target. Reading from or writing to a
  connection the proxy has closed fails at once; a write may also fail after \<open>k\<close> bytes because
  the remote end is gone.
\<close>

datatype copy_event =
    Arrive side string
  | Shutdown side
  | CopyRead dir nat
  | CopyWrite dir
  | CopyEOF dir
  | ReadFails dir
  | WriteFails dir nat
  | CloseTarget dir

inductive copy_step :: "relay \<Rightarrow> copy_event \<Rightarrow> relay \<Rightarrow> bool" where
  arrive: "\<not> at_eof (conn s x) \<Longrightarrow>
    copy_step s (Arrive x bs) (upd_conn x (\<lambda>c. c\<lparr>received := received c @ bs, inbox := inbox c @ bs\<rparr>) s)"
| shutdown: "copy_step s (Shutdown x) (upd_conn x (\<lambda>c. c\<lparr>at_eof := True\<rparr>) s)"
| reads: "copier_at s d = Reading \<Longrightarrow> is_open (conn s (source d)) \<Longrightarrow> 0 < n \<Longrightarrow> n \<le> length (inbox (conn s (source d))) \<Longrightarrow>
    copy_step s (CopyRead d n)
      (set_copier d (Holding (take n (inbox (conn s (source d)))))
        (upd_conn (source d) (\<lambda>c. c\<lparr>inbox := drop n (inbox c)\<rparr>) s))"
| writes: "copier_at s d = Holding bs \<Longrightarrow> is_open (conn s (target d)) \<Longrightarrow>
    copy_step s (CopyWrite d)
      (set_copier d Reading (upd_conn (target d) (\<lambda>c. c\<lparr>written := written c @ bs\<rparr>) s))"
| eof: "copier_at s d = Reading \<Longrightarrow> is_open (conn s (source d)) \<Longrightarrow> inbox (conn s (source d)) = [] \<Longrightarrow>
    at_eof (conn s (source d)) \<Longrightarrow> copy_step s (CopyEOF d) (set_copier d (Ended True) s)"
| read_fails: "copier_at s d = Reading \<Longrightarrow> copy_step s (ReadFails d) (set_copier d (Ended False) s)"
| write_fails: "copier_at s d = Holding bs \<Longrightarrow> (\<not> is_open (conn s (target d)) \<longrightarrow> k = 0) \<Longrightarrow> k < length bs \<Longrightarrow>
    copy_step s (WriteFails d k)
      (set_copier d (Ended False) (upd_conn (target d) (\<lambda>c. c\<lparr>written := written c @ take k bs\<rparr>) s))"
| closes: "copier_at s d = Ended b \<Longrightarrow>
    copy_step s (CloseTarget d) (set_copier d (Finished b) (upd_conn (target d) (\<lambda>c. c\<lparr>is_open := False\<rparr>) s))"

code_pred (modes: i \<Rightarrow> i \<Rightarrow> o \<Rightarrow> bool) copy_step .

text \<open>Runs, with the list of events.\<close>

inductive copy_run :: "relay \<Rightarrow> copy_event list \<Rightarrow> relay \<Rightarrow> bool" where
  run_nil: "copy_run s [] s"
| run_snoc: "copy_run s es t \<Longrightarrow> copy_step t e u \<Longrightarrow> copy_run s (es @ [e]) u"

text \<open>\<open>wg.Wait\<close> lets \<open>proxyCopy\<close> return when both goroutines are through.\<close>

fun is_finished :: "copier \<Rightarrow> bool" where
  "is_finished (Finished b) = True"
| "is_finished _ = False"

definition copy_returned :: "relay \<Rightarrow> bool" where
  "copy_returned s \<longleftrightarrow> is_finished (copier_at s Forward) \<and> is_finished (copier_at s Backward)"

section \<open>Invariant\<close>

text \<open>
  Direction by direction: while the goroutine copies, what it has written, the chunk it holds and
  what waits in the inbox are together what the remote end has sent. Afterwards what it has
  written is a prefix, and all of it when the copy ended with the end of the stream. A connection
  is closed exactly when the goroutine that writes to it is finished.
\<close>

definition dir_inv :: "relay \<Rightarrow> dir \<Rightarrow> bool" where
  "dir_inv s d \<longleftrightarrow>
     (case copier_at s d of
        Reading \<Rightarrow> received (conn s (source d)) = written (conn s (target d)) @ inbox (conn s (source d))
      | Holding bs \<Rightarrow>
          bs \<noteq> [] \<and> received (conn s (source d)) = written (conn s (target d)) @ bs @ inbox (conn s (source d))
      | Ended b \<Rightarrow> prefix (written (conn s (target d))) (received (conn s (source d))) \<and>
          (b \<longrightarrow> at_eof (conn s (source d)) \<and> written (conn s (target d)) = received (conn s (source d)))
      | Finished b \<Rightarrow> prefix (written (conn s (target d))) (received (conn s (source d))) \<and>
          (b \<longrightarrow> at_eof (conn s (source d)) \<and> written (conn s (target d)) = received (conn s (source d)))) \<and>
     is_open (conn s (target d)) = (\<not> is_finished (copier_at s d))"

definition copy_inv :: "relay \<Rightarrow> bool" where
  "copy_inv s \<longleftrightarrow> dir_inv s Forward \<and> dir_inv s Backward"

lemma copy_inv_start: "copy_inv start_copy"
  by (simp add: copy_inv_def dir_inv_def start_copy_def fresh_conn_def)

lemma all_dirs: "(\<forall>d. P d) \<longleftrightarrow> P Forward \<and> P Backward"
  by (metis dir.exhaust)

lemma copy_inv_step:
  assumes "copy_step s e s'" "copy_inv s"
  shows "copy_inv s'"
  using assms
proof (induction rule: copy_step.induct)
  case (arrive s x bs)
  then show ?case
    by (cases x) (auto simp: copy_inv_def dir_inv_def upd_conn_def split: copier.splits)
next
  case (shutdown s x)
  then show ?case
    by (cases x) (auto simp: copy_inv_def dir_inv_def upd_conn_def split: copier.splits)
next
  case (reads s d n)
  then show ?case
    by (cases d) (auto simp: copy_inv_def dir_inv_def upd_conn_def set_copier_def split: copier.splits)
next
  case (writes s d bs)
  then show ?case
    by (cases d) (auto simp: copy_inv_def dir_inv_def upd_conn_def set_copier_def split: copier.splits)
next
  case (eof s d)
  then show ?case
    by (cases d) (auto simp: copy_inv_def dir_inv_def upd_conn_def set_copier_def split: copier.splits)
next
  case (read_fails s d)
  then show ?case
    by (cases d) (auto simp: copy_inv_def dir_inv_def upd_conn_def set_copier_def split: copier.splits)
next
  case (write_fails s d bs k)
  then have "prefix (take k bs) (bs @ inbox (conn s (source d)))"
    by (simp add: take_is_prefix prefix_prefix)
  with write_fails show ?case
    by (cases d) (auto simp: copy_inv_def dir_inv_def upd_conn_def set_copier_def split: copier.splits)
next
  case (closes s d b)
  then show ?case
    by (cases d) (auto simp: copy_inv_def dir_inv_def upd_conn_def set_copier_def split: copier.splits)
qed

lemma copy_inv_run: "copy_run s es s' \<Longrightarrow> copy_inv s \<Longrightarrow> copy_inv s'"
  by (induction rule: copy_run.induct) (auto intro: copy_inv_step)

section \<open>The steps as a function\<close>

fun apply_event :: "copy_event \<Rightarrow> relay \<Rightarrow> relay" where
  "apply_event (Arrive x bs) s = upd_conn x (\<lambda>c. c\<lparr>received := received c @ bs, inbox := inbox c @ bs\<rparr>) s"
| "apply_event (Shutdown x) s = upd_conn x (\<lambda>c. c\<lparr>at_eof := True\<rparr>) s"
| "apply_event (CopyRead d n) s = set_copier d (Holding (take n (inbox (conn s (source d)))))
     (upd_conn (source d) (\<lambda>c. c\<lparr>inbox := drop n (inbox c)\<rparr>) s)"
| "apply_event (CopyWrite d) s = (case copier_at s d of
     Holding bs \<Rightarrow> set_copier d Reading (upd_conn (target d) (\<lambda>c. c\<lparr>written := written c @ bs\<rparr>) s) | _ \<Rightarrow> s)"
| "apply_event (CopyEOF d) s = set_copier d (Ended True) s"
| "apply_event (ReadFails d) s = set_copier d (Ended False) s"
| "apply_event (WriteFails d k) s = (case copier_at s d of
     Holding bs \<Rightarrow> set_copier d (Ended False)
       (upd_conn (target d) (\<lambda>c. c\<lparr>written := written c @ take k bs\<rparr>) s) | _ \<Rightarrow> s)"
| "apply_event (CloseTarget d) s = (case copier_at s d of
     Ended b \<Rightarrow> set_copier d (Finished b) (upd_conn (target d) (\<lambda>c. c\<lparr>is_open := False\<rparr>) s) | _ \<Rightarrow> s)"

fun event_ok :: "copy_event \<Rightarrow> relay \<Rightarrow> bool" where
  "event_ok (Arrive x bs) s = (\<not> at_eof (conn s x))"
| "event_ok (Shutdown x) s = True"
| "event_ok (CopyRead d n) s = (copier_at s d = Reading \<and> is_open (conn s (source d)) \<and> 0 < n \<and>
     n \<le> length (inbox (conn s (source d))))"
| "event_ok (CopyWrite d) s = ((case copier_at s d of Holding bs \<Rightarrow> True | _ \<Rightarrow> False) \<and> is_open (conn s (target d)))"
| "event_ok (CopyEOF d) s = (copier_at s d = Reading \<and> is_open (conn s (source d)) \<and>
     inbox (conn s (source d)) = [] \<and> at_eof (conn s (source d)))"
| "event_ok (ReadFails d) s = (copier_at s d = Reading)"
| "event_ok (WriteFails d k) s = (case copier_at s d of
     Holding bs \<Rightarrow> (is_open (conn s (target d)) \<or> k = 0) \<and> k < length bs | _ \<Rightarrow> False)"
| "event_ok (CloseTarget d) s = (case copier_at s d of Ended b \<Rightarrow> True | _ \<Rightarrow> False)"

lemma copy_step_iff: "copy_step s e s' \<longleftrightarrow> event_ok e s \<and> s' = apply_event e s"
  by (cases e) (auto elim!: copy_step.cases intro: copy_step.intros split: copier.splits)

section \<open>Progress\<close>

fun other :: "dir \<Rightarrow> dir" where
  "other Forward = Backward"
| "other Backward = Forward"

lemma other_sides [simp]: "source (other d) = target d" "target (other d) = source d" "other d \<noteq> d" "d \<noteq> other d"
  by (cases d; simp)+

lemma source_target [simp]: "source d \<noteq> target d" "target d \<noteq> source d"
  by (cases d; simp)+

lemma dir_cases: "d' = d \<or> d' = other d"
  by (cases d; cases d') auto

text \<open>The events of the two goroutines, as opposed to those of the remote ends.\<close>

fun goroutine :: "copy_event \<Rightarrow> bool" where
  "goroutine (Arrive _ _) = False"
| "goroutine (Shutdown _) = False"
| "goroutine _ = True"

text \<open>How many steps a goroutine takes once it can read no more.\<close>

fun work :: "copier \<Rightarrow> nat" where
  "work (Holding _) = 3"
| "work Reading = 2"
| "work (Ended _) = 1"
| "work (Finished _) = 0"

lemma work_le: "work c \<le> 3"
  by (cases c) auto

lemma work_finished: "work c = 0 \<longleftrightarrow> is_finished c"
  by (cases c) auto

lemma copy_inv_closed: "copy_inv s \<Longrightarrow> is_finished (copier_at s d) \<Longrightarrow> \<not> is_open (conn s (target d))"
  by (cases d) (auto simp: copy_inv_def dir_inv_def)

lemmas copy_frame_defs = upd_conn_def set_copier_def

text \<open>
  One direction is finished: every step of a goroutine is one of the other direction, brings it
  nearer to its end, and only a chunk it already holds can still be written.
\<close>

lemma step_after_finish:
  assumes "copy_step s e s'" "copy_inv s" "is_finished (copier_at s d)"
  shows "is_finished (copier_at s' d) \<and>
    work (copier_at s' (other d)) + (if goroutine e then 1 else 0) \<le> work (copier_at s (other d)) \<and>
    ((\<forall>bs. copier_at s (other d) \<noteq> Holding bs) \<longrightarrow>
       written (conn s' (source d)) = written (conn s (source d)) \<and>
       (\<forall>bs. copier_at s' (other d) \<noteq> Holding bs))"
proof -
  have closed: "\<not> is_open (conn s (target d))"
    using assms(2,3) by (rule copy_inv_closed)
  show ?thesis
  proof (cases e)
    case (CopyRead d' n)
    with assms(1,3) closed dir_cases [of d' d] show ?thesis by (auto simp: copy_step_iff copy_frame_defs)
  next
    case (CopyWrite d')
    with assms(1,3) closed dir_cases [of d' d] show ?thesis
      by (auto simp: copy_step_iff copy_frame_defs split: copier.splits)
  next
    case (CopyEOF d')
    with assms(1,3) dir_cases [of d' d] show ?thesis by (auto simp: copy_step_iff copy_frame_defs)
  next
    case (ReadFails d')
    with assms(1,3) dir_cases [of d' d] show ?thesis by (auto simp: copy_step_iff copy_frame_defs)
  next
    case (WriteFails d' k)
    with assms(1,3) dir_cases [of d' d] show ?thesis
      by (auto simp: copy_step_iff copy_frame_defs split: copier.splits)
  next
    case (CloseTarget d')
    with assms(1,3) dir_cases [of d' d] show ?thesis
      by (auto simp: copy_step_iff copy_frame_defs split: copier.splits)
  qed (use assms(1,3) in \<open>auto simp: copy_step_iff copy_frame_defs\<close>)
qed

lemma run_after_finish:
  assumes "copy_run s es s'"
  shows "copy_inv s \<Longrightarrow> is_finished (copier_at s d) \<Longrightarrow>
    is_finished (copier_at s' d) \<and>
    work (copier_at s' (other d)) + length (filter goroutine es) \<le> work (copier_at s (other d)) \<and>
    ((\<forall>bs. copier_at s (other d) \<noteq> Holding bs) \<longrightarrow>
       written (conn s' (source d)) = written (conn s (source d)) \<and>
       (\<forall>bs. copier_at s' (other d) \<noteq> Holding bs))"
  using assms
proof (induction rule: copy_run.induct)
  case (run_nil s)
  then show ?case by simp
next
  case (run_snoc s es t e u)
  then have IH: "is_finished (copier_at t d)"
    "work (copier_at t (other d)) + length (filter goroutine es) \<le> work (copier_at s (other d))"
    "(\<forall>bs. copier_at s (other d) \<noteq> Holding bs) \<longrightarrow>
       written (conn t (source d)) = written (conn s (source d)) \<and>
       (\<forall>bs. copier_at t (other d) \<noteq> Holding bs)" by simp_all
  have "copy_inv t" using run_snoc.hyps(1) run_snoc.prems(1) by (rule copy_inv_run)
  from step_after_finish [OF run_snoc.hyps(2) this IH(1)] IH show ?case
    by (auto split: if_splits)
qed

lemma goroutine_enabled:
  assumes "copy_inv s" "\<not> is_finished (copier_at s d)"
  shows "\<exists>e s'. goroutine e \<and> copy_step s e s'"
proof (cases "copier_at s d")
  case Reading
  then show ?thesis by (meson copy_step.read_fails goroutine.simps(6))
next
  case (Holding bs)
  with assms(1) have "bs \<noteq> []" by (cases d) (auto simp: copy_inv_def dir_inv_def)
  with Holding show ?thesis
    by (meson copy_step.write_fails goroutine.simps(7) length_greater_0_conv)
next
  case (Ended b)
  then show ?thesis by (meson copy_step.closes goroutine.simps(8))
next
  case (Finished b)
  with assms(2) show ?thesis by simp
qed

section \<open>Properties\<close>

text \<open>
  C15: Copying is faithful in both directions under every interleaving of the goroutines, the
  remote ends and failures: what the proxy has written to one connection is at every moment a
  prefix of what the other one's remote end has sent, it is all of it when the direction ended
  with the end of the stream, and when \<open>proxyCopy\<close> returns both connections are closed.
\<close>

theorem copy_faithful:
  assumes "copy_run start_copy es s"
  shows "prefix (written (conn s (target d))) (received (conn s (source d))) \<and>
    (copier_at s d = Finished True \<longrightarrow> written (conn s (target d)) = received (conn s (source d))) \<and>
    (copy_returned s \<longrightarrow> \<not> is_open (conn s Dst) \<and> \<not> is_open (conn s Src))"
proof -
  have inv: "copy_inv s" using assms copy_inv_start by (rule copy_inv_run)
  then have "dir_inv s d" by (cases d) (auto simp: copy_inv_def)
  then have "prefix (written (conn s (target d))) (received (conn s (source d)))"
    "copier_at s d = Finished True \<longrightarrow> written (conn s (target d)) = received (conn s (source d))"
    by (auto simp: dir_inv_def prefix_def split: copier.splits)
  moreover have "\<not> is_open (conn s Dst) \<and> \<not> is_open (conn s Src)" if "copy_returned s"
    using that copy_inv_closed [OF inv, of Forward] copy_inv_closed [OF inv, of Backward]
    by (simp add: copy_returned_def)
  ultimately show ?thesis by blast
qed

text \<open>
  \<open>proxyCopy\<close> returns soon after one direction is through, however the remote ends go on:
  the goroutines take at most three more steps together in every run, and as long as it has
  not returned one of them can take a step.
\<close>

theorem copy_returns:
  assumes "copy_run start_copy es s" "is_finished (copier_at s d)" "copy_run s es' s'"
  shows "length (filter goroutine es') \<le> 3 \<and>
    (\<not> copy_returned s' \<longrightarrow> (\<exists>e s''. goroutine e \<and> copy_step s' e s''))"
proof -
  have inv: "copy_inv s" using assms(1) copy_inv_start by (rule copy_inv_run)
  note after = run_after_finish [OF assms(3) inv assms(2)]
  have "copy_inv s'" using assms(3) inv by (rule copy_inv_run)
  moreover have "\<not> is_finished (copier_at s' (other d))" if "\<not> copy_returned s'"
    using that after by (cases d) (auto simp: copy_returned_def)
  ultimately show ?thesis
    using after work_le [of "copier_at s (other d)"] goroutine_enabled [of s' "other d"] by auto
qed

text \<open>
  A half-closed stream is cut: once one direction has finished (the client has sent its
  request and shut down its sending half, say), the other direction delivers nothing that is not
  already in the hands of its goroutine, so a reply that is still under way is lost.
\<close>

theorem half_close_cuts_reply:
  assumes "copy_run start_copy es s" "is_finished (copier_at s d)"
    and "\<forall>bs. copier_at s (other d) \<noteq> Holding bs" "copy_run s es' s'"
  shows "written (conn s' (source d)) = written (conn s (source d))"
  using run_after_finish [OF assms(4) copy_inv_run [OF assms(1) copy_inv_start] assms(2)] assms(3) by blast

section \<open>A concrete run\<close>

text \<open>
  The client (\<open>Src\<close>) sends a request and shuts down its sending half; the request is forwarded, the
  forward direction closes \<open>Dst\<close>, and the reply that has arrived there is never read.
\<close>

fun run_events :: "relay \<Rightarrow> copy_event list \<Rightarrow> relay option" where
  "run_events s [] = Some s"
| "run_events s (e # es) = (if event_ok e s then run_events (apply_event e s) es else None)"

lemma copy_run_Cons: "copy_run t es u \<Longrightarrow> copy_step s e t \<Longrightarrow> copy_run s (e # es) u"
  by (induction rule: copy_run.induct)
    (use copy_run.run_nil copy_run.run_snoc in \<open>fastforce+\<close>)

lemma run_events_copy_run: "run_events s es = Some s' \<Longrightarrow> copy_run s es s'"
proof (induction es arbitrary: s)
  case Nil
  then show ?case by (simp add: copy_run.run_nil)
next
  case (Cons e es)
  then have "event_ok e s" "copy_run (apply_event e s) es s'"
    by (auto split: if_splits)
  then show ?case by (intro copy_run_Cons) (simp_all add: copy_step_iff)
qed

definition example_request :: "copy_event list" where
  "example_request =
     [Arrive Src ''GET'', Shutdown Src, CopyRead Forward 3, CopyWrite Forward, Arrive Dst ''OK'',
      CopyEOF Forward, CloseTarget Forward]"

definition example_cut :: relay where
  "example_cut = the (run_events start_copy example_request)"

definition example_end :: relay where
  "example_end = the (run_events example_cut [ReadFails Backward, CloseTarget Backward])"

lemmas example_defs = example_request_def start_copy_def fresh_conn_def upd_conn_def set_copier_def

lemma example_cut_run: "run_events start_copy example_request = Some example_cut"
  by (simp add: example_cut_def example_defs)

lemma example_end_run: "run_events example_cut [ReadFails Backward, CloseTarget Backward] = Some example_end"
  by (simp add: example_end_def example_cut_def example_defs)

lemma example_cut_state:
  "copier_at example_cut Forward = Finished True" "copier_at example_cut Backward = Reading"
  "received (conn example_cut Dst) = ''OK''" "received (conn example_cut Src) = ''GET''"
  "written (conn example_cut Src) = []"
  by (simp_all add: example_cut_def example_defs)

lemma copy_faithful_witness: "written (conn example_cut Dst) = ''GET''"
  using copy_faithful [OF run_events_copy_run [OF example_cut_run], of Forward] example_cut_state by simp

lemma copy_returns_witness:
  "\<exists>e s. goroutine e \<and> copy_step example_cut e s"
  using copy_returns [OF run_events_copy_run [OF example_cut_run], of Forward "[]" example_cut]
    example_cut_state by (auto simp: copy_returned_def intro: copy_run.run_nil)

lemma half_close_cuts_reply_witness:
  "received (conn example_cut Dst) = ''OK'' \<and> written (conn example_end Src) = []"
  using half_close_cuts_reply [OF run_events_copy_run [OF example_cut_run], of Forward
      "[ReadFails Backward, CloseTarget Backward]" example_end]
    example_cut_state run_events_copy_run [OF example_end_run] by simp

end
