(* ===== verification/GoUrl.thy ===== *)
theory GoUrl
  imports GoNet
begin

text \<open>
  \<open>url.Parse\<close> of Go's \<open>net/url\<close>, which \<open>proxy.go\<close> applies to the target URL: scheme, opaque part,
  host, path and query. The host between square brackets (an IPv6 literal) is parsed by a parameter.
  The lemmas say what becomes of the usual forms of a target URL.
\<close>

section \<open>Escapes\<close>

definition hex_val :: "char \<Rightarrow> nat option" where
  "hex_val c =
     (if is_digit c then Some (digit_val c)
      else if (97::nat) \<le> of_char c \<and> of_char c \<le> (102::nat) then Some (of_char c - 87)
      else if (65::nat) \<le> of_char c \<and> of_char c \<le> (70::nat) then Some (of_char c - 55)
      else None)"

text \<open>
  \<open>unescape\<close>: each \<open>%xx\<close> is the byte it names; \<open>escape_ok\<close> says which of these bytes the mode
  allows and \<open>plain_ok\<close> which other bytes. \<open>None\<close> is the error.
\<close>

function unescape_with :: "(nat \<Rightarrow> bool) \<Rightarrow> (char \<Rightarrow> bool) \<Rightarrow> string \<Rightarrow> string option" where
  "unescape_with escape_ok plain_ok s =
     (case s of
        [] \<Rightarrow> Some []
      | c # cs \<Rightarrow>
          if c \<noteq> CHR ''%''
          then (if plain_ok c then map_option ((#) c) (unescape_with escape_ok plain_ok cs) else None)
          else (case cs of
                  a # b # rest \<Rightarrow>
                    (case (hex_val a, hex_val b) of
                       (Some x, Some y) \<Rightarrow>
                         if escape_ok (16 * x + y)
                         then map_option ((#) (char_of (16 * x + y))) (unescape_with escape_ok plain_ok rest)
                         else None
                     | _ \<Rightarrow> None)
                | _ \<Rightarrow> None))"
  by pat_completeness auto
termination
  by (relation "measure (\<lambda>(e, p, s). length s)") auto

declare unescape_with.simps [simp del]

text \<open>\<open>url.PathUnescape\<close>, and the modes for paths, fragments and user information.\<close>

definition PathUnescape :: "string \<Rightarrow> string option" where
  "PathUnescape = unescape_with (\<lambda>_. True) (\<lambda>_. True)"

text \<open>
  A host may hold the escapes of non-ASCII bytes and of the percent sign; other bytes are non-ASCII
  or one of the characters \<open>shouldEscape\<close> leaves alone.
\<close>

definition alnum :: "char \<Rightarrow> bool" where
  "alnum c \<longleftrightarrow> is_digit c \<or> is_upper c \<or> is_lower c"

definition host_char :: "char \<Rightarrow> bool" where
  "host_char c \<longleftrightarrow> (128::nat) \<le> of_char c \<or> alnum c \<or> c \<in> set ''-_.~!$&'' \<or> c = CHR 0x27 \<or>
     c \<in> set ''()*+,;=:[]<>'' \<or> c = CHR 0x22"

definition host_unescape :: "string \<Rightarrow> string option" where
  "host_unescape = unescape_with (\<lambda>n. 128 \<le> n \<or> n = 37) host_char"

section \<open>Parse\<close>

record url =
  url_Scheme :: string
  url_Opaque :: string
  url_host :: string
  url_Path :: string
  url_RawQuery :: string

text \<open>\<open>getScheme\<close>; \<open>acc\<close> is what has been read of the scheme.\<close>

fun getScheme :: "string \<Rightarrow> string \<Rightarrow> string \<Rightarrow> (string, string \<times> string) result" where
  "getScheme raw acc [] = Inr ([], raw)"
| "getScheme raw acc (c # cs) =
     (if is_upper c \<or> is_lower c then getScheme raw (acc @ [c]) cs
      else if is_digit c \<or> c \<in> set ''+-.'' then (if acc = [] then Inr ([], raw) else getScheme raw (acc @ [c]) cs)
      else if c = CHR '':'' then (if acc = [] then Inl ''missing protocol scheme'' else Inr (acc, cs))
      else Inr ([], raw))"

definition validOptionalPort :: "string \<Rightarrow> bool" where
  "validOptionalPort port \<longleftrightarrow> (case port of [] \<Rightarrow> True | c # ds \<Rightarrow> c = CHR '':'' \<and> list_all is_digit ds)"

definition parseHost :: "(string \<Rightarrow> (string, string) result) \<Rightarrow> string \<Rightarrow> (string, string) result" where
  "parseHost ip_literal h =
     (if CHR ''['' \<in> set h then ip_literal h
      else if (case last_index_byte CHR '':'' h of None \<Rightarrow> False | Some i \<Rightarrow> \<not> validOptionalPort (drop i h))
      then Inl ''invalid port after host''
      else (case host_unescape h of None \<Rightarrow> Inl ''invalid host'' | Some h' \<Rightarrow> Inr h'))"

definition validUserinfo :: "string \<Rightarrow> bool" where
  "validUserinfo s \<longleftrightarrow> list_all (\<lambda>c. alnum c \<or> c \<in> set ''-._:~!$&()*+,;=%@'' \<or> c = CHR 0x27) s"

definition parseAuthority :: "(string \<Rightarrow> (string, string) result) \<Rightarrow> string \<Rightarrow> (string, string) result" where
  "parseAuthority ip_literal authority =
     (case last_index_byte CHR ''@'' authority of
        None \<Rightarrow> parseHost ip_literal authority
      | Some i \<Rightarrow>
          (case parseHost ip_literal (drop (i + 1) authority) of
             Inl err \<Rightarrow> Inl err
           | Inr h \<Rightarrow>
               if \<not> validUserinfo (take i authority) then Inl ''net/url: invalid userinfo''
               else if PathUnescape (take i authority) = None then Inl ''invalid URL escape''
               else Inr h))"

definition setPath :: "url \<Rightarrow> string \<Rightarrow> (string, url) result" where
  "setPath u p = (case PathUnescape p of None \<Rightarrow> Inl ''invalid URL escape'' | Some p' \<Rightarrow> Inr (u\<lparr>url_Path := p'\<rparr>))"

definition ctl_byte :: "char \<Rightarrow> bool" where
  "ctl_byte c \<longleftrightarrow> of_char c < (32::nat) \<or> of_char c = (127::nat)"

definition url_parse :: "(string \<Rightarrow> (string, string) result) \<Rightarrow> string \<Rightarrow> (string, url) result" where
  "url_parse ip_literal raw =
     (let empty = \<lparr>url_Scheme = [], url_Opaque = [], url_host = [], url_Path = [], url_RawQuery = []\<rparr> in
      if list_ex ctl_byte raw then Inl ''net/url: invalid control character in URL''
      else if raw = ''*'' then Inr (empty\<lparr>url_Path := ''*''\<rparr>)
      else (case getScheme raw [] raw of
          Inl err \<Rightarrow> Inl err
        | Inr (scheme, rest0) \<Rightarrow>
            let rest = takeWhile (\<lambda>c. c \<noteq> CHR ''?'') rest0;
                u = empty\<lparr>url_Scheme := List.map lower_char scheme,
                          url_RawQuery := tl (dropWhile (\<lambda>c. c \<noteq> CHR ''?'') rest0)\<rparr>
            in if \<not> HasPrefix rest ''/'' \<and> scheme \<noteq> [] then Inr (u\<lparr>url_Opaque := rest\<rparr>)
               else if \<not> HasPrefix rest ''/'' \<and> CHR '':'' \<in> set (takeWhile (\<lambda>c. c \<noteq> CHR ''/'') rest)
               then Inl ''first path segment in URL cannot contain colon''
               else if (scheme \<noteq> [] \<or> \<not> HasPrefix rest ''///'') \<and> HasPrefix rest ''//'' then
                 (let authority = takeWhile (\<lambda>c. c \<noteq> CHR ''/'') (drop 2 rest);
                      path = dropWhile (\<lambda>c. c \<noteq> CHR ''/'') (drop 2 rest)
                  in case parseAuthority ip_literal authority of
                       Inl err \<Rightarrow> Inl err
                     | Inr h \<Rightarrow> setPath (u\<lparr>url_host := h\<rparr>) path)
               else setPath u rest))"

definition url_Parse :: "(string \<Rightarrow> (string, string) result) \<Rightarrow> string \<Rightarrow> (string, url) result" where
  "url_Parse ip_literal rawURL =
     (let u = takeWhile (\<lambda>c. c \<noteq> CHR ''#'') rawURL; frag = tl (dropWhile (\<lambda>c. c \<noteq> CHR ''#'') rawURL) in
      case url_parse ip_literal u of
        Inl err \<Rightarrow> Inl err
      | Inr r \<Rightarrow> if PathUnescape frag = None then Inl ''invalid URL escape'' else Inr r)"

section \<open>Lemmas\<close>

lemma unescape_Nil [simp]: "unescape_with e p [] = Some []"
  by (simp add: unescape_with.simps)

lemma unescape_plain:
  "list_all p s \<Longrightarrow> CHR ''%'' \<notin> set s \<Longrightarrow> unescape_with e p s = Some s"
proof (induction s)
  case (Cons c s)
  then have "c \<noteq> CHR ''%''" by auto
  with Cons show ?case by (simp add: unescape_with.simps [of e p "c # s"])
qed simp

lemma PathUnescape_plain [simp]: "CHR ''%'' \<notin> set s \<Longrightarrow> PathUnescape s = Some s"
  by (simp add: PathUnescape_def unescape_plain list_all_iff)

lemma PathUnescape_Nil [simp]: "PathUnescape [] = Some []"
  by simp

text \<open>A scheme, a host name, a port.\<close>

definition scheme_char :: "char \<Rightarrow> bool" where
  "scheme_char c \<longleftrightarrow> is_upper c \<or> is_lower c \<or> is_digit c \<or> c \<in> set ''+-.''"

definition scheme_text :: "string \<Rightarrow> bool" where
  "scheme_text s \<longleftrightarrow> (case s of [] \<Rightarrow> False | c # cs \<Rightarrow> (is_upper c \<or> is_lower c) \<and> list_all scheme_char cs)"

definition name_char :: "char \<Rightarrow> bool" where
  "name_char c \<longleftrightarrow> alnum c \<or> c \<in> set ''-._~''"

definition path_text :: "string \<Rightarrow> bool" where
  "path_text s \<longleftrightarrow> s = [] \<or> (hd s = CHR ''/'' \<and> list_all (\<lambda>c. \<not> ctl_byte c \<and> c \<notin> set ''?#%'') s)"

lemma getScheme_colon:
  "acc \<noteq> [] \<or> scheme_text s \<Longrightarrow> list_all scheme_char s \<Longrightarrow> getScheme raw acc (s @ CHR '':'' # rest) = Inr (acc @ s, rest)"
proof (induction s arbitrary: acc)
  case Nil
  then show ?case by (simp add: is_upper_def is_lower_def is_digit_def scheme_text_def)
next
  case (Cons c s)
  then show ?case by (auto simp: scheme_char_def scheme_text_def)
qed

lemma HasPrefix_Cons: "HasPrefix (c # s) (d # p) \<longleftrightarrow> c = d \<and> HasPrefix s p"
  by (auto simp: HasPrefix_def)

lemma HasPrefix_Nil [simp]: "HasPrefix s []" "HasPrefix [] (d # p) = False"
  by (simp_all add: HasPrefix_def)

lemma last_index_byte_None: "c \<notin> set s \<Longrightarrow> last_index_byte c s = None"
  by (simp add: last_index_byte_def)

text \<open>The characters with a meaning of their own belong to none of these.\<close>

lemma special_chars [simp]:
  "\<not> scheme_char CHR ''#''" "\<not> scheme_char CHR ''?''" "\<not> scheme_char CHR '':''"
  "\<not> name_char CHR ''#''" "\<not> name_char CHR ''?''" "\<not> name_char CHR '':''" "\<not> name_char CHR ''/''"
  "\<not> name_char CHR ''@''" "\<not> name_char CHR ''[''" "\<not> name_char CHR ''%''"
  "\<not> is_digit CHR ''#''" "\<not> is_digit CHR ''?''" "\<not> is_digit CHR '':''" "\<not> is_digit CHR ''/''"
  "\<not> is_digit CHR ''@''" "\<not> is_digit CHR ''[''" "\<not> is_digit CHR ''%''"
  by (simp_all add: scheme_char_def name_char_def alnum_def is_upper_def is_lower_def is_digit_def)

lemma not_in_all: "list_all P s \<Longrightarrow> \<not> P c \<Longrightarrow> c \<notin> set s"
  by (auto simp: list_all_iff)

lemma no_ctl:
  "scheme_char c \<Longrightarrow> \<not> ctl_byte c" "name_char c \<Longrightarrow> \<not> ctl_byte c" "is_digit c \<Longrightarrow> \<not> ctl_byte c"
  by (auto simp: scheme_char_def name_char_def alnum_def ctl_byte_def is_upper_def is_lower_def is_digit_def)

lemma no_ctl_all:
  "list_all scheme_char s \<Longrightarrow> \<not> list_ex ctl_byte s" "list_all name_char s \<Longrightarrow> \<not> list_ex ctl_byte s"
  "list_all is_digit s \<Longrightarrow> \<not> list_ex ctl_byte s"
  by (auto simp: list_all_iff list_ex_iff no_ctl)

lemma host_chars: "name_char c \<Longrightarrow> host_char c" "is_digit c \<Longrightarrow> host_char c"
  by (auto simp: name_char_def host_char_def alnum_def)

lemma ctl_colon [simp]: "\<not> ctl_byte CHR '':''" "\<not> ctl_byte CHR ''/''"
  by (simp_all add: ctl_byte_def)

lemma takeWhile_all: "(\<And>c. c \<in> set s \<Longrightarrow> P c) \<Longrightarrow> takeWhile P s = s"
  by simp

lemma url_Parse_no_fragment:
  assumes "CHR ''#'' \<notin> set s"
  shows "url_Parse ip_literal s = url_parse ip_literal s"
proof -
  have "takeWhile (\<lambda>c. c \<noteq> CHR ''#'') s = s" "dropWhile (\<lambda>c. c \<noteq> CHR ''#'') s = []"
    using assms by auto
  then show ?thesis
    unfolding url_Parse_def Let_def by (simp only: list.sel PathUnescape_Nil) (simp split: sum.split)
qed

text \<open>The host of an authority without user information.\<close>

lemma parseHost_name_port:
  assumes "list_all name_char h" "list_all is_digit port"
  shows "parseHost ip_literal (h @ CHR '':'' # port) = Inr (h @ CHR '':'' # port)"
proof -
  have "CHR '':'' \<notin> set port" "CHR ''['' \<notin> set (h @ CHR '':'' # port)" "CHR ''%'' \<notin> set (h @ CHR '':'' # port)"
    using assms by (simp_all add: not_in_all)
  moreover have "list_all host_char (h @ CHR '':'' # port)"
    using assms host_chars by (auto simp: list_all_iff) (simp add: host_char_def)
  ultimately show ?thesis
    using assms(2)
    by (simp add: parseHost_def last_index_byte_append validOptionalPort_def host_unescape_def unescape_plain)
qed

text \<open>The usual form of a target: scheme, host name, port and a path without escapes.\<close>

definition target_text :: "string \<Rightarrow> string \<Rightarrow> string \<Rightarrow> string \<Rightarrow> string" where
  "target_text scheme h port path = scheme @ ''://'' @ h @ CHR '':'' # port @ path"

definition target_parts :: "string \<Rightarrow> string \<Rightarrow> string \<Rightarrow> string \<Rightarrow> bool" where
  "target_parts scheme h port path \<longleftrightarrow> scheme_text scheme \<and> list_all name_char h \<and> list_all is_digit port \<and> path_text path"

lemma url_Parse_target:
  assumes "target_parts scheme h port path"
  shows "url_Parse ip_literal (target_text scheme h port path) =
    Inr \<lparr>url_Scheme = List.map lower_char scheme, url_Opaque = [], url_host = h @ CHR '':'' # port,
      url_Path = path, url_RawQuery = []\<rparr>"
proof -
  let ?auth = "h @ CHR '':'' # port"
  have parts: "scheme_text scheme" "list_all name_char h" "list_all is_digit port" "path_text path"
    using assms by (simp_all add: target_parts_def)
  have scheme: "list_all scheme_char scheme" "scheme \<noteq> []"
    using parts(1) by (auto simp: scheme_text_def scheme_char_def list_all_iff split: list.splits)
  have path: "\<not> list_ex ctl_byte path" "CHR ''#'' \<notin> set path" "CHR ''?'' \<notin> set path" "CHR ''%'' \<notin> set path"
    using parts(4) by (auto simp: path_text_def list_all_iff list_ex_iff)
  have auth: "\<not> list_ex ctl_byte ?auth" "CHR ''#'' \<notin> set ?auth" "CHR ''?'' \<notin> set ?auth" "CHR ''/'' \<notin> set ?auth"
      "CHR ''@'' \<notin> set ?auth"
    using parts(2,3) by (simp_all add: not_in_all no_ctl_all)
  have sch: "\<not> list_ex ctl_byte scheme" "CHR ''#'' \<notin> set scheme"
    using scheme(1) by (simp_all add: not_in_all no_ctl_all)
  have raw: "target_text scheme h port path = scheme @ CHR '':'' # (''//'' @ ?auth @ path)"
    by (simp add: target_text_def)
  have noctl: "\<not> list_ex ctl_byte (target_text scheme h port path)"
    using sch(1) auth(1) path(1) by (simp add: target_text_def)
  have nofrag: "CHR ''#'' \<notin> set (target_text scheme h port path)"
    using sch(2) auth(2) path(2) by (auto simp: target_text_def)
  have star: "target_text scheme h port path \<noteq> ''*''"
    using scheme(2) by (cases scheme) (auto simp: target_text_def)
  have get: "getScheme (target_text scheme h port path) [] (target_text scheme h port path) =
      Inr (scheme, ''//'' @ ?auth @ path)"
    using getScheme_colon [of "[]" scheme _ "''//'' @ ?auth @ path"] parts(1) scheme(1) unfolding raw by simp
  have query: "takeWhile (\<lambda>c. c \<noteq> CHR ''?'') (''//'' @ ?auth @ path) = ''//'' @ ?auth @ path"
    "dropWhile (\<lambda>c. c \<noteq> CHR ''?'') (''//'' @ ?auth @ path) = []"
    using auth(3) path(3) by auto
  have split: "takeWhile (\<lambda>c. c \<noteq> CHR ''/'') (?auth @ path) = ?auth" "dropWhile (\<lambda>c. c \<noteq> CHR ''/'') (?auth @ path) = path"
    using auth(4) parts(4) by (cases path; auto simp: path_text_def takeWhile_append dropWhile_append)+
  have "parseAuthority ip_literal ?auth = Inr ?auth"
    using parseHost_name_port [OF parts(2,3)] last_index_byte_None [OF auth(5)] by (simp add: parseAuthority_def)
  then have "url_parse ip_literal (target_text scheme h port path) =
    Inr \<lparr>url_Scheme = List.map lower_char scheme, url_Opaque = [], url_host = ?auth, url_Path = path, url_RawQuery = []\<rparr>"
    unfolding url_parse_def Let_def get sum.case prod.case query
    using noctl star scheme(2) split path(4) by (simp add: HasPrefix_Cons setPath_def)
  then show ?thesis by (simp only: url_Parse_no_fragment [OF nofrag])
qed

text \<open>A target without a scheme: its host name is taken for the scheme, and the host is empty.\<close>

lemma url_Parse_no_scheme:
  assumes "scheme_text h" "list_all is_digit port"
  shows "url_Parse ip_literal (h @ CHR '':'' # port) =
    Inr \<lparr>url_Scheme = List.map lower_char h, url_Opaque = port, url_host = [], url_Path = [], url_RawQuery = []\<rparr>"
proof -
  let ?t = "h @ CHR '':'' # port"
  have h: "list_all scheme_char h" "h \<noteq> []"
    using assms(1) by (auto simp: scheme_text_def scheme_char_def list_all_iff split: list.splits)
  have plain: "\<not> list_ex ctl_byte ?t" "CHR ''#'' \<notin> set ?t" "CHR ''?'' \<notin> set port" "CHR ''/'' \<notin> set port"
    using h(1) assms(2) by (simp_all add: not_in_all no_ctl_all)
  have star: "?t \<noteq> ''*''" using h(2) by (cases h) auto
  have get: "getScheme ?t [] ?t = Inr (h, port)" using getScheme_colon [of "[]" h] assms(1) h(1) by simp
  have port: "takeWhile (\<lambda>c. c \<noteq> CHR ''?'') port = port" "dropWhile (\<lambda>c. c \<noteq> CHR ''?'') port = []" "\<not> HasPrefix port ''/''"
    using plain(3) plain(4) by (auto intro!: takeWhile_all) (cases port; auto simp: HasPrefix_Cons)
  show ?thesis
    unfolding url_Parse_no_fragment [OF plain(2)] url_parse_def Let_def get sum.case prod.case port(1,2)
    using plain(1) star port(3) h(2) by simp
qed

end
