(* ===== verification/Proxy.thy ===== *)
theory Proxy
  imports CertManager HttpRelay Config GoUrl
begin

text \<open>
  The connection handlers of \<open>internal/proxy/proxy.go\<close>: what the proxy does with one accepted
  connection, as the list of its network actions up to the last deferred close. The outcomes of
  dialling, the other side's TLS stack and chain verification are
  parameters (\<open>net_world\<close>); the log lines are in \<open>ProxyLog\<close>.
\<close>

section \<open>The proxy and its surroundings\<close>

record Proxy =
  p_cfg :: ProxyConfig
  p_certManager :: CertManager
  p_caCertPool :: cert_pool

text \<open>
  The dynamic type of a \<open>net.Conn\<close>: \<open>*tls.Conn\<close> (with the listener's configuration and the remote
  end), \<open>*net.TCPConn\<close> (with its file and socket option), or another one.
\<close>

datatype net_conn =
    TLSConn tls_config tls_peer
  | TCPConn "(string, int) result" "int \<Rightarrow> int \<Rightarrow> (string, bytes) result"
  | OtherConn

text \<open>
  \<open>ip_literal\<close> is the part of \<open>url.Parse\<close> that reads a host in brackets; \<open>app_dial\<close> says whether a plain dial
  succeeds; \<open>tls_server\<close> is the TLS server behind an address, if there is one; the two
  \<open>verify\<close> functions are chain verification for clients and for a named server; the last two
  are the outcomes of the HTTP relays on this connection.
\<close>

record net_world =
  ip_literal :: "string \<Rightarrow> (string, string) result"
  app_dial :: "string \<Rightarrow> bool"
  tls_server :: "string \<Rightarrow> tls_peer option"
  verify_client :: "cert_pool \<Rightarrow> x509_cert list \<Rightarrow> bool"
  verify_server :: "cert_pool \<Rightarrow> string \<Rightarrow> x509_cert list \<Rightarrow> bool"
  relay_outcomes :: relay_io
  client_stream :: "(read_error, http_request) result list"

text \<open>\<open>url.Parse\<close>, of which the handlers use the field \<open>Host\<close>.\<close>

definition url_Host :: "net_world \<Rightarrow> string \<Rightarrow> (string, string) result" where
  "url_Host w rawURL = (case url_Parse (ip_literal w) rawURL of Inl err \<Rightarrow> Inl err | Inr u \<Rightarrow> Inr (url_host u))"

datatype party = Client | Upstream

datatype net_action =
    Handshake bool
  | DialTCP string bool
  | DialTLS string tls_config bool
  | RelayInbound relay_run
  | RelayOutbound relay_run
  | ProxyCopy party party string
  | Close party
  | NilDereference

section \<open>TLS configurations\<close>

definition GetInboundTLSConfig :: "Proxy \<Rightarrow> tls_config" where
  "GetInboundTLSConfig p = zero_tls_config\<lparr>
     GetCertificate := True,
     ClientCAs := p_caCertPool p,
     ClientAuth := RequireAndVerifyClientCert,
     MinVersion := VersionTLS13\<rparr>"

definition getOutboundTLSConfig :: "Proxy \<Rightarrow> string \<Rightarrow> tls_config" where
  "getOutboundTLSConfig p serverName = zero_tls_config\<lparr>
     GetCertificate := True,
     RootCAs := p_caCertPool p,
     TLSServerName := serverName,
     MinVersion := VersionTLS13\<rparr>"

text \<open>The literal the three outbound paths repeat.\<close>

definition outbound_literal :: "Proxy \<Rightarrow> tls_cert \<Rightarrow> tls_config" where
  "outbound_literal p cert = zero_tls_config\<lparr>
     Certificates := [cert],
     RootCAs := p_caCertPool p,
     InsecureSkipVerify := True,
     MinVersion := VersionTLS13\<rparr>"

text \<open>
  \<open>tlsConn.Handshake\<close> on an accepted connection: \<open>None\<close> for an error, else the peer certificates of
  the connection state. A callback that returns no certificate makes the handshake fail.
\<close>

definition tls_Handshake :: "net_world \<Rightarrow> Proxy \<Rightarrow> tls_config \<Rightarrow> tls_peer \<Rightarrow> x509_cert list option" where
  "tls_Handshake w p c peer =
     (if Certificates c = [] \<and> \<not> (GetCertificate c \<and> GetCurrentCertificate (p_certManager p) \<noteq> None)
      then None else server_handshake (verify_client w) c peer)"

text \<open>\<open>tls.Dial\<close> takes the server name from the address when the configuration has none.\<close>

definition dial_config :: "string \<Rightarrow> tls_config \<Rightarrow> tls_config" where
  "dial_config addr c =
     (if TLSServerName c = []
      then c\<lparr>TLSServerName := (case last_index_byte CHR '':'' addr of None \<Rightarrow> addr | Some i \<Rightarrow> take i addr)\<rparr>
      else c)"

definition tls_Dial :: "net_world \<Rightarrow> string \<Rightarrow> tls_config \<Rightarrow> bool" where
  "tls_Dial w addr c =
     (case tls_server w addr of
        None \<Rightarrow> False
      | Some peer \<Rightarrow> client_handshake (verify_server w) (dial_config addr c) peer)"

section \<open>Inbound connections\<close>

definition forwardLocalApp :: "net_world \<Rightarrow> Proxy \<Rightarrow> net_conn \<Rightarrow> net_action list" where
  "forwardLocalApp w p clientConn =
     (case url_Host w (TargetURL (p_cfg p)) of
        Inl err \<Rightarrow> []
      | Inr host \<Rightarrow>
          (case clientConn of
             TLSConn c peer \<Rightarrow>
               (case tls_Handshake w p c peer of
                  None \<Rightarrow> [Handshake False]
                | Some peers \<Rightarrow>
                    if \<not> app_dial w host then [Handshake True, DialTCP host False]
                    else [Handshake True, DialTCP host True,
                      RelayInbound (proxyInboundHTTPRequests (relay_outcomes w) peers (client_stream w)),
                      Close Upstream])
           | _ \<Rightarrow>
               if \<not> app_dial w host then [DialTCP host False]
               else [DialTCP host True, ProxyCopy Upstream Client host, Close Upstream]))"

definition handleRedirectedConnection :: "net_world \<Rightarrow> Proxy \<Rightarrow> net_conn \<Rightarrow> net_action list" where
  "handleRedirectedConnection w p conn = forwardLocalApp w p conn @ [Close Client]"

section \<open>Outbound connections\<close>

text \<open>
  \<open>forwardOutbound\<close>: the TLS-to-TLS path. It closes the client itself on each error; on success
  \<open>proxyCopy\<close> does.
\<close>

definition forwardOutbound :: "net_world \<Rightarrow> Proxy \<Rightarrow> net_conn \<Rightarrow> tcp_addr \<Rightarrow> net_action list" where
  "forwardOutbound w p clientConn dst =
     (case clientConn of
        TLSConn c peer \<Rightarrow>
          (case tls_Handshake w p c peer of
             None \<Rightarrow> [Handshake False, Close Client]
           | Some [] \<Rightarrow> [Handshake True, Close Client]
           | Some (clientCert # _) \<Rightarrow>
               (case GetCurrentCertificate (p_certManager p) of
                  None \<Rightarrow> [Handshake True, NilDereference]
                | Some cert \<Rightarrow>
                    let config = outbound_literal p cert; addr = addr_str dst
                    in if \<not> tls_Dial w addr config
                       then [Handshake True, DialTLS addr config False, Close Client]
                       else [Handshake True, DialTLS addr config True,
                         ProxyCopy Client Upstream addr, Close Upstream]))
      | _ \<Rightarrow> [Close Client])"

definition forwardOutboundPlain :: "net_world \<Rightarrow> Proxy \<Rightarrow> tcp_addr \<Rightarrow> net_action list" where
  "forwardOutboundPlain w p dst =
     (case GetCurrentCertificate (p_certManager p) of
        None \<Rightarrow> [NilDereference]
      | Some cert \<Rightarrow>
          let config = outbound_literal p cert; addr = addr_str dst
          in if \<not> tls_Dial w addr config then [DialTLS addr config False]
             else [DialTLS addr config True,
               RelayOutbound (proxyOutboundHTTPRequests (relay_outcomes w) (client_stream w)),
               Close Upstream])"

text \<open>The destination is this pod: its printed host equals \<open>POD_IP\<close>.\<close>

definition is_pod :: "string \<Rightarrow> tcp_addr \<Rightarrow> bool" where
  "is_pod podIP dst \<longleftrightarrow>
     podIP \<noteq> [] \<and> (case SplitHostPort (addr_str dst) of Inr (host, _) \<Rightarrow> host = podIP | Inl _ \<Rightarrow> False)"

definition handleOutboundConnection :: "net_world \<Rightarrow> Proxy \<Rightarrow> string \<Rightarrow> net_conn \<Rightarrow> net_action list" where
  "handleOutboundConnection w p podIP clientConn =
     (case clientConn of
        TCPConn file sockopt \<Rightarrow>
          (case GetOriginalDest file sockopt of
             Inl err \<Rightarrow> []
           | Inr originalDst \<Rightarrow>
               if is_pod podIP originalDst then forwardLocalApp w p clientConn
               else forwardOutboundPlain w p originalDst)
      | _ \<Rightarrow> []) @ [Close Client]"

section \<open>TPROXY connections\<close>

fun getOriginalDst :: "net_conn \<Rightarrow> (dest_error, tcp_addr) result" where
  "getOriginalDst (TCPConn file sockopt) = GetOriginalDest file sockopt"
| "getOriginalDst _ = Inl NotTCP"

definition forwardLocalAppTProxy :: "net_world \<Rightarrow> Proxy \<Rightarrow> net_action list" where
  "forwardLocalAppTProxy w p =
     (case url_Host w (TargetURL (p_cfg p)) of
        Inl err \<Rightarrow> []
      | Inr host \<Rightarrow>
          if \<not> app_dial w host then [DialTCP host False]
          else [DialTCP host True, ProxyCopy Upstream Client host, Close Upstream])"

definition forwardOutboundTProxy :: "net_world \<Rightarrow> Proxy \<Rightarrow> tcp_addr \<Rightarrow> net_action list" where
  "forwardOutboundTProxy w p dst =
     (case GetCurrentCertificate (p_certManager p) of
        None \<Rightarrow> [NilDereference]
      | Some cert \<Rightarrow>
          let config = outbound_literal p cert; addr = addr_str dst
          in if \<not> tls_Dial w addr config then [DialTLS addr config False]
             else [DialTLS addr config True, ProxyCopy Client Upstream addr, Close Upstream])"

definition handleTProxyConnection :: "net_world \<Rightarrow> Proxy \<Rightarrow> string \<Rightarrow> net_conn \<Rightarrow> net_action list" where
  "handleTProxyConnection w p podIP clientConn =
     (case clientConn of
        TLSConn c peer \<Rightarrow>
          (case tls_Handshake w p c peer of
             None \<Rightarrow> [Handshake False]
           | Some [] \<Rightarrow> [Handshake True]
           | Some (clientCert # _) \<Rightarrow>
               Handshake True #
               (case getOriginalDst clientConn of
                  Inl err \<Rightarrow> []
                | Inr originalDst \<Rightarrow>
                    if is_pod podIP originalDst then forwardLocalAppTProxy w p
                    else forwardOutboundTProxy w p originalDst))
      | _ \<Rightarrow> []) @ [Close Client]"

lemmas handler_defs =
  forwardLocalApp_def handleRedirectedConnection_def forwardOutboundPlain_def
  handleOutboundConnection_def forwardLocalAppTProxy_def forwardOutboundTProxy_def
  handleTProxyConnection_def Let_def

section \<open>Properties of traces\<close>

text \<open>An action that reaches for something beyond the client connection.\<close>

fun reaches_out :: "net_action \<Rightarrow> bool" where
  "reaches_out (Handshake _) = False"
| "reaches_out (Close _) = False"
| "reaches_out NilDereference = False"
| "reaches_out _ = True"

text \<open>
  Every connection the handler opens is closed, after its last use; the client is closed last,
  once, on every path.
\<close>

fun tidy :: "bool \<Rightarrow> net_action list \<Rightarrow> bool" where
  "tidy up [] = False"
| "tidy up (DialTCP _ ok # as) = (\<not> up \<and> tidy ok as)"
| "tidy up (DialTLS _ _ ok # as) = (\<not> up \<and> tidy ok as)"
| "tidy up (RelayInbound _ # as) = (up \<and> tidy up as)"
| "tidy up (RelayOutbound _ # as) = (up \<and> tidy up as)"
| "tidy up (ProxyCopy _ _ _ # as) = (up \<and> tidy up as)"
| "tidy up (Close Upstream # as) = (up \<and> tidy False as)"
| "tidy up (Close Client # as) = (\<not> up \<and> as = [])"
| "tidy up (_ # as) = tidy up as"

lemma is_pod_ip4:
  assumes "length ip = 4" "length pod = 4" "0 \<le> port"
  shows "is_pod (ip4_str pod) \<lparr>IP = ip, Port = port\<rparr> \<longleftrightarrow> ip = pod"
proof -
  have ne: "ip \<noteq> []" "pod \<noteq> []" using assms(1,2) by auto
  have "ip4_str pod \<noteq> []" using assms(2) by (cases pod) (auto simp: ip4_str_def byte_str_def join_nonempty)
  moreover have "ip4_str ip = ip4_str pod \<longleftrightarrow> ip = pod"
    using ip4_str_inject [OF _ ne] by auto
  ultimately show ?thesis
    using SplitHostPort_addr_str [of "\<lparr>IP = ip, Port = port\<rparr>"] assms(3) by (simp add: is_pod_def)
qed

lemma inbound_handshake:
  "tls_Handshake w p (GetInboundTLSConfig p) peer = Some chain \<longleftrightarrow>
     chain = peer_chain peer \<and> peer_chain peer \<noteq> [] \<and> verify_client w (p_caCertPool p) (peer_chain peer) \<and>
     VersionTLS13 \<le> peer_version peer \<and> GetCurrentCertificate (p_certManager p) \<noteq> None"
  by (auto simp: tls_Handshake_def GetInboundTLSConfig_def server_handshake_def zero_tls_config_def
      min_version_def VersionTLS13_def Let_def split: if_splits)

lemma outbound_literal_simps [simp]:
  "InsecureSkipVerify (outbound_literal p cert) = True"
  "min_version (outbound_literal p cert) = VersionTLS13"
  "Certificates (outbound_literal p cert) = [cert]"
  by (simp_all add: outbound_literal_def min_version_def VersionTLS13_def)

lemma getOutboundTLSConfig_simps [simp]:
  "InsecureSkipVerify (getOutboundTLSConfig p name) = False"
  "min_version (getOutboundTLSConfig p name) = VersionTLS13"
  "RootCAs (getOutboundTLSConfig p name) = p_caCertPool p"
  by (simp_all add: getOutboundTLSConfig_def zero_tls_config_def min_version_def VersionTLS13_def)

lemma dial_config_simps [simp]:
  "InsecureSkipVerify (dial_config addr c) = InsecureSkipVerify c"
  "min_version (dial_config addr c) = min_version c"
  "RootCAs (dial_config addr c) = RootCAs c"
  by (simp_all add: dial_config_def min_version_def)

text \<open>With a certificate in place no handler dereferences nil.\<close>

lemma no_nil_dereference:
  assumes "GetCurrentCertificate (p_certManager p) \<noteq> None"
  shows "NilDereference \<notin> set (handleRedirectedConnection w p conn)"
    "NilDereference \<notin> set (handleOutboundConnection w p podIP conn)"
    "NilDereference \<notin> set (handleTProxyConnection w p podIP conn)"
    "NilDereference \<notin> set (forwardOutbound w p conn dst)"
  using assms
  by (auto simp: handler_defs forwardOutbound_def split: sum.splits net_conn.splits option.splits list.splits)

lemma inbound_reaches_iff:
  "list_ex reaches_out (handleRedirectedConnection w p (TLSConn (GetInboundTLSConfig p) peer)) \<longleftrightarrow>
     (\<exists>host. url_Host w (TargetURL (p_cfg p)) = Inr host) \<and>
     GetCurrentCertificate (p_certManager p) \<noteq> None \<and> VersionTLS13 \<le> peer_version peer \<and>
     peer_chain peer \<noteq> [] \<and> verify_client w (p_caCertPool p) (peer_chain peer)"
proof (cases "url_Host w (TargetURL (p_cfg p))")
  case (Inl err)
  then show ?thesis by (simp add: handler_defs)
next
  case (Inr host)
  show ?thesis
  proof (cases "tls_Handshake w p (GetInboundTLSConfig p) peer")
    case None
    then have "\<not> (GetCurrentCertificate (p_certManager p) \<noteq> None \<and> VersionTLS13 \<le> peer_version peer \<and>
        peer_chain peer \<noteq> [] \<and> verify_client w (p_caCertPool p) (peer_chain peer))"
      using inbound_handshake [of w p peer "peer_chain peer"] by auto
    with None Inr show ?thesis by (auto simp: handler_defs)
  next
    case (Some chain)
    with Inr inbound_handshake [of w p peer chain] show ?thesis by (simp add: handler_defs)
  qed
qed

lemma tproxy_reaches: "\<not> list_ex reaches_out (handleTProxyConnection w p podIP conn)"
  by (auto simp: handleTProxyConnection_def split: net_conn.splits option.splits list.splits)

text \<open>Every plain connection a handler opens goes to the host of the target URL.\<close>

lemma dials_local: "DialTCP a ok \<in> set (forwardLocalApp w p conn) \<Longrightarrow> url_Host w (TargetURL (p_cfg p)) = Inr a"
  by (cases conn; cases "url_Host w (TargetURL (p_cfg p))")
    (auto simp: forwardLocalApp_def split: option.splits if_splits)

lemma dials_plain:
  "DialTCP a ok \<notin> set (forwardOutboundPlain w p dst)" "DialTCP a ok \<notin> set (forwardOutboundTProxy w p dst)"
  by (simp_all add: forwardOutboundPlain_def forwardOutboundTProxy_def Let_def split: option.split)

lemma dials_target:
  "DialTCP a ok \<in> set (handleRedirectedConnection w p conn) \<Longrightarrow> url_Host w (TargetURL (p_cfg p)) = Inr a"
  "DialTCP a ok \<in> set (handleOutboundConnection w p podIP conn) \<Longrightarrow> url_Host w (TargetURL (p_cfg p)) = Inr a"
  "DialTCP a ok \<in> set (handleTProxyConnection w p podIP conn) \<Longrightarrow> url_Host w (TargetURL (p_cfg p)) = Inr a"
proof -
  show "DialTCP a ok \<in> set (handleRedirectedConnection w p conn) \<Longrightarrow> url_Host w (TargetURL (p_cfg p)) = Inr a"
    by (auto simp: handleRedirectedConnection_def intro: dials_local)
  show "DialTCP a ok \<in> set (handleOutboundConnection w p podIP conn) \<Longrightarrow> url_Host w (TargetURL (p_cfg p)) = Inr a"
    by (cases conn) (auto simp: handleOutboundConnection_def dials_plain intro: dials_local split: sum.splits if_splits)
  show "DialTCP a ok \<in> set (handleTProxyConnection w p podIP conn) \<Longrightarrow> url_Host w (TargetURL (p_cfg p)) = Inr a"
    by (cases conn) (auto simp: handleTProxyConnection_def split: option.splits list.splits)
qed

lemma url_Host_target: "target_parts scheme h port path \<Longrightarrow> url_Host w (target_text scheme h port path) = Inr (h @ CHR '':'' # port)"
  by (simp add: url_Host_def url_Parse_target)

lemma url_Host_no_scheme: "scheme_text h \<Longrightarrow> list_all is_digit port \<Longrightarrow> url_Host w (h @ CHR '':'' # port) = Inr []"
  by (simp add: url_Host_def url_Parse_no_scheme)

section \<open>Properties\<close>

text \<open>
  C2: Zero trust on the way in. In redirect mode the handler contacts the application (or anything
  else) exactly when the target URL parses, the proxy has a certificate, and the client
  speaks TLS 1.3 and presents a non-empty chain that verifies against the mesh CA pool; otherwise it
  closes the connection without a byte to the application.
\<close>

theorem inbound_requires_verified_client:
  "list_ex reaches_out (handleRedirectedConnection w p (TLSConn (GetInboundTLSConfig p) peer)) \<longleftrightarrow>
     (\<exists>host. url_Host w (TargetURL (p_cfg p)) = Inr host) \<and>
     GetCurrentCertificate (p_certManager p) \<noteq> None \<and> VersionTLS13 \<le> peer_version peer \<and>
     peer_chain peer \<noteq> [] \<and> verify_client w (p_caCertPool p) (peer_chain peer)"
  by (rule inbound_reaches_iff)

text \<open>
  C32: The TPROXY handler never forwards: for every connection it accepts and every answer of the
  outside world it at most completes the handshake and closes the connection, because
  \<open>getOriginalDst\<close> asks a \<open>*tls.Conn\<close> to be a \<open>*net.TCPConn\<close>.
\<close>

theorem tproxy_never_forwards:
  "\<not> list_ex reaches_out (handleTProxyConnection w p podIP conn) \<and>
   last (handleTProxyConnection w p podIP conn) = Close Client"
  by (auto simp: handleTProxyConnection_def split: net_conn.splits option.splits list.splits)

text \<open>
  C27: Where outbound traffic goes. For the destination the kernel reports, the handler connects
  to the local application in plaintext when the address is the pod's own, and otherwise tries
  exactly one mutual TLS connection to that very address, presenting the certificate in use.
\<close>

theorem outbound_by_destination:
  assumes "length ip = 4" "length pod = 4" "sockopt fd SO_ORIGINAL_DST = Inr (sockaddr_in ip port)"
    and "GetCurrentCertificate (p_certManager p) = Some cert" "url_Host w (TargetURL (p_cfg p)) = Inr app"
  shows "let dst = addr_str \<lparr>IP = ip, Port = uint port\<rparr>; config = outbound_literal p cert in
    handleOutboundConnection w p (ip4_str pod) (TCPConn (Inr fd) sockopt) =
      (if ip = pod then
         (if app_dial w app then [DialTCP app True, ProxyCopy Upstream Client app, Close Upstream]
          else [DialTCP app False])
       else if tls_Dial w dst config then
         [DialTLS dst config True,
          RelayOutbound (proxyOutboundHTTPRequests (relay_outcomes w) (client_stream w)), Close Upstream]
       else [DialTLS dst config False]) @ [Close Client]"
  using assms GetOriginalDest_sockaddr [of ip sockopt fd port] is_pod_ip4 [of ip pod "uint port"]
  by (simp add: handler_defs)

text \<open>
  Outbound connections authenticate nobody: the dial succeeds with every TLS 1.3 server that
  presents some certificate, whatever chain verification says about it. The configuration
  of \<open>getOutboundTLSConfig\<close>, which no handler uses, would insist on a verified chain.
\<close>

theorem outbound_trusts_any_server:
  "(tls_Dial w addr (outbound_literal p cert) \<longleftrightarrow>
      (\<exists>peer. tls_server w addr = Some peer \<and> VersionTLS13 \<le> peer_version peer \<and> peer_chain peer \<noteq> [])) \<and>
   (tls_Dial w addr (getOutboundTLSConfig p name) \<longleftrightarrow>
      (\<exists>peer. tls_server w addr = Some peer \<and> VersionTLS13 \<le> peer_version peer \<and> peer_chain peer \<noteq> [] \<and>
         verify_server w (p_caCertPool p) (TLSServerName (dial_config addr (getOutboundTLSConfig p name)))
           (peer_chain peer)))"
  by (simp add: tls_Dial_def client_handshake_def split: option.split)


text \<open>
  The application the proxy talks to is the one \<open>TARGET_URL\<close> names. For a target of the usual form, a
  scheme, a host name, a decimal port and a path, every plaintext connection any handler opens
  goes to that host and port and to nothing else, whatever the client sends.
\<close>

theorem target_url_decides:
  assumes "target_parts scheme h port path" "TargetURL (p_cfg p) = target_text scheme h port path"
    and "DialTCP a ok \<in> set (handleRedirectedConnection w p conn) \<union> set (handleOutboundConnection w p podIP conn) \<union>
      set (handleTProxyConnection w p podIP conn)"
  shows "a = h @ CHR '':'' # port"
  using assms dials_target url_Host_target [OF assms(1)] by (metis Un_iff sum.inject(2))

text \<open>
  A target without a scheme, as in \<open>localhost:3005\<close>, is accepted without an error and cuts the
  application off: its host name is read as a scheme, the host is empty, and since nothing can be dialled
  at an empty address no request of any client is ever relayed.
\<close>

theorem target_without_scheme:
  assumes "scheme_text h" "list_all is_digit port" "TargetURL (p_cfg p) = h @ CHR '':'' # port" "\<not> app_dial w []"
  shows "(\<exists>u. url_Parse (ip_literal w) (TargetURL (p_cfg p)) = Inr u) \<and>
    handleRedirectedConnection w p (TLSConn (GetInboundTLSConfig p) peer) \<in>
      {[Handshake False, Close Client], [Handshake True, DialTCP [] False, Close Client]}"
  using assms(3,4) url_Parse_no_scheme [OF assms(1,2)] url_Host_no_scheme [OF assms(1,2)]
  by (auto simp: handler_defs split: option.splits)

section \<open>A concrete proxy\<close>

definition example_proxy :: Proxy where
  "example_proxy = \<lparr>p_cfg = (CreateProxyConfig 15006 ''cart''
       \<lparr>Level = ''Debug'', IsJSON = True, AddSource = False, AppVersion = ''0.0.1'', LogServiceName = ''cart'',
        Env = ''local'', Context = []\<rparr>)\<lparr>TargetURL := ''http://localhost:3005''\<rparr>,
     p_certManager = cm example_state, p_caCertPool = [''root'']\<rparr>"

lemma example_target_parts: "target_parts ''http'' ''localhost'' ''3005'' []"
  by (simp add: target_parts_def scheme_text_def scheme_char_def name_char_def alnum_def path_text_def is_upper_def
      is_lower_def is_digit_def)

lemma url_Host_default [simp]: "url_Host w ''http://localhost:3005'' = Inr ''localhost:3005''"
  using url_Host_target [OF example_target_parts, of w] by (simp add: target_text_def)

text \<open>A world whose only TLS server speaks TLS 1.3 and presents a chain nobody verifies.\<close>

definition example_world :: net_world where
  "example_world = \<lparr>ip_literal = (\<lambda>_. Inl ''missing bracket''), app_dial = (\<lambda>_. True),
     tls_server = (\<lambda>_. Some \<lparr>peer_version = VersionTLS13,
        peer_chain = [\<lparr>Raw = ''der9'', DNSNames = [], CommonName = ''rogue'', NotAfter = 0\<rparr>]\<rparr>),
     verify_client = (\<lambda>_ _. False), verify_server = (\<lambda>_ _ _. False),
     relay_outcomes = example_io, client_stream = [Inr example_req]\<rparr>"

theorem outbound_by_destination_witness:
  "handleOutboundConnection example_world example_proxy (ip4_str [10, 0, 0, 7])
     (TCPConn (Inr 3) (\<lambda>_ _. Inr (sockaddr_in [10, 0, 0, 7] 8080))) =
   [DialTCP ''localhost:3005'' True, ProxyCopy Upstream Client ''localhost:3005'', Close Upstream, Close Client]"
  using outbound_by_destination [of "[10, 0, 0, 7]" "[10, 0, 0, 7]" "\<lambda>_ _. Inr (sockaddr_in [10, 0, 0, 7] 8080)" 3 8080
      example_proxy "\<lparr>Certificate = Some [''der0''], PrivateKey = ''key0''\<rparr>" example_world "''localhost:3005''"]
  by (simp add: example_proxy_def example_state_def example_world_def GetCurrentCertificate_def)

theorem target_url_decides_witness:
  "\<exists>a ok. DialTCP a ok \<in> set (handleRedirectedConnection example_world example_proxy OtherConn) \<and> a = ''localhost:3005''"
proof -
  have dial: "DialTCP ''localhost:3005'' True \<in> set (handleRedirectedConnection example_world example_proxy OtherConn)"
    by (simp add: handler_defs example_world_def example_proxy_def)
  have "TargetURL (p_cfg example_proxy) = target_text ''http'' ''localhost'' ''3005'' []"
    by (simp add: example_proxy_def target_text_def)
  from target_url_decides [OF example_target_parts this, of _ True example_world OtherConn "[]"] dial
  show ?thesis by (auto intro!: exI [of _ "''localhost:3005''"] exI [of _ True])
qed

theorem target_without_scheme_witness:
  "handleRedirectedConnection (example_world\<lparr>app_dial := (\<lambda>a. a \<noteq> [])\<rparr>)
     (example_proxy\<lparr>p_cfg := (p_cfg example_proxy)\<lparr>TargetURL := ''localhost:3005''\<rparr>\<rparr>)
     (TLSConn (GetInboundTLSConfig (example_proxy\<lparr>p_cfg := (p_cfg example_proxy)\<lparr>TargetURL := ''localhost:3005''\<rparr>\<rparr>))
        (the (tls_server example_world [])))
   \<in> {[Handshake False, Close Client], [Handshake True, DialTCP [] False, Close Client]}"
  using target_without_scheme [of "''localhost''" "''3005''"
      "example_proxy\<lparr>p_cfg := (p_cfg example_proxy)\<lparr>TargetURL := ''localhost:3005''\<rparr>\<rparr>"
      "example_world\<lparr>app_dial := (\<lambda>a. a \<noteq> [])\<rparr>"]
  by (simp add: scheme_text_def scheme_char_def is_upper_def is_lower_def is_digit_def)

end
