(* ===== verification/ProxyRun.thy ===== *)
theory ProxyRun
  imports Proxy
begin

text \<open>
  Starting and running the proxy of \<open>internal/proxy/proxy.go\<close>: \<open>NewProxy\<close> with the calls it makes,
  \<open>Run\<close> with its choice of a mode, the listeners and the accept loops of the redirect and
  TPROXY modes. The TLS listeners hand out TLS connections, the plain ones TCP connections.
\<close>

section \<open>NewProxy\<close>

record start_env =
  ReadFile :: "string \<Rightarrow> (string, string) result"
  pool_of_pem :: "string \<Rightarrow> cert_pool"
  requestToken :: "string \<Rightarrow> string \<Rightarrow> string \<Rightarrow> string \<Rightarrow> (string, ServiceAccountToken) result"
  parseUnverified :: "string \<Rightarrow> (string, jwt_claims) result"
  fetchCert :: "ServiceAccountToken \<Rightarrow> string \<Rightarrow> (fetch_error, IdentityResult) result"

datatype start_error =
    CAError string
  | TokenError string
  | JWTFailed identity_error
  | SpiffeError identity_error
  | FetchError fetch_error

datatype start_call = CallReadFile string | StartCall rot_call | StartRotation

text \<open>The proxy, and the rotation goroutine it starts.\<close>

record started =
  st_proxy :: Proxy
  st_rotation :: rotation
  st_args :: rot_args

definition service_account :: "ProxyConfig \<Rightarrow> string" where
  "service_account c = (if ServiceAccount c = [] then ServiceName c else ServiceAccount c)"

definition new_manager :: "IdentityResult \<Rightarrow> CertManager" where
  "new_manager result =
     \<lparr>CurrentCert = Some (IdCertificate result), CurrentPodUid = PodUid result,
      RetryDelay = seconds 60, RenewalWindow = seconds (5 * 60)\<rparr>"

definition NewProxy :: "start_env \<Rightarrow> ProxyConfig \<Rightarrow> start_call list \<times> (start_error, started) result" where
  "NewProxy e c =
     (let ca = CallReadFile (CACertPath c) in
      case ReadFile e (CACertPath c) of
        Inl err \<Rightarrow> ([ca], Inl (CAError err))
      | Inr caCert \<Rightarrow>
          let sa = service_account c;
              req = StartCall (CallRequestToken (KubernetesNamespace c) sa (PodName c) (PodUID c))
          in case requestToken e (KubernetesNamespace c) sa (PodName c) (PodUID c) of
               Inl err \<Rightarrow> ([ca, req], Inl (TokenError err))
             | Inr token \<Rightarrow>
                 (case ParseJWT (parseUnverified e) token of
                    Inl err \<Rightarrow> ([ca, req], Inl (JWTFailed err))
                  | Inr claims \<Rightarrow>
                      (case GetSpiffeId claims (TrustedDomain c) of
                         Inl err \<Rightarrow> ([ca, req], Inl (SpiffeError err))
                       | Inr spiffeId \<Rightarrow>
                           (case fetchCert e token spiffeId of
                              Inl err \<Rightarrow> ([ca, req, StartCall (CallFetch token spiffeId)], Inl (FetchError err))
                            | Inr result \<Rightarrow>
                                let m = new_manager result
                                in ([ca, req, StartCall (CallFetch token spiffeId), StartRotation],
                                    Inr \<lparr>st_proxy = \<lparr>p_cfg = c, p_certManager = m,
                                           p_caCertPool = pool_of_pem e caCert\<rparr>,
                                         st_rotation = \<lparr>cm = m, tok = Some \<lparr>TokMu = True, Token = token\<rparr>,
                                           rpc_at = PLoop\<rparr>,
                                         st_args = \<lparr>ra_namespace = KubernetesNamespace c,
                                           ra_serviceAccount = sa, ra_podName = PodName c,
                                           ra_podUID = PodUID c, ra_spiffeId = spiffeId\<rparr>\<rparr>)))))"

section \<open>Run\<close>

datatype run_mode = DirectMode | RedirectMode | TProxyMode

definition choose_mode :: "environ \<Rightarrow> Proxy \<Rightarrow> run_mode" where
  "choose_mode getenv p =
     (if ProxyPort (p_cfg p) = 15006 \<or> getenv ''PROXY_MODE'' = ''redirect'' then RedirectMode
      else if getenv ''PROXY_MODE'' = ''tproxy'' then TProxyMode
      else DirectMode)"

datatype run_error =
    InboundListen int string
  | OutboundListen int string
  | InboundAccept string
  | OutboundAccept string

text \<open>
  What happens while the two accept loops run, in any order: a connection (or an error) at either
  listener, together with the outside world and the certificate manager its handler meets.
\<close>

datatype accept_event =
    AcceptIn "(string, net_world \<times> CertManager \<times> tls_peer) result"
  | AcceptOut "(string, net_world \<times> CertManager \<times> (string, int) result \<times> (int \<Rightarrow> int \<Rightarrow> (string, bytes) result)) result"

datatype run_action =
    ListenInbound run_mode int bool
  | ListenOutbound int bool
  | CloseInboundListener
  | InboundHandler "net_action list"
  | OutboundHandler "net_action list"

definition handle_inbound ::
  "run_mode \<Rightarrow> Proxy \<Rightarrow> string \<Rightarrow> net_world \<times> CertManager \<times> tls_peer \<Rightarrow> net_action list" where
  "handle_inbound mode p podIP x =
     (case x of (w, m, peer) \<Rightarrow>
        let q = p\<lparr>p_certManager := m\<rparr>; conn = TLSConn (GetInboundTLSConfig q) peer
        in if mode = TProxyMode then handleTProxyConnection w q podIP conn
           else handleRedirectedConnection w q conn)"

definition handle_outbound ::
  "Proxy \<Rightarrow> string \<Rightarrow> net_world \<times> CertManager \<times> (string, int) result \<times> (int \<Rightarrow> int \<Rightarrow> (string, bytes) result) \<Rightarrow>
   net_action list" where
  "handle_outbound p podIP x =
     (case x of (w, m, file, sockopt) \<Rightarrow>
        handleOutboundConnection w (p\<lparr>p_certManager := m\<rparr>) podIP (TCPConn file sockopt))"

text \<open>
  The two accept loops. Each ends with its first error, which goes to the error channel (it has
  room for both); \<open>Run\<close> returns the first one. The third component is \<open>None\<close> while both loops
  still run.
\<close>

fun accept_loops ::
  "run_mode \<Rightarrow> Proxy \<Rightarrow> string \<Rightarrow> accept_event list \<Rightarrow> run_action list \<times> run_error option" where
  "accept_loops mode p podIP [] = ([], None)"
| "accept_loops mode p podIP (AcceptIn (Inl err) # es) = ([], Some (InboundAccept err))"
| "accept_loops mode p podIP (AcceptOut (Inl err) # es) = ([], Some (OutboundAccept err))"
| "accept_loops mode p podIP (AcceptIn (Inr x) # es) =
     (let (as, r) = accept_loops mode p podIP es in (InboundHandler (handle_inbound mode p podIP x) # as, r))"
| "accept_loops mode p podIP (AcceptOut (Inr x) # es) =
     (let (as, r) = accept_loops mode p podIP es in (OutboundHandler (handle_outbound p podIP x) # as, r))"

text \<open>
  \<open>createTProxyListener\<close>: the control function of the listener asks for \<open>IP_TRANSPARENT\<close> and drops the error of
  \<open>setsockopt\<close>, so only the listening itself can fail. \<open>sockopt fd level opt value\<close> is this error, if any.
\<close>

record tproxy_listener =
  tl_port :: int
  tl_transparent :: bool

definition SOL_IP :: int where "SOL_IP = 0"
definition IP_TRANSPARENT :: int where "IP_TRANSPARENT = 19"

definition createTProxyListener ::
  "(int \<Rightarrow> int \<Rightarrow> int \<Rightarrow> string option) \<Rightarrow> (int \<Rightarrow> string option) \<Rightarrow> int \<Rightarrow> (string, tproxy_listener) result" where
  "createTProxyListener sockopt listen port =
     (case listen port of
        Some err \<Rightarrow> Inl err
      | None \<Rightarrow> Inr \<lparr>tl_port = port, tl_transparent = (sockopt SOL_IP IP_TRANSPARENT 1 = None)\<rparr>)"

text \<open>Whether it fails is decided by the listening alone, which is all \<open>run_intercepting\<close> needs of it.\<close>

lemma createTProxyListener_error:
  "(case createTProxyListener sockopt listen port of Inl err \<Rightarrow> Some err | Inr l \<Rightarrow> None) = listen port"
  by (simp add: createTProxyListener_def split: option.split)

text \<open>
  \<open>runRedirectMode\<close> and \<open>runTProxyMode\<close> open the inbound listener, then the outbound one; the two
  differ in the kind of the inbound listener and its handler. \<open>listen\<close> gives the error of a
  listener, if any.
\<close>

definition run_intercepting ::
  "run_mode \<Rightarrow> (int \<Rightarrow> string option) \<Rightarrow> Proxy \<Rightarrow> environ \<Rightarrow> accept_event list \<Rightarrow> run_action list \<times> run_error option" where
  "run_intercepting mode listen p getenv es =
     (let podIP = getenv ''POD_IP''; inp = InboundPort (p_cfg p); outp = OutboundPort (p_cfg p) in
      case listen inp of
        Some err \<Rightarrow> ([ListenInbound mode inp False], Some (InboundListen inp err))
      | None \<Rightarrow>
          (case listen outp of
             Some err \<Rightarrow> ([ListenInbound mode inp True, ListenOutbound outp False, CloseInboundListener],
               Some (OutboundListen outp err))
           | None \<Rightarrow>
               let (as, r) = accept_loops mode p podIP es
               in (ListenInbound mode inp True # ListenOutbound outp True # as, r)))"

definition runRedirectMode where
  "runRedirectMode = run_intercepting RedirectMode"

definition runTProxyMode where
  "runTProxyMode = run_intercepting TProxyMode"

text \<open>
  \<open>runDirectMode\<close> serves in a goroutine and waits for a signal: what the server reports is logged
  (a regular close is not), and only the signal makes it return, with the result of the shutdown. The
  second component is \<open>None\<close> while it waits.
\<close>

datatype direct_event = ServeFails string | ServeCloses | StopSignal

datatype direct_action = LogStarting int | LogServerError string | LogShutdown

fun direct_wait ::
  "string option \<Rightarrow> direct_event list \<Rightarrow> direct_action list \<times> string option option" where
  "direct_wait shutdownErr [] = ([], None)"
| "direct_wait shutdownErr (ServeFails err # es) =
     (let (as, r) = direct_wait shutdownErr es in (LogServerError err # as, r))"
| "direct_wait shutdownErr (ServeCloses # es) = direct_wait shutdownErr es"
| "direct_wait shutdownErr (StopSignal # es) = ([LogShutdown], Some shutdownErr)"

definition runDirectMode ::
  "Proxy \<Rightarrow> string option \<Rightarrow> direct_event list \<Rightarrow> direct_action list \<times> string option option" where
  "runDirectMode p shutdownErr es =
     (let (as, r) = direct_wait shutdownErr es in (LogStarting (ProxyPort (p_cfg p)) # as, r))"

text \<open>\<open>Run\<close> in each of its modes; the sum separates the two kinds of run.\<close>

definition Run ::
  "environ \<Rightarrow> (int \<Rightarrow> string option) \<Rightarrow> string option \<Rightarrow> Proxy \<Rightarrow> accept_event list \<Rightarrow> direct_event list \<Rightarrow>
   (direct_action list \<times> string option option) + (run_action list \<times> run_error option)" where
  "Run getenv listen shutdownErr p es ds =
     (case choose_mode getenv p of
        RedirectMode \<Rightarrow> Inr (runRedirectMode listen p getenv es)
      | TProxyMode \<Rightarrow> Inr (runTProxyMode listen p getenv es)
      | DirectMode \<Rightarrow> Inl (runDirectMode p shutdownErr ds))"

text \<open>A failing server does not end direct mode: without a signal it waits for ever.\<close>

lemma direct_wait_needs_signal: "snd (direct_wait shutdownErr es) = None \<longleftrightarrow> StopSignal \<notin> set es"
  by (induction shutdownErr es rule: direct_wait.induct) (simp_all add: split_beta Let_def)

lemma direct_mode_needs_signal: "snd (runDirectMode p shutdownErr es) = None \<longleftrightarrow> StopSignal \<notin> set es"
  by (simp add: runDirectMode_def split_beta Let_def direct_wait_needs_signal)

lemma Run_intercepting:
  "Run getenv listen shutdownErr p es ds = Inr (acts, r) \<Longrightarrow>
     choose_mode getenv p \<noteq> DirectMode \<and> (acts, r) = run_intercepting (choose_mode getenv p) listen p getenv es"
  by (auto simp: Run_def runRedirectMode_def runTProxyMode_def split: run_mode.splits)

section \<open>Lemmas\<close>

lemma new_manager_cert [simp]: "GetCurrentCertificate (new_manager r) = Some (IdCertificate r)"
  by (simp add: new_manager_def GetCurrentCertificate_def)

lemma NewProxy_Inr_iff:
  "snd (NewProxy e c) = Inr st \<longleftrightarrow>
     (\<exists>pem token claims spiffeId result.
        ReadFile e (CACertPath c) = Inr pem \<and>
        requestToken e (KubernetesNamespace c) (service_account c) (PodName c) (PodUID c) = Inr token \<and>
        ParseJWT (parseUnverified e) token = Inr claims \<and>
        GetSpiffeId claims (TrustedDomain c) = Inr spiffeId \<and>
        fetchCert e token spiffeId = Inr result \<and>
        st = \<lparr>st_proxy = \<lparr>p_cfg = c, p_certManager = new_manager result, p_caCertPool = pool_of_pem e pem\<rparr>,
              st_rotation = \<lparr>cm = new_manager result, tok = Some \<lparr>TokMu = True, Token = token\<rparr>, rpc_at = PLoop\<rparr>,
              st_args = \<lparr>ra_namespace = KubernetesNamespace c, ra_serviceAccount = service_account c,
                ra_podName = PodName c, ra_podUID = PodUID c, ra_spiffeId = spiffeId\<rparr>\<rparr>)"
  by (auto simp: NewProxy_def Let_def split: sum.splits)

lemma accept_loops_actions:
  "InboundHandler acts \<in> set (fst (accept_loops mode p podIP es)) \<Longrightarrow>
     \<exists>x. AcceptIn (Inr x) \<in> set es \<and> acts = handle_inbound mode p podIP x"
  "OutboundHandler acts' \<in> set (fst (accept_loops mode p podIP es)) \<Longrightarrow>
     \<exists>x. AcceptOut (Inr x) \<in> set es \<and> acts' = handle_outbound p podIP x"
  by (induction mode p podIP es rule: accept_loops.induct) (auto simp: split_beta Let_def)

lemma run_actions:
  "InboundHandler acts \<in> set (fst (run_intercepting mode listen p getenv es)) \<Longrightarrow>
     \<exists>x. AcceptIn (Inr x) \<in> set es \<and> acts = handle_inbound mode p (getenv ''POD_IP'') x"
  "OutboundHandler acts' \<in> set (fst (run_intercepting mode listen p getenv es)) \<Longrightarrow>
     \<exists>x. AcceptOut (Inr x) \<in> set es \<and> acts' = handle_outbound p (getenv ''POD_IP'') x"
  by (auto simp: run_intercepting_def Let_def split_beta dest!: accept_loops_actions
      simp del: split_paired_Ex split: option.splits)

text \<open>The accepted connections up to the first error, and the handlers they get.\<close>

fun is_failure :: "accept_event \<Rightarrow> bool" where
  "is_failure (AcceptIn (Inl _)) = True"
| "is_failure (AcceptOut (Inl _)) = True"
| "is_failure _ = False"

fun handler_of :: "run_mode \<Rightarrow> Proxy \<Rightarrow> string \<Rightarrow> accept_event \<Rightarrow> run_action" where
  "handler_of mode p podIP (AcceptIn (Inr x)) = InboundHandler (handle_inbound mode p podIP x)"
| "handler_of mode p podIP (AcceptOut (Inr x)) = OutboundHandler (handle_outbound p podIP x)"
| "handler_of mode p podIP _ = CloseInboundListener"

lemma accept_loops_map:
  "fst (accept_loops mode p podIP es) = List.map (handler_of mode p podIP) (takeWhile (Not \<circ> is_failure) es) \<and>
   (snd (accept_loops mode p podIP es) = None \<longleftrightarrow> list_all (Not \<circ> is_failure) es)"
  by (induction mode p podIP es rule: accept_loops.induct) (auto simp: split_beta Let_def)

lemma manager_update [simp]:
  "p_caCertPool (p\<lparr>p_certManager := m\<rparr>) = p_caCertPool p" "p_cfg (p\<lparr>p_certManager := m\<rparr>) = p_cfg p"
  by simp_all

section \<open>Properties\<close>

text \<open>
  Zero trust for the whole run: over every interleaving of accepted connections, rotation states
  and outside worlds, an inbound handler of \<open>Run\<close> that contacts anything runs in redirect mode and belongs to an
  accepted connection whose client spoke TLS 1.3 and presented a chain that verifies against
  the CA pool the proxy started with.
\<close>

theorem run_inbound_zero_trust:
  assumes "Run getenv listen shutdownErr p es ds = Inr (acts, r)"
    and "InboundHandler h \<in> set acts" "list_ex reaches_out h"
  shows "choose_mode getenv p = RedirectMode \<and> (\<exists>w m peer. AcceptIn (Inr (w, m, peer)) \<in> set es \<and>
    h = handle_inbound RedirectMode p (getenv ''POD_IP'') (w, m, peer) \<and>
    verify_client w (p_caCertPool p) (peer_chain peer) \<and> peer_chain peer \<noteq> [] \<and>
    VersionTLS13 \<le> peer_version peer)"
proof -
  let ?mode = "choose_mode getenv p"
  from Run_intercepting [OF assms(1)] have direct: "?mode \<noteq> DirectMode"
    and "InboundHandler h \<in> set (fst (run_intercepting ?mode listen p getenv es))"
    using assms(2) by (auto simp: prod_eq_iff)
  from run_actions(1) [OF this(2)] obtain w m peer where x: "AcceptIn (Inr (w, m, peer)) \<in> set es"
    "h = handle_inbound ?mode p (getenv ''POD_IP'') (w, m, peer)" by auto
  let ?q = "p\<lparr>p_certManager := m\<rparr>"
  have "?mode \<noteq> TProxyMode"
    using assms(3) x(2) tproxy_reaches by (auto simp: handle_inbound_def Let_def)
  with direct have mode: "?mode = RedirectMode" by (cases ?mode) simp_all
  with assms(3) x(2) have "list_ex reaches_out (handleRedirectedConnection w ?q (TLSConn (GetInboundTLSConfig ?q) peer))"
    by (simp add: handle_inbound_def Let_def)
  then show ?thesis
    using x mode by (auto simp: inbound_reaches_iff)
qed

text \<open>
  Each listener's connections get exactly one handler each, in the order of acceptance, until the
  first accept error; then \<open>Run\<close> returns that error. When the outbound port cannot be opened, the
  inbound listener is closed and no handler runs.
\<close>

theorem run_handles_each_connection:
  "let (acts, r) = run_intercepting mode listen p getenv es; inp = InboundPort (p_cfg p); outp = OutboundPort (p_cfg p)
   in (listen inp = None \<and> listen outp = None \<and>
         acts = ListenInbound mode inp True # ListenOutbound outp True #
           List.map (handler_of mode p (getenv ''POD_IP'')) (takeWhile (Not \<circ> is_failure) es) \<and>
         (r = None \<longleftrightarrow> list_all (Not \<circ> is_failure) es)) \<or>
      (\<exists>err. listen inp = Some err \<and> acts = [ListenInbound mode inp False] \<and> r = Some (InboundListen inp err)) \<or>
      (\<exists>err. listen inp = None \<and> listen outp = Some err \<and> last acts = CloseInboundListener \<and>
         acts = [ListenInbound mode inp True, ListenOutbound outp False, CloseInboundListener] \<and>
         r = Some (OutboundListen outp err))"
  using accept_loops_map [of mode p "getenv ''POD_IP''" es]
  by (auto simp: run_intercepting_def Let_def split_beta split: option.splits)

text \<open>
  Without the privilege for \<open>IP_TRANSPARENT\<close> TPROXY mode starts all the same: a kernel that refuses
  the option changes neither the outcome of \<open>createTProxyListener\<close> nor anything else but the listener, which
  then is an ordinary one.
\<close>

theorem tproxy_listener_not_transparent:
  assumes "sockopt SOL_IP IP_TRANSPARENT 1 = Some err" "listen port = None"
  shows "\<exists>l. createTProxyListener sockopt listen port = Inr l \<and> tl_port l = port \<and> \<not> tl_transparent l"
  using assms by (simp add: createTProxyListener_def)

text \<open>
  C26: \<open>NewProxy\<close> works through its steps in order and stops at the first that fails: no token is
  requested without the CA file, no certificate without a token and a SPIFFE id, the id it asks for
  is that of the token's own claims in the configured trust domain, and the rotation goroutine is
  started exactly when a proxy is returned.
\<close>

theorem new_proxy_stops_at_first_error:
  "\<exists>token spiffeId n. n \<in> {1, 2, 3, 4} \<and>
     fst (NewProxy e c) = take n
       [CallReadFile (CACertPath c),
        StartCall (CallRequestToken (KubernetesNamespace c) (service_account c) (PodName c) (PodUID c)),
        StartCall (CallFetch token spiffeId), StartRotation] \<and>
     (n = 1 \<longleftrightarrow> (\<exists>err. snd (NewProxy e c) = Inl (CAError err))) \<and>
     (n = 2 \<longleftrightarrow> (\<exists>err. snd (NewProxy e c) = Inl (TokenError err)) \<or>
        (\<exists>err. snd (NewProxy e c) = Inl (JWTFailed err)) \<or>
        (\<exists>err. snd (NewProxy e c) = Inl (SpiffeError err))) \<and>
     (n = 3 \<longleftrightarrow> (\<exists>err. snd (NewProxy e c) = Inl (FetchError err))) \<and>
     (n = 4 \<longleftrightarrow> (\<exists>st. snd (NewProxy e c) = Inr st)) \<and>
     (n \<in> {3, 4} \<longleftrightarrow> (\<exists>pem claims. ReadFile e (CACertPath c) = Inr pem \<and>
        requestToken e (KubernetesNamespace c) (service_account c) (PodName c) (PodUID c) = Inr token \<and>
        ParseJWT (parseUnverified e) token = Inr claims \<and> GetSpiffeId claims (TrustedDomain c) = Inr spiffeId))"
proof -
  consider (ca) err where "ReadFile e (CACertPath c) = Inl err"
    | (token) pem err where "ReadFile e (CACertPath c) = Inr pem"
      "requestToken e (KubernetesNamespace c) (service_account c) (PodName c) (PodUID c) = Inl err"
    | (jwt) pem token err where "ReadFile e (CACertPath c) = Inr pem"
      "requestToken e (KubernetesNamespace c) (service_account c) (PodName c) (PodUID c) = Inr token"
      "ParseJWT (parseUnverified e) token = Inl err"
    | (spiffe) pem token claims err where "ReadFile e (CACertPath c) = Inr pem"
      "requestToken e (KubernetesNamespace c) (service_account c) (PodName c) (PodUID c) = Inr token"
      "ParseJWT (parseUnverified e) token = Inr claims" "GetSpiffeId claims (TrustedDomain c) = Inl err"
    | (fetch) pem token claims spiffeId where "ReadFile e (CACertPath c) = Inr pem"
      "requestToken e (KubernetesNamespace c) (service_account c) (PodName c) (PodUID c) = Inr token"
      "ParseJWT (parseUnverified e) token = Inr claims" "GetSpiffeId claims (TrustedDomain c) = Inr spiffeId"
    by (metis old.sum.exhaust)
  then show ?thesis
  proof cases
    case ca
    then show ?thesis by (intro exI [of _ "[]"] exI [of _ 1]) (auto simp: NewProxy_def Let_def)
  next
    case token
    then show ?thesis by (intro exI [of _ "[]"] exI [of _ 2]) (auto simp: NewProxy_def Let_def)
  next
    case (jwt pem token)
    then show ?thesis by (intro exI [of _ token] exI [of _ "[]"] exI [of _ 2]) (auto simp: NewProxy_def Let_def)
  next
    case (spiffe pem token)
    then show ?thesis by (intro exI [of _ token] exI [of _ "[]"] exI [of _ 2]) (auto simp: NewProxy_def Let_def)
  next
    case (fetch pem token claims spiffeId)
    then show ?thesis
      by (intro exI [of _ token] exI [of _ spiffeId]
          exI [of _ "if isl (fetchCert e token spiffeId) then 3 else 4"])
        (auto simp: NewProxy_def Let_def split: sum.splits)
  qed
qed

text \<open>
  A started proxy survives every rotation: with the real fetcher behind it, at every moment of
  every run of its rotation goroutine there is a usable certificate, so no handler dereferences nil,
  the goroutine has not crashed, and every token it requests is for the proxy's own service account
  and pod.
\<close>

theorem proxy_survives_rotation:
  assumes "snd (NewProxy e c) = Inr st"
    and "\<And>token sp r. fetchCert e token sp = Inr r \<Longrightarrow> \<exists>rpc. Fetch rpc blocks fits token sp = Inr r"
    and "rot_run parse (st_args st) (st_rotation st) es = Some (s', calls)"
    and "\<And>r. FetchReturns (Inr r) \<in> set es \<Longrightarrow> \<exists>rpc t sp. Fetch rpc blocks fits t sp = Inr r"
  shows "rpc_at s' \<noteq> PPanic \<and> (\<exists>cert. GetCurrentCertificate (cm s') = Some cert \<and> usable_cert cert) \<and>
    fetches_fresh (st_args st) None calls \<and> ra_serviceAccount (st_args st) = service_account c \<and>
    NilDereference \<notin> set (handleOutboundConnection w ((st_proxy st)\<lparr>p_certManager := cm s'\<rparr>) podIP conn)"
proof -
  have "holds_cert (st_rotation st)" "rpc_at (st_rotation st) = PLoop" and
    sa: "ra_serviceAccount (st_args st) = service_account c"
    using assms(1,2) real_fetcher.fetch_usable
    by (fastforce simp: NewProxy_Inr_iff holds_cert_def new_manager_def)+
  moreover have ans: "list_all (real_fetcher.answered blocks fits) es"
    using assms(4) by (auto simp: list_all_iff real_fetcher.answered_def)
  ultimately have "holds_cert s'" "fetches_fresh (st_args st) None calls"
    using assms(3) by (auto intro: real_fetcher.run_holds_cert real_fetcher.run_fresh)
  moreover from this(1) have "GetCurrentCertificate (p_certManager ((st_proxy st)\<lparr>p_certManager := cm s'\<rparr>)) \<noteq> None"
    by (auto simp: holds_cert_def GetCurrentCertificate_def)
  ultimately show ?thesis
    using sa no_nil_dereference(2) by (auto simp: holds_cert_def GetCurrentCertificate_def)
qed

section \<open>A concrete start and run\<close>

definition example_env :: start_env where
  "example_env = \<lparr>ReadFile = (\<lambda>_. Inr ''pem''), pool_of_pem = (\<lambda>pem. [pem]),
     requestToken = (\<lambda>_ _ _ _. Inr ''t0''),
     parseUnverified = (\<lambda>_. Inr (IsKubernetesClaims \<lparr>Namespace = ''shop'', SAName = ''cart''\<rparr>)),
     fetchCert = Fetch (\<lambda>md sp. Inr \<lparr>resp_certificate = ''der0'', resp_private_key = ''key0'', resp_issuing_ca = [],
       resp_serial_number = [], resp_pod_uid = ''u0''\<rparr>) (\<lambda>pem. [pem]) (\<lambda>der key. True)\<rparr>"

definition example_cfg :: ProxyConfig where
  "example_cfg = (p_cfg example_proxy)\<lparr>TrustedDomain := ''td''\<rparr>"

definition example_started :: started where
  "example_started = projr (snd (NewProxy example_env example_cfg))"

lemma example_NewProxy: "snd (NewProxy example_env example_cfg) = Inr example_started"
  by (simp add: example_started_def NewProxy_def Let_def example_env_def ParseJWT_def GetSpiffeId_def
      example_cfg_def Fetch_def X509KeyPair_def example_proxy_def CreateProxyConfig_def)

lemma example_started_run:
  "\<exists>s' calls. rot_run example_parse (st_args example_started) (st_rotation example_started) example_events = Some (s', calls)"
  by (simp add: example_started_def NewProxy_def Let_def example_env_def ParseJWT_def GetSpiffeId_def
      example_cfg_def Fetch_def X509KeyPair_def example_proxy_def CreateProxyConfig_def new_manager_def
      rot_run.simps(2) example_events_def loop_head_def token_ok_def example_parse_def)

theorem proxy_survives_rotation_witness:
  "\<exists>s' calls. rot_run example_parse (st_args example_started) (st_rotation example_started) example_events =
     Some (s', calls) \<and> (\<exists>cert. GetCurrentCertificate (cm s') = Some cert \<and> usable_cert cert)"
proof -
  have real: "\<And>token sp r. fetchCert example_env token sp = Inr r \<Longrightarrow>
      \<exists>rpc. Fetch rpc (\<lambda>pem. [pem]) (\<lambda>der key. True) token sp = Inr r"
    by (auto simp: example_env_def)
  from example_started_run obtain s' calls where
    run: "rot_run example_parse (st_args example_started) (st_rotation example_started) example_events = Some (s', calls)"
    by blast
  from proxy_survives_rotation [OF example_NewProxy real run example_from_fetcher] run show ?thesis by blast
qed

definition example_peer :: tls_peer where
  "example_peer = \<lparr>peer_version = VersionTLS13,
     peer_chain = [\<lparr>Raw = ''der5'', DNSNames = [''spiffe://td/ns/shop/sa/web''], CommonName = ''web'', NotAfter = 0\<rparr>]\<rparr>"

definition example_accepts :: "accept_event list" where
  "example_accepts =
     [AcceptIn (Inr (example_world\<lparr>verify_client := (\<lambda>pool chain. pool = [''root''])\<rparr>, cm example_state, example_peer))]"

theorem run_inbound_zero_trust_witness:
  "\<exists>acts r h. Run (\<lambda>_. []) (\<lambda>_. None) None example_proxy example_accepts [] = Inr (acts, r) \<and>
     InboundHandler h \<in> set acts \<and> list_ex reaches_out h \<and>
     (\<exists>w m peer. AcceptIn (Inr (w, m, peer)) \<in> set example_accepts \<and>
        verify_client w [''root''] (peer_chain peer) \<and> VersionTLS13 \<le> peer_version peer)"
proof -
  let ?x = "(example_world\<lparr>verify_client := (\<lambda>pool chain. pool = [''root''])\<rparr>, cm example_state, example_peer)"
  let ?h = "handle_inbound RedirectMode example_proxy [] ?x"
  let ?acts = "[ListenInbound RedirectMode 0 True, ListenOutbound 0 True, InboundHandler ?h]"
  have run: "Run (\<lambda>_. []) (\<lambda>_. None) None example_proxy example_accepts [] = Inr (?acts, None)"
    by (simp add: Run_def choose_mode_def runRedirectMode_def run_intercepting_def example_accepts_def Let_def
        example_proxy_def CreateProxyConfig_def)
  moreover have out: "list_ex reaches_out ?h"
    by (simp add: handle_inbound_def Let_def inbound_reaches_iff example_world_def example_peer_def
        example_state_def GetCurrentCertificate_def example_proxy_def)
  moreover have "\<exists>w m peer. AcceptIn (Inr (w, m, peer)) \<in> set example_accepts \<and>
        verify_client w [''root''] (peer_chain peer) \<and> VersionTLS13 \<le> peer_version peer"
    using run_inbound_zero_trust [OF run _ out] by (auto simp: example_proxy_def)
  ultimately show ?thesis by (intro exI [of _ ?acts] exI [of _ None] exI [of _ ?h]) simp
qed

end
