(* ===== verification/DirectMode.thy ===== *)
theory DirectMode
  imports Proxy Logger
begin

text \<open>
  The HTTP side of \<open>internal/proxy/proxy.go\<close>: \<open>CreateProxyHandler\<close>, which direct mode serves behind
  the mutual TLS listener, and \<open>CoreHandlers\<close>, with the routing of Go's \<open>http.ServeMux\<close> for their two
  patterns. What the reverse proxy gets from the backend is a parameter.
\<close>

section \<open>Routing\<close>

text \<open>\<open>cleanPath\<close> of \<open>net/http\<close>: a rooted path without empty, dot and dot-dot segments.\<close>

fun clean_segments :: "string list \<Rightarrow> string list \<Rightarrow> string list" where
  "clean_segments st [] = rev st"
| "clean_segments st (s # ss) =
     (if s = [] \<or> s = ''.'' then clean_segments st ss
      else if s = ''..'' then clean_segments (tl st) ss
      else clean_segments (s # st) ss)"

definition cleanPath :: "string \<Rightarrow> string" where
  "cleanPath p =
     (if p = [] then ''/''
      else let p' = (if hd p = CHR ''/'' then p else CHR ''/'' # p);
               np = CHR ''/'' # join ''/'' (clean_segments [] (split_seq CHR ''/'' p'))
           in if last p' = CHR ''/'' \<and> np \<noteq> ''/'' then np @ ''/'' else np)"

datatype mux_route = BadRequest | RedirectTo string | NotFound | Healthz | Root

definition match_route :: "string \<Rightarrow> mux_route" where
  "match_route path =
     (case path of
        c # seg \<Rightarrow>
          if c \<noteq> CHR ''/'' then NotFound
          else if CHR ''/'' \<notin> set seg \<and>
            (case PathUnescape seg of Some t \<Rightarrow> t | None \<Rightarrow> seg) = ''healthz'' then Healthz
          else Root
      | [] \<Rightarrow> NotFound)"

text \<open>\<open>esc\<close> is \<open>r.URL.EscapedPath()\<close>.\<close>

definition mux_route :: "http_request \<Rightarrow> string \<Rightarrow> mux_route" where
  "mux_route r esc =
     (if RequestURI r = ''*'' then BadRequest
      else if Method r = ''CONNECT'' then match_route esc
      else if cleanPath esc \<noteq> esc then RedirectTo (cleanPath esc)
      else match_route esc)"

section \<open>Handlers\<close>

fun rw_apply :: "response_writer \<Rightarrow> rw_op list \<Rightarrow> response_writer option" where
  "rw_apply w [] = Some w"
| "rw_apply w (OpWriteHeader c # ops) =
     (case rw_WriteHeader w c of None \<Rightarrow> None | Some w' \<Rightarrow> rw_apply w' ops)"
| "rw_apply w (OpWrite p # ops) = rw_apply (rw_Write w p) ops"

definition healthz :: "rw_op list" where
  "healthz = [OpWriteHeader 200, OpWrite ''OK'']"

definition has_peer :: "http_request \<Rightarrow> bool" where
  "has_peer r \<longleftrightarrow> (case ReqTLS r of Some (_ # _) \<Rightarrow> True | _ \<Rightarrow> False)"

definition ErrorHandler :: "http_request \<Rightarrow> rw_op list" where
  "ErrorHandler r = [OpWriteHeader (if has_peer r then 401 else 502)]"

text \<open>
  The reverse proxy: \<open>backend r\<close> is the error of the round trip, or what the proxy writes of the
  backend's response.
\<close>

definition proxy_ServeHTTP :: "(http_request \<Rightarrow> (string, rw_op list) result) \<Rightarrow> http_request \<Rightarrow> rw_op list" where
  "proxy_ServeHTTP backend r = (case backend r of Inl err \<Rightarrow> ErrorHandler r | Inr ops \<Rightarrow> ops)"

text \<open>
  How a request is served: the status the client sees and whether the backend was asked.
  The mux answers by itself with 400, 301 and 404.
\<close>

record served =
  sv_response :: response_writer
  sv_logs :: "attr list option list"
  sv_backend :: bool

definition mux_answer :: "response_writer \<Rightarrow> int \<Rightarrow> served option" where
  "mux_answer w code =
     map_option (\<lambda>w'. \<lparr>sv_response = w', sv_logs = [], sv_backend = False\<rparr>) (rw_WriteHeader w code)"

definition CreateProxyHandler ::
  "(http_request \<Rightarrow> (string, rw_op list) result) \<Rightarrow> slog_handler \<Rightarrow> bytes list \<Rightarrow> int \<Rightarrow>
   response_writer \<Rightarrow> http_request \<Rightarrow> string \<Rightarrow> served option" where
  "CreateProxyHandler backend l draws duration w r esc =
     (case mux_route r esc of
        BadRequest \<Rightarrow> mux_answer w 400
      | RedirectTo p \<Rightarrow> mux_answer (w\<lparr>rw_header := hdr_Set (rw_header w) ''Location'' p\<rparr>) 301
      | NotFound \<Rightarrow> mux_answer w 404
      | Healthz \<Rightarrow> map_option (\<lambda>w'. \<lparr>sv_response = w', sv_logs = [], sv_backend = False\<rparr>) (rw_apply w healthz)
      | Root \<Rightarrow> map_option (\<lambda>(w', log). \<lparr>sv_response = w', sv_logs = [log], sv_backend = True\<rparr>)
          (Middleware (proxy_ServeHTTP backend) l draws duration w r))"

text \<open>
  \<open>CoreHandlers\<close> differs in a line it logs, at level info and under the request's context, before
  it asks the proxy it is given for the answer.
\<close>

definition allowed_line :: "slog_handler \<Rightarrow> http_request \<Rightarrow> attr list option list" where
  "allowed_line l r =
     (case ReqTLS r of
        Some (cert # _) \<Rightarrow>
          [slog_Log l (ReqCtx r) LevelInfo
            [(''client_cn'', AStr (CommonName cert)), (''method'', AStr (Method r)), (''path'', AStr (URLPath r))]]
      | _ \<Rightarrow> [])"

definition inner_ctx :: "bytes list \<Rightarrow> http_request \<Rightarrow> ctx" where
  "inner_ctx draws r =
     (let (traceID, draws1) = id_or_fresh draws (hdr_Get (ReqHeader r) TraceIDHeader);
          (requestID, _) = id_or_fresh draws1 (hdr_Get (ReqHeader r) RequestIDHeader)
      in request_ctx r traceID requestID)"

definition CoreHandlers ::
  "(http_request \<Rightarrow> rw_op list) \<Rightarrow> slog_handler \<Rightarrow> bytes list \<Rightarrow> int \<Rightarrow>
   response_writer \<Rightarrow> http_request \<Rightarrow> string \<Rightarrow> served option" where
  "CoreHandlers proxy l draws duration w r esc =
     (case mux_route r esc of
        BadRequest \<Rightarrow> mux_answer w 400
      | RedirectTo p \<Rightarrow> mux_answer (w\<lparr>rw_header := hdr_Set (rw_header w) ''Location'' p\<rparr>) 301
      | NotFound \<Rightarrow> mux_answer w 404
      | Healthz \<Rightarrow> map_option (\<lambda>w'. \<lparr>sv_response = w', sv_logs = [], sv_backend = False\<rparr>) (rw_apply w healthz)
      | Root \<Rightarrow> map_option
          (\<lambda>(w', log). \<lparr>sv_response = w', sv_logs = allowed_line l (r\<lparr>ReqCtx := inner_ctx draws r\<rparr>) @ [log],
             sv_backend = True\<rparr>)
          (Middleware proxy l draws duration w r))"

section \<open>Direct mode\<close>

text \<open>
  One request on a connection of the direct mode server: the handshake decides whether the handler
  runs at all, and with which peer certificates.
\<close>

definition direct_request ::
  "net_world \<Rightarrow> Proxy \<Rightarrow> tls_peer \<Rightarrow> (http_request \<Rightarrow> (string, rw_op list) result) \<Rightarrow> slog_handler \<Rightarrow>
   bytes list \<Rightarrow> int \<Rightarrow> response_writer \<Rightarrow> http_request \<Rightarrow> string \<Rightarrow> served option" where
  "direct_request nw p peer backend l draws duration w r esc =
     (case tls_Handshake nw p (GetInboundTLSConfig p) peer of
        None \<Rightarrow> None
      | Some chain \<Rightarrow> CreateProxyHandler backend l draws duration w (r\<lparr>ReqTLS := Some chain\<rparr>) esc)"

text \<open>
  \<open>runDirectMode\<close> ignores the error of \<open>url.Parse\<close>: the reverse proxy then holds a nil target, which it
  dereferences when a request is passed to it. \<open>None\<close> stands for a refused handshake and for a handler
  that panics: the client gets no answer in both cases.
\<close>

definition direct_serve ::
  "net_world \<Rightarrow> Proxy \<Rightarrow> tls_peer \<Rightarrow> (url \<Rightarrow> http_request \<Rightarrow> (string, rw_op list) result) \<Rightarrow> slog_handler \<Rightarrow>
   bytes list \<Rightarrow> int \<Rightarrow> response_writer \<Rightarrow> http_request \<Rightarrow> string \<Rightarrow> served option" where
  "direct_serve nw p peer backend l draws duration w r esc =
     (case url_Parse (ip_literal nw) (TargetURL (p_cfg p)) of
        Inr u \<Rightarrow> direct_request nw p peer (backend u) l draws duration w r esc
      | Inl err \<Rightarrow>
          if mux_route r esc = Root then None
          else direct_request nw p peer (\<lambda>_. Inl err) l draws duration w r esc)"

section \<open>Lemmas\<close>

definition clean_segment :: "string \<Rightarrow> bool" where
  "clean_segment s \<longleftrightarrow> s \<noteq> [] \<and> s \<noteq> ''.'' \<and> s \<noteq> ''..'' \<and> CHR ''/'' \<notin> set s"

lemma clean_segments_clean:
  "list_all clean_segment st \<Longrightarrow> \<forall>s \<in> set ss. CHR ''/'' \<notin> set s \<Longrightarrow>
     list_all clean_segment (clean_segments st ss)"
proof (induction ss arbitrary: st)
  case Nil
  then show ?case by simp
next
  case (Cons s ss)
  have "list_all clean_segment (tl st)" using Cons.prems(1) by (cases st) auto
  then show ?case using Cons by (simp add: clean_segment_def [of s])
qed

lemma split_clean_path:
  assumes "list_all clean_segment segs"
  shows "''..'' \<notin> set (split_seq CHR ''/'' (CHR ''/'' # join ''/'' segs)) \<and>
    ''..'' \<notin> set (split_seq CHR ''/'' (CHR ''/'' # join ''/'' segs @ ''/''))"
proof (cases "segs = []")
  case True
  then show ?thesis by simp
next
  case False
  have no_slash: "\<And>w. w \<in> set segs \<Longrightarrow> CHR ''/'' \<notin> set w" "''..'' \<notin> set segs"
    using assms by (auto simp: list_all_iff clean_segment_def)
  then have "split_seq CHR ''/'' (join ''/'' segs) = segs"
    using False by (intro split_seq_join)
  moreover have "split_seq CHR ''/'' (join ''/'' segs @ ''/'') = segs @ [[]]"
    using no_slash(1) False by (induction "''/''" segs rule: join.induct) (simp_all add: split_seq_append_sep)
  ultimately show ?thesis using no_slash(2) by simp
qed

lemma cleanPath_no_dotdot: "''..'' \<notin> set (split_seq CHR ''/'' (cleanPath p))"
proof (cases "p = []")
  case True
  then show ?thesis by (simp add: cleanPath_def)
next
  case False
  define q where "q = (if hd p = CHR ''/'' then p else CHR ''/'' # p)"
  let ?segs = "clean_segments [] (split_seq CHR ''/'' q)"
  have "list_all clean_segment ?segs"
    by (rule clean_segments_clean) (simp_all add: split_seq_no_sep)
  from split_clean_path [OF this] False show ?thesis
    by (simp add: cleanPath_def Let_def q_def [symmetric])
qed

lemma mux_route_TLS [simp]: "mux_route (r\<lparr>ReqTLS := c\<rparr>) esc = mux_route r esc"
  by (simp add: mux_route_def)

lemma mux_route_clean:
  "mux_route r esc = Root \<Longrightarrow> Method r \<noteq> ''CONNECT'' \<Longrightarrow> cleanPath esc = esc"
  by (auto simp: mux_route_def split: if_splits)

lemma handler_backend:
  "CreateProxyHandler backend l draws duration w r esc = Some sv \<Longrightarrow> sv_backend sv \<longleftrightarrow> mux_route r esc = Root"
  by (auto simp: CreateProxyHandler_def mux_answer_def split: mux_route.splits)

text \<open>The middleware around a handler that only writes one final status.\<close>

lemma Middleware_status:
  assumes "\<And>q. next_h q = [OpWriteHeader code]" "rw_status w = None" "200 \<le> code" "code \<le> 999"
  shows "\<exists>w' log. Middleware next_h l draws duration w r = Some (w', log) \<and> sent_status w' = code"
  using assms
  by (simp add: Middleware_def split_beta Let_def sw_WriteHeader_def rw_WriteHeader_def informational_def sent_status_def)

section \<open>Properties\<close>

text \<open>
  C38: Direct mode serves authenticated clients only, the health check included: whenever a request gets
  any answer, the client spoke TLS 1.3 with a verified chain. And to such a client every failure to
  reach the backend is reported as 401 Unauthorized.
\<close>

theorem direct_mode_authenticated:
  assumes "direct_request nw p peer backend l draws duration w r esc = Some sv" "rw_status w = None"
  shows "verify_client nw (p_caCertPool p) (peer_chain peer) \<and> peer_chain peer \<noteq> [] \<and>
    VersionTLS13 \<le> peer_version peer \<and>
    (sv_backend sv \<and> (\<forall>q. \<exists>err. backend q = Inl err) \<longrightarrow> sent_status (sv_response sv) = 401)"
proof -
  from assms(1) obtain chain where hs: "tls_Handshake nw p (GetInboundTLSConfig p) peer = Some chain"
    and sv: "CreateProxyHandler backend l draws duration w (r\<lparr>ReqTLS := Some chain\<rparr>) esc = Some sv"
    by (auto simp: direct_request_def split: option.splits)
  note peer = inbound_handshake [of nw p peer chain, THEN iffD1, OF hs]
  have "sent_status (sv_response sv) = 401" if "sv_backend sv" "\<forall>q. \<exists>err. backend q = Inl err"
  proof -
    have root: "mux_route r esc = Root" using handler_backend [OF sv] that(1) by simp
    let ?r = "r\<lparr>ReqTLS := Some chain\<rparr>"
    have ops: "proxy_ServeHTTP backend (?r\<lparr>ReqCtx := c\<rparr>) = [OpWriteHeader 401]" for c
      using that(2) [rule_format, of "?r\<lparr>ReqCtx := c\<rparr>"] peer
      by (auto simp: proxy_ServeHTTP_def ErrorHandler_def has_peer_def split: list.splits)
    have "Middleware (proxy_ServeHTTP backend) l draws duration w ?r =
        Middleware (\<lambda>_. [OpWriteHeader 401]) l draws duration w ?r"
      using ops by (simp add: Middleware_def split_beta Let_def)
    moreover obtain w' log where "Middleware (\<lambda>_. [OpWriteHeader 401]) l draws duration w ?r = Some (w', log)"
      "sent_status w' = 401"
      using Middleware_status [of "\<lambda>_. [OpWriteHeader 401]" 401 w l draws duration ?r] assms(2) by auto
    ultimately show ?thesis using sv root by (auto simp: CreateProxyHandler_def)
  qed
  with peer show ?thesis by blast
qed

text \<open>
  The backend never sees a path with a dot-dot segment: a request that both handlers pass on
  has one only if its method is CONNECT; all others are answered with a redirect to the cleaned path, and the
  health check never asks the backend.
\<close>

theorem backend_sees_clean_paths:
  assumes "CreateProxyHandler backend l draws duration w r esc = Some sv" "Method r \<noteq> ''CONNECT''"
    and "''..'' \<in> set (split_seq CHR ''/'' esc) \<or> esc = ''/healthz''"
  shows "\<not> sv_backend sv"
proof
  assume "sv_backend sv"
  then have root: "mux_route r esc = Root" using handler_backend [OF assms(1)] by simp
  from mux_route_clean [OF this assms(2)] have "cleanPath esc = esc" .
  with cleanPath_no_dotdot [of esc] assms(3) have "esc = ''/healthz''" by auto
  moreover have "PathUnescape ''healthz'' = Some ''healthz''"
    by simp
  ultimately show False
    using root by (auto simp: mux_route_def match_route_def split: if_splits)
qed

text \<open>
  Direct mode starts with an unusable target and keeps its health check green. When \<open>TARGET_URL\<close>
  does not parse, a request for the application is never answered, whoever the client and whatever the
  backend, while \<open>/healthz\<close> answers every authenticated client with 200 and the body \<open>OK\<close>.
\<close>

theorem direct_mode_nil_target:
  assumes "url_Parse (ip_literal nw) (TargetURL (p_cfg p)) = Inl err" "rw_status w = None" "rw_body w = []"
  shows "(mux_route r esc = Root \<longrightarrow> direct_serve nw p peer backend l draws duration w r esc = None) \<and>
    (mux_route r esc = Healthz \<and> tls_Handshake nw p (GetInboundTLSConfig p) peer \<noteq> None \<longrightarrow>
       (\<exists>sv. direct_serve nw p peer backend l draws duration w r esc = Some sv \<and>
          sent_status (sv_response sv) = 200 \<and> rw_body (sv_response sv) = ''OK'' \<and> \<not> sv_backend sv))"
  using assms
  by (auto simp: direct_serve_def direct_request_def CreateProxyHandler_def healthz_def rw_WriteHeader_def rw_Write_def
      informational_def sent_status_def)

section \<open>A concrete request\<close>

definition example_writer :: response_writer where
  "example_writer = \<lparr>rw_header = (\<lambda>_. None), rw_status = None, rw_info = [], rw_body = []\<rparr>"

definition example_handler :: slog_handler where
  "example_handler = BaseHandler JSONFormat LevelError False []"

theorem backend_sees_clean_paths_witness:
  "\<exists>sv. CreateProxyHandler (\<lambda>_. Inl ''refused'') example_handler [[], []] 1 example_writer example_req ''/a/../secret'' = Some sv \<and>
     \<not> sv_backend sv"
proof -
  have "\<exists>sv. CreateProxyHandler (\<lambda>_. Inl ''refused'') example_handler [[], []] 1 example_writer example_req ''/a/../secret'' = Some sv"
    by (simp add: CreateProxyHandler_def mux_route_def example_req_def cleanPath_def mux_answer_def
        rw_WriteHeader_def example_writer_def informational_def)
  then obtain sv where "CreateProxyHandler (\<lambda>_. Inl ''refused'') example_handler [[], []] 1 example_writer
      example_req ''/a/../secret'' = Some sv" by blast
  moreover from backend_sees_clean_paths [OF this] have "\<not> sv_backend sv" by (simp add: example_req_def)
  ultimately show ?thesis by blast
qed

definition example_client :: tls_peer where
  "example_client = \<lparr>peer_version = VersionTLS13,
     peer_chain = [\<lparr>Raw = ''der5'', DNSNames = [''spiffe://td/ns/shop/sa/web''], CommonName = ''web'', NotAfter = 0\<rparr>]\<rparr>"

theorem direct_mode_authenticated_witness:
  "\<exists>sv. direct_request (example_world\<lparr>verify_client := (\<lambda>_ _. True)\<rparr>) example_proxy example_client
     (\<lambda>_. Inl ''refused'') example_handler [[], []] 1 example_writer example_req ''/cart'' = Some sv \<and>
     sent_status (sv_response sv) = 401"
proof -
  let ?nw = "example_world\<lparr>verify_client := (\<lambda>_ _. True)\<rparr>"
  let ?r = "example_req\<lparr>ReqTLS := Some (peer_chain example_client)\<rparr>"
  have hs: "tls_Handshake ?nw example_proxy (GetInboundTLSConfig example_proxy) example_client =
      Some (peer_chain example_client)"
    by (simp add: inbound_handshake example_client_def example_proxy_def example_state_def GetCurrentCertificate_def)
  have root: "mux_route example_req ''/cart'' = Root"
    by (simp add: mux_route_def example_req_def cleanPath_def match_route_def)
  have "\<exists>sv. CreateProxyHandler (\<lambda>_. Inl ''refused'') example_handler [[], []] 1 example_writer ?r ''/cart'' = Some sv"
    by (simp add: CreateProxyHandler_def root Middleware_def split_beta Let_def proxy_ServeHTTP_def ErrorHandler_def
        sw_WriteHeader_def rw_WriteHeader_def example_writer_def informational_def)
  then obtain sv where sv: "CreateProxyHandler (\<lambda>_. Inl ''refused'') example_handler [[], []] 1 example_writer
      ?r ''/cart'' = Some sv" by blast
  have "direct_request ?nw example_proxy example_client (\<lambda>_. Inl ''refused'') example_handler [[], []] 1
      example_writer example_req ''/cart'' = Some sv"
    by (simp only: direct_request_def hs option.case sv)
  moreover have "sv_backend sv" using handler_backend [OF sv] root by simp
  moreover have "rw_status example_writer = None" by (simp add: example_writer_def)
  ultimately show ?thesis
    using direct_mode_authenticated [of ?nw example_proxy example_client "\<lambda>_. Inl ''refused''" example_handler
        "[[], []]" 1 example_writer example_req "''/cart''" sv] by auto
qed

theorem direct_mode_nil_target_witness:
  "direct_serve example_world (example_proxy\<lparr>p_cfg := (p_cfg example_proxy)\<lparr>TargetURL := '':3005''\<rparr>\<rparr>) example_client
     (\<lambda>_ _. Inl ''refused'') example_handler [[], []] 1 example_writer example_req ''/cart'' = None"
proof -
  have "url_Parse (ip_literal example_world) '':3005'' = Inl ''missing protocol scheme''"
    by (simp add: url_Parse_def url_parse_def Let_def ctl_byte_def is_upper_def is_lower_def)
  moreover have "mux_route example_req ''/cart'' = Root"
    by (simp add: mux_route_def example_req_def cleanPath_def match_route_def)
  ultimately show ?thesis
    using direct_mode_nil_target [of example_world "example_proxy\<lparr>p_cfg := (p_cfg example_proxy)\<lparr>TargetURL := '':3005''\<rparr>\<rparr>"]
    by (simp add: example_writer_def)
qed

end
