(* ===== verification/Mesh.thy ===== *)
theory Mesh
  imports ProxyRun
begin

text \<open>
  Two sidecars in redirect mode, \<open>A\<close> beside the calling application and \<open>B\<close> beside the called one: what
  the outbound handler of \<open>A\<close> and the inbound handler of \<open>B\<close> do together. \<open>parse\<close> reads the DER
  blocks of a certificate, which is how the chain that \<open>A\<close> presents looks to \<open>B\<close>.
\<close>

section \<open>Two sidecars\<close>

definition presented :: "(string \<Rightarrow> x509_cert) \<Rightarrow> tls_cert \<Rightarrow> tls_peer" where
  "presented parse cert =
     \<lparr>peer_version = VersionTLS13, peer_chain = List.map parse (case Certificate cert of Some ders \<Rightarrow> ders | None \<Rightarrow> [])\<rparr>"

text \<open>The requests a trace of network actions relays, and the identity it logs for them.\<close>

fun relayed :: "net_action list \<Rightarrow> http_request list" where
  "relayed [] = []"
| "relayed (RelayInbound r # as) = sent_reqs (trace r) @ relayed as"
| "relayed (RelayOutbound r # as) = sent_reqs (trace r) @ relayed as"
| "relayed (_ # as) = relayed as"

fun logged_identities :: "relay_event list \<Rightarrow> string list" where
  "logged_identities [] = []"
| "logged_identities (LogInbound ident _ _ # es) = ident # logged_identities es"
| "logged_identities (_ # es) = logged_identities es"

fun identities :: "net_action list \<Rightarrow> string list" where
  "identities [] = []"
| "identities (RelayInbound r # as) = logged_identities (trace r) @ identities as"
| "identities (_ # as) = identities as"

lemma relayed_append [simp]: "relayed (xs @ ys) = relayed xs @ relayed ys"
  by (induction xs rule: relayed.induct) auto

lemma forwardOutboundPlain_relayed:
  assumes "GetCurrentCertificate (p_certManager p) = Some cert"
    and "tls_server w (addr_str dst) = Some peer" "VersionTLS13 \<le> peer_version peer" "peer_chain peer \<noteq> []"
    and "client_stream w = [Inr req]"
  shows "relayed (forwardOutboundPlain w p dst) = [rewrite_req req]"
proof -
  have "tls_Dial w (addr_str dst) (outbound_literal p cert)"
    using assms(2-4) by (simp add: tls_Dial_def client_handshake_def)
  moreover have "sent_reqs (trace (proxyOutboundHTTPRequests (relay_outcomes w) [Inr req])) = [rewrite_req req]"
    using outbound_one_exchange [of "relay_outcomes w" "[Inr req]"] by (simp add: one_exchange_def)
  ultimately show ?thesis
    using assms(1,5) by (simp add: forwardOutboundPlain_def Let_def)
qed

lemma handleRedirected_relayed:
  assumes "tls_Handshake w p (GetInboundTLSConfig p) peer = Some (cert # chain)"
    and "url_Host w (TargetURL (p_cfg p)) = Inr host" "app_dial w host" "client_stream w = [Inr req]"
  shows "relayed (handleRedirectedConnection w p (TLSConn (GetInboundTLSConfig p) peer)) = [rewrite_req req] \<and>
    identities (handleRedirectedConnection w p (TLSConn (GetInboundTLSConfig p) peer)) = [ExtractIdentity cert]"
proof -
  have "sent_reqs (trace (proxyInboundHTTPRequests (relay_outcomes w) (cert # chain) [Inr req])) = [rewrite_req req]"
    using inbound_one_exchange [of "relay_outcomes w" "[Inr req]" "cert # chain"] by (simp add: one_exchange_def)
  moreover have "logged_identities (trace (proxyInboundHTTPRequests (relay_outcomes w) (cert # chain) [Inr req])) =
      [ExtractIdentity cert]"
    by (rule relay_cases [where reqs = "[Inr req]" and io = "relay_outcomes w"])
      (auto simp: relay_defs peer_identity_def)
  ultimately show ?thesis
    using assms by (simp add: handleRedirectedConnection_def forwardLocalApp_def)
qed

section \<open>Properties\<close>

text \<open>
  From application to application. When \<open>A\<close> connects to \<open>B\<close>, the chain of the certificate \<open>A\<close> holds
  verifies against \<open>B\<close>'s CA pool, and \<open>B\<close> reads the request \<open>A\<close> wrote, the called application gets exactly the
  caller's request, once, and \<open>B\<close> logs it under the identity of \<open>A\<close>'s certificate.
\<close>

theorem mesh_delivers_request:
  assumes "GetCurrentCertificate (p_certManager pA) = Some certA" "Certificate certA = Some (der # ders)"
    and "GetCurrentCertificate (p_certManager pB) = Some certB" "usable_cert certB"
    and "tls_server wA (addr_str dst) = Some (presented parse certB)"
    and "verify_client wB (p_caCertPool pB) (List.map parse (der # ders))"
    and "url_Host wB (TargetURL (p_cfg pB)) = Inr host" "app_dial wB host"
    and "client_stream wA = [Inr req]" "client_stream wB = [Inr req']" "rewrite_req req' = rewrite_req req"
  shows "relayed (forwardOutboundPlain wA pA dst) = [rewrite_req req] \<and>
    relayed (handleRedirectedConnection wB pB (TLSConn (GetInboundTLSConfig pB) (presented parse certA))) =
      [rewrite_req req] \<and>
    identities (handleRedirectedConnection wB pB (TLSConn (GetInboundTLSConfig pB) (presented parse certA))) =
      [ExtractIdentity (parse der)]"
proof -
  have "peer_chain (presented parse certB) \<noteq> []" "VersionTLS13 \<le> peer_version (presented parse certB)"
    using assms(4) by (auto simp: presented_def usable_cert_def split: option.splits list.splits)
  with assms have "relayed (forwardOutboundPlain wA pA dst) = [rewrite_req req]"
    by (intro forwardOutboundPlain_relayed)
  moreover have "tls_Handshake wB pB (GetInboundTLSConfig pB) (presented parse certA) =
      Some (parse der # List.map parse ders)"
    using assms(2,3,6) by (simp add: inbound_handshake presented_def)
  ultimately show ?thesis
    using handleRedirected_relayed [of wB pB _ "parse der" "List.map parse ders" host req'] assms by auto
qed

text \<open>
  C30: The caller does not know whom it talks to: whichever TLS 1.3 server answers at the address, with
  any certificate at all and even if chain verification rejects it for every name, gets the
  application's request.
\<close>

theorem rogue_server_gets_request:
  assumes "GetCurrentCertificate (p_certManager p) = Some cert"
    and "tls_server w (addr_str dst) = Some rogue" "VersionTLS13 \<le> peer_version rogue" "peer_chain rogue \<noteq> []"
    and "\<And>pool name. \<not> verify_server w pool name (peer_chain rogue)"
    and "client_stream w = [Inr req]"
  shows "relayed (forwardOutboundPlain w p dst) = [rewrite_req req] \<and>
    \<not> tls_Dial w (addr_str dst) (getOutboundTLSConfig p name)"
  using forwardOutboundPlain_relayed [OF assms(1-4,6)] assms(2,5)
  by (simp add: tls_Dial_def client_handshake_def)

section \<open>A concrete mesh\<close>

definition example_parse_cert :: "string \<Rightarrow> x509_cert" where
  "example_parse_cert der = \<lparr>Raw = der, DNSNames = [''spiffe://td/ns/shop/sa/'' @ der], CommonName = der, NotAfter = 0\<rparr>"

definition example_wB :: net_world where
  "example_wB = example_world\<lparr>verify_client := (\<lambda>pool chain. pool = [''root''])\<rparr>"

definition example_wA :: net_world where
  "example_wA = example_world\<lparr>tls_server := (\<lambda>_. Some (presented example_parse_cert
     \<lparr>Certificate = Some [''der0''], PrivateKey = ''key0''\<rparr>))\<rparr>"

theorem mesh_delivers_request_witness:
  "relayed (forwardOutboundPlain example_wA example_proxy \<lparr>IP = [10, 0, 0, 7], Port = 8080\<rparr>) = [rewrite_req example_req] \<and>
   identities (handleRedirectedConnection example_wB example_proxy
     (TLSConn (GetInboundTLSConfig example_proxy)
        (presented example_parse_cert \<lparr>Certificate = Some [''der0''], PrivateKey = ''key0''\<rparr>))) =
     [''spiffe://td/ns/shop/sa/der0'']"
  using mesh_delivers_request [of example_proxy "\<lparr>Certificate = Some [''der0''], PrivateKey = ''key0''\<rparr>" "''der0''" "[]"
      example_proxy "\<lparr>Certificate = Some [''der0''], PrivateKey = ''key0''\<rparr>" example_wA
      "\<lparr>IP = [10, 0, 0, 7], Port = 8080\<rparr>" example_parse_cert example_wB "''localhost:3005''" example_req example_req]
  by (simp add: example_proxy_def example_state_def GetCurrentCertificate_def usable_cert_def example_wA_def
      example_wB_def example_world_def ExtractIdentity_def example_parse_cert_def HasPrefix_def)

theorem rogue_server_gets_request_witness:
  "relayed (forwardOutboundPlain example_world example_proxy \<lparr>IP = [10, 0, 0, 7], Port = 8080\<rparr>) = [rewrite_req example_req]"
  using rogue_server_gets_request [of example_proxy "\<lparr>Certificate = Some [''der0''], PrivateKey = ''key0''\<rparr>" example_world
      "\<lparr>IP = [10, 0, 0, 7], Port = 8080\<rparr>" "the (tls_server example_world [])" example_req]
  by (simp add: example_proxy_def example_state_def GetCurrentCertificate_def example_world_def)

end
