(* ===== verification/Firewall.thy ===== *)
theory Firewall
  imports GoLib
begin

text \<open>
  \<open>sentinel-init/cmd/main.go\<close>: the init container that installs the packet rules which send a
  pod's traffic to the sidecar. The rule lists are built as text, exactly as the program builds
  them, and shown to be renderings of structured rules; the fate of a packet is computed
  from these with the documented traversal of \<open>iptables\<close> (rules of a chain in order, the first
  match decides, RETURN goes back to the calling chain), whose match conditions are a parameter.
\<close>

section \<open>Flags\<close>

record init_flags =
  f_mode :: string
  f_inboundPort :: int
  f_outboundPort :: int
  f_servicePort :: string
  f_proxyUID :: int
  f_proxyMark :: int
  f_excludePorts :: string
  f_dryRun :: bool

definition default_flags :: init_flags where
  "default_flags = \<lparr>f_mode = ''TPROXY'', f_inboundPort = 15006, f_outboundPort = 15001,
     f_servicePort = ''3005'', f_proxyUID = 1337, f_proxyMark = 0x111, f_excludePorts = [], f_dryRun = False\<rparr>"

section \<open>The rules as text\<close>

definition excluded :: "init_flags \<Rightarrow> string list" where
  "excluded f = filter (\<lambda>port. port \<noteq> []) (split_seq CHR '','' (f_excludePorts f))"

definition mangle_exclude :: "string \<Rightarrow> string" where
  "mangle_exclude port = ''iptables -t mangle -A SENTINEL_INBOUND -p tcp --dport '' @ port @ '' -j RETURN''"

definition nat_exclude :: "string \<Rightarrow> string" where
  "nat_exclude port = ''iptables -t nat -A SENTINEL_OUTPUT -p tcp --dport '' @ port @ '' -j RETURN''"

definition owner_rule :: "init_flags \<Rightarrow> string" where
  "owner_rule f = ''iptables -t nat -A SENTINEL_OUTPUT -m owner --uid-owner '' @ int_str (f_proxyUID f) @ '' -j RETURN''"

definition to_ports :: "string \<Rightarrow> int \<Rightarrow> string" where
  "to_ports c n = ''iptables -t nat -A '' @ c @ '' -p tcp -j REDIRECT --to-ports '' @ int_str n"

definition tproxy_catch_all :: "init_flags \<Rightarrow> string" where
  "tproxy_catch_all f =
     ''iptables -t mangle -A SENTINEL_INBOUND -p tcp -j TPROXY --on-port '' @ int_str (f_inboundPort f) @
     '' --on-ip 0.0.0.0 --tproxy-mark '' @ ''0x'' @ hex_str (f_proxyMark f) @ ''/0xfff''"

definition buildTProxyRules :: "init_flags \<Rightarrow> string list" where
  "buildTProxyRules f =
     [''iptables -t mangle -N SENTINEL_INBOUND'',
      ''iptables -t nat -F'',
      ''iptables -t nat -N SENTINEL_OUTPUT'',
      owner_rule f] @
     List.map mangle_exclude [''443'', ''9090''] @
     List.map nat_exclude [f_servicePort f, ''443'', ''9090''] @
     concat (List.map (\<lambda>port. [mangle_exclude port, nat_exclude port]) (excluded f)) @
     [''iptables -t mangle -A PREROUTING -p tcp -j SENTINEL_INBOUND'',
      ''iptables -t mangle -A SENTINEL_INBOUND -m conntrack --ctstate ESTABLISHED,RELATED -j RETURN'',
      tproxy_catch_all f,
      ''iptables -t nat -A SENTINEL_OUTPUT -m conntrack --ctstate ESTABLISHED,RELATED -j RETURN'',
      ''iptables -t nat -A OUTPUT -p tcp --dport 443 -j RETURN'',
      ''iptables -t nat -A OUTPUT -p tcp -j SENTINEL_OUTPUT'',
      to_ports ''SENTINEL_OUTPUT'' (f_outboundPort f)]"

definition buildRedirectRules :: "init_flags \<Rightarrow> string list" where
  "buildRedirectRules f =
     [''iptables -t nat -F'',
      ''iptables -t nat -N SENTINEL_INBOUND'',
      ''iptables -t nat -N SENTINEL_REDIRECT'',
      ''iptables -t nat -N SENTINEL_OUTPUT'',
      ''iptables -t nat -N SENTINEL_IN_REDIRECT''] @
     List.map nat_exclude [''9090''] @
     List.map nat_exclude (excluded f) @
     [''iptables -t nat -A PREROUTING -p tcp -j SENTINEL_INBOUND'',
      ''iptables -t nat -A OUTPUT -p tcp -j SENTINEL_OUTPUT'',
      ''iptables -t nat -A SENTINEL_INBOUND -p tcp -j SENTINEL_IN_REDIRECT'',
      to_ports ''SENTINEL_IN_REDIRECT'' (f_inboundPort f),
      owner_rule f,
      ''iptables -t nat -A SENTINEL_OUTPUT -m conntrack --ctstate ESTABLISHED,RELATED -j RETURN'',
      ''iptables -t nat -A SENTINEL_OUTPUT -j SENTINEL_REDIRECT'',
      to_ports ''SENTINEL_REDIRECT'' (f_outboundPort f)]"

section \<open>Running the commands\<close>

datatype init_event =
    Exec "string list" bool \<comment> \<open>an argument vector and whether it succeeded\<close>
  | LogInfo string
  | LogWarn string
  | LogDebug string

definition findIptables :: "(string \<Rightarrow> bool) \<Rightarrow> string" where
  "findIptables lookPath =
     (case filter lookPath [''/usr/sbin/iptables'', ''/usr/bin/iptables'', ''/sbin/iptables'', ''/bin/iptables'', ''iptables''] of
        p # _ \<Rightarrow> p
      | [] \<Rightarrow> ''iptables'')"

text \<open>One rule of \<open>setupIPTables\<close>: a failing command is logged and skipped.\<close>

definition run_rule :: "(string list \<Rightarrow> bool) \<Rightarrow> string \<Rightarrow> string \<Rightarrow> init_event list" where
  "run_rule exec path rule =
     (case Fields rule of
        a # b # rest \<Rightarrow>
          let argv = path # b # rest
          in if exec argv then [Exec argv True, LogInfo ''iptables rule applied'']
             else [Exec argv False, LogWarn ''iptables command failed (continuing anyway)'']
      | _ \<Rightarrow> [])"

definition setupIPTables ::
  "init_flags \<Rightarrow> (string \<Rightarrow> bool) \<Rightarrow> (string list \<Rightarrow> bool) \<Rightarrow> init_event list \<times> string option" where
  "setupIPTables f lookPath exec =
     (let rules = (if f_mode f = ''TPROXY'' then buildTProxyRules f else buildRedirectRules f);
          path = findIptables lookPath;
          used = LogInfo ''using iptables''
      in if f_dryRun f then ([used, LogInfo ''DRY RUN applying rules''], None)
         else (used # concat (List.map (run_rule exec path) rules), None))"

definition routing_rules :: "init_flags \<Rightarrow> string list" where
  "routing_rules f =
     [''ip rule add fwmark 0x'' @ hex_str (f_proxyMark f) @ '' lookup 100'',
      ''ip route add local 0.0.0.0/0 dev lo table 100'']"

definition run_route :: "(string list \<Rightarrow> bool) \<Rightarrow> string \<Rightarrow> init_event list" where
  "run_route exec rule =
     (case Fields rule of
        a # b # rest \<Rightarrow>
          if exec (a # b # rest) then [Exec (a # b # rest) True]
          else [Exec (a # b # rest) False, LogDebug ''routing command output'']
      | _ \<Rightarrow> [])"

definition setupRouting :: "init_flags \<Rightarrow> (string list \<Rightarrow> bool) \<Rightarrow> init_event list \<times> string option" where
  "setupRouting f exec =
     (concat (List.map (run_route exec) (routing_rules f)) @ [LogInfo ''routing rules applied for TPROXY''], None)"

text \<open>\<open>main\<close> after the flags are parsed and the logger is there.\<close>

definition init_main :: "init_flags \<Rightarrow> (string \<Rightarrow> bool) \<Rightarrow> (string list \<Rightarrow> bool) \<Rightarrow> init_event list" where
  "init_main f lookPath exec =
     (let (evs, err) = setupIPTables f lookPath exec;
          warn = (case err of None \<Rightarrow> [] | Some e \<Rightarrow> [LogWarn ''iptables setup warning - continuing anyway'']);
          routing =
            (if f_mode f = ''TPROXY'' then
               (let (evs', err') = setupRouting f exec
                in evs' @ (case err' of None \<Rightarrow> []
                   | Some e \<Rightarrow> [LogWarn ''routing setup warning - TPROXY may not work without routing rules'']))
             else [])
      in [LogInfo ''running in mode''] @ evs @ warn @ routing @ [LogInfo ''iptables rules applied successfully''])"

section \<open>The rules as structures\<close>

datatype fw_match = AnyPacket | Tcp | TcpPort string | OwnedBy int | Established

datatype fw_target = Return | RedirectPort int | TProxyPort int int | Jump string

datatype fw_cmd =
    NewChain string string
  | Flush string
  | Append string string fw_match fw_target

fun render_match :: "fw_match \<Rightarrow> string list" where
  "render_match AnyPacket = []"
| "render_match Tcp = [''-p'', ''tcp'']"
| "render_match (TcpPort p) = [''-p'', ''tcp'', ''--dport'', p]"
| "render_match (OwnedBy u) = [''-m'', ''owner'', ''--uid-owner'', int_str u]"
| "render_match Established = [''-m'', ''conntrack'', ''--ctstate'', ''ESTABLISHED,RELATED'']"

fun render_target :: "fw_target \<Rightarrow> string list" where
  "render_target Return = [''-j'', ''RETURN'']"
| "render_target (RedirectPort n) = [''-j'', ''REDIRECT'', ''--to-ports'', int_str n]"
| "render_target (TProxyPort n m) = [''-j'', ''TPROXY'', ''--on-port'', int_str n, ''--on-ip'', ''0.0.0.0'',
     ''--tproxy-mark'', ''0x'' @ hex_str m @ ''/0xfff'']"
| "render_target (Jump c) = [''-j'', c]"

fun render :: "fw_cmd \<Rightarrow> string list" where
  "render (NewChain t c) = [''iptables'', ''-t'', t, ''-N'', c]"
| "render (Flush t) = [''iptables'', ''-t'', t, ''-F'']"
| "render (Append t c m tg) = [''iptables'', ''-t'', t, ''-A'', c] @ render_match m @ render_target tg"

definition tproxy_spec :: "init_flags \<Rightarrow> fw_cmd list" where
  "tproxy_spec f =
     [NewChain ''mangle'' ''SENTINEL_INBOUND'', Flush ''nat'', NewChain ''nat'' ''SENTINEL_OUTPUT'',
      Append ''nat'' ''SENTINEL_OUTPUT'' (OwnedBy (f_proxyUID f)) Return] @
     List.map (\<lambda>p. Append ''mangle'' ''SENTINEL_INBOUND'' (TcpPort p) Return) [''443'', ''9090''] @
     List.map (\<lambda>p. Append ''nat'' ''SENTINEL_OUTPUT'' (TcpPort p) Return) [f_servicePort f, ''443'', ''9090''] @
     concat (List.map (\<lambda>p. [Append ''mangle'' ''SENTINEL_INBOUND'' (TcpPort p) Return,
       Append ''nat'' ''SENTINEL_OUTPUT'' (TcpPort p) Return]) (excluded f)) @
     [Append ''mangle'' ''PREROUTING'' Tcp (Jump ''SENTINEL_INBOUND''),
      Append ''mangle'' ''SENTINEL_INBOUND'' Established Return,
      Append ''mangle'' ''SENTINEL_INBOUND'' Tcp (TProxyPort (f_inboundPort f) (f_proxyMark f)),
      Append ''nat'' ''SENTINEL_OUTPUT'' Established Return,
      Append ''nat'' ''OUTPUT'' (TcpPort ''443'') Return,
      Append ''nat'' ''OUTPUT'' Tcp (Jump ''SENTINEL_OUTPUT''),
      Append ''nat'' ''SENTINEL_OUTPUT'' Tcp (RedirectPort (f_outboundPort f))]"

definition redirect_spec :: "init_flags \<Rightarrow> fw_cmd list" where
  "redirect_spec f =
     [Flush ''nat'', NewChain ''nat'' ''SENTINEL_INBOUND'', NewChain ''nat'' ''SENTINEL_REDIRECT'',
      NewChain ''nat'' ''SENTINEL_OUTPUT'', NewChain ''nat'' ''SENTINEL_IN_REDIRECT''] @
     List.map (\<lambda>p. Append ''nat'' ''SENTINEL_OUTPUT'' (TcpPort p) Return) (''9090'' # excluded f) @
     [Append ''nat'' ''PREROUTING'' Tcp (Jump ''SENTINEL_INBOUND''),
      Append ''nat'' ''OUTPUT'' Tcp (Jump ''SENTINEL_OUTPUT''),
      Append ''nat'' ''SENTINEL_INBOUND'' Tcp (Jump ''SENTINEL_IN_REDIRECT''),
      Append ''nat'' ''SENTINEL_IN_REDIRECT'' Tcp (RedirectPort (f_inboundPort f)),
      Append ''nat'' ''SENTINEL_OUTPUT'' (OwnedBy (f_proxyUID f)) Return,
      Append ''nat'' ''SENTINEL_OUTPUT'' Established Return,
      Append ''nat'' ''SENTINEL_OUTPUT'' AnyPacket (Jump ''SENTINEL_REDIRECT''),
      Append ''nat'' ''SENTINEL_REDIRECT'' Tcp (RedirectPort (f_outboundPort f))]"

definition plain_flags :: "init_flags \<Rightarrow> bool" where
  "plain_flags f \<longleftrightarrow> plain_word (f_servicePort f) \<and> (\<forall>p \<in> set (excluded f). plain_word p)"

lemma hex_str_printable [simp]: "list_all printable (hex_str i)"
proof -
  have digit: "printable (digit_char d)" if "d < 16" for d
    using that by (simp add: printable_def of_char_digit_char)
  have "list_all printable (num_str 16 n)" for n
  proof (induction n rule: less_induct)
    case (less n)
    then show ?case
      by (cases "n < 16") (simp_all add: num_str.simps [of 16 n] digit)
  qed
  then show ?thesis by (simp add: hex_str_def) (simp add: printable_def)
qed

text \<open>A rule text is its words, joined by single spaces.\<close>

lemma Fields_of_words: "s = join '' '' ws \<Longrightarrow> list_all (\<lambda>w. plain_word w) ws \<Longrightarrow> Fields s = ws"
  by (simp add: Fields_join)

lemma Fields_mangle_exclude [simp]:
  "plain_word p \<Longrightarrow> Fields (mangle_exclude p) =
     render (Append ''mangle'' ''SENTINEL_INBOUND'' (TcpPort p) Return)"
  by (rule Fields_of_words) (auto simp: mangle_exclude_def printable_def)

lemma Fields_nat_exclude [simp]:
  "plain_word p \<Longrightarrow> Fields (nat_exclude p) = render (Append ''nat'' ''SENTINEL_OUTPUT'' (TcpPort p) Return)"
  by (rule Fields_of_words) (auto simp: nat_exclude_def printable_def)

lemma Fields_owner_rule [simp]:
  "Fields (owner_rule f) = render (Append ''nat'' ''SENTINEL_OUTPUT'' (OwnedBy (f_proxyUID f)) Return)"
  by (rule Fields_of_words) (auto simp: owner_rule_def printable_def)

lemma Fields_fixed_nat [simp]:
  "Fields ''iptables -t nat -F'' = render (Flush ''nat'')"
  "Fields ''iptables -t nat -N SENTINEL_INBOUND'' = render (NewChain ''nat'' ''SENTINEL_INBOUND'')"
  "Fields ''iptables -t nat -N SENTINEL_OUTPUT'' = render (NewChain ''nat'' ''SENTINEL_OUTPUT'')"
  "Fields ''iptables -t nat -N SENTINEL_REDIRECT'' = render (NewChain ''nat'' ''SENTINEL_REDIRECT'')"
  "Fields ''iptables -t nat -N SENTINEL_IN_REDIRECT'' = render (NewChain ''nat'' ''SENTINEL_IN_REDIRECT'')"
  "Fields ''iptables -t nat -A PREROUTING -p tcp -j SENTINEL_INBOUND'' =
     render (Append ''nat'' ''PREROUTING'' Tcp (Jump ''SENTINEL_INBOUND''))"
  "Fields ''iptables -t nat -A OUTPUT -p tcp -j SENTINEL_OUTPUT'' =
     render (Append ''nat'' ''OUTPUT'' Tcp (Jump ''SENTINEL_OUTPUT''))"
  "Fields ''iptables -t nat -A OUTPUT -p tcp --dport 443 -j RETURN'' =
     render (Append ''nat'' ''OUTPUT'' (TcpPort ''443'') Return)"
  "Fields ''iptables -t nat -A SENTINEL_INBOUND -p tcp -j SENTINEL_IN_REDIRECT'' =
     render (Append ''nat'' ''SENTINEL_INBOUND'' Tcp (Jump ''SENTINEL_IN_REDIRECT''))"
  "Fields ''iptables -t nat -A SENTINEL_OUTPUT -m conntrack --ctstate ESTABLISHED,RELATED -j RETURN'' =
     render (Append ''nat'' ''SENTINEL_OUTPUT'' Established Return)"
  "Fields ''iptables -t nat -A SENTINEL_OUTPUT -j SENTINEL_REDIRECT'' =
     render (Append ''nat'' ''SENTINEL_OUTPUT'' AnyPacket (Jump ''SENTINEL_REDIRECT''))"
  by (rule Fields_of_words; auto simp: printable_def)+

lemma Fields_fixed_mangle [simp]:
  "Fields ''iptables -t mangle -N SENTINEL_INBOUND'' = render (NewChain ''mangle'' ''SENTINEL_INBOUND'')"
  "Fields ''iptables -t mangle -A PREROUTING -p tcp -j SENTINEL_INBOUND'' =
     render (Append ''mangle'' ''PREROUTING'' Tcp (Jump ''SENTINEL_INBOUND''))"
  "Fields ''iptables -t mangle -A SENTINEL_INBOUND -m conntrack --ctstate ESTABLISHED,RELATED -j RETURN'' =
     render (Append ''mangle'' ''SENTINEL_INBOUND'' Established Return)"
  by (rule Fields_of_words; auto simp: printable_def)+

lemma Fields_ports [simp]:
  "plain_word c \<Longrightarrow> Fields (to_ports c n) = render (Append ''nat'' c Tcp (RedirectPort n))"
  "Fields (tproxy_catch_all f) =
     render (Append ''mangle'' ''SENTINEL_INBOUND'' Tcp (TProxyPort (f_inboundPort f) (f_proxyMark f)))"
  by (rule Fields_of_words; auto simp: printable_def tproxy_catch_all_def to_ports_def)+

lemma plain_literals [simp]:
  "list_all printable ''443''" "list_all printable ''9090''" "list_all printable ''SENTINEL_OUTPUT''"
  "list_all printable ''SENTINEL_REDIRECT''" "list_all printable ''SENTINEL_IN_REDIRECT''"
  by (simp_all add: printable_def)

lemma Fields_buildTProxyRules:
  assumes "plain_flags f"
  shows "List.map Fields (buildTProxyRules f) = List.map render (tproxy_spec f)"
proof -
  have "List.map Fields (concat (List.map (\<lambda>p. [mangle_exclude p, nat_exclude p]) ps)) =
      List.map render (concat (List.map (\<lambda>p. [Append ''mangle'' ''SENTINEL_INBOUND'' (TcpPort p) Return,
        Append ''nat'' ''SENTINEL_OUTPUT'' (TcpPort p) Return]) ps))"
    if "\<forall>p \<in> set ps. plain_word p" for ps
    using that by (induction ps) (simp_all del: render.simps)
  then show ?thesis
    using assms plain_literals unfolding buildTProxyRules_def tproxy_spec_def plain_flags_def
    by (simp del: render.simps)
qed

lemma Fields_buildRedirectRules:
  assumes "plain_flags f"
  shows "List.map Fields (buildRedirectRules f) = List.map render (redirect_spec f)"
proof -
  have "List.map Fields (List.map nat_exclude ps) =
      List.map render (List.map (\<lambda>p. Append ''nat'' ''SENTINEL_OUTPUT'' (TcpPort p) Return) ps)"
    if "\<forall>p \<in> set ps. plain_word p" for ps
    using that by (induction ps) (simp_all del: render.simps)
  then show ?thesis
    using assms plain_literals unfolding buildRedirectRules_def redirect_spec_def plain_flags_def
    by (simp del: render.simps)
qed

section \<open>The fate of a packet\<close>

text \<open>
  The rules of a chain, in the order they were appended, and the traversal. \<open>matches\<close> says which
  conditions a packet meets; \<open>n\<close> bounds the depth of jumps.
\<close>

fun chain :: "string \<Rightarrow> string \<Rightarrow> fw_cmd list \<Rightarrow> (fw_match \<times> fw_target) list" where
  "chain t c [] = []"
| "chain t c (Append t' c' m tg # cs) = (if t' = t \<and> c' = c then [(m, tg)] else []) @ chain t c cs"
| "chain t c (NewChain _ _ # cs) = chain t c cs"
| "chain t c (Flush _ # cs) = chain t c cs"

datatype fate = Passed | RedirectedTo int | Proxied int int | TooDeep

fun traverse ::
  "nat \<Rightarrow> (fw_match \<Rightarrow> 'p \<Rightarrow> bool) \<Rightarrow> (string \<Rightarrow> (fw_match \<times> fw_target) list) \<Rightarrow>
   (fw_match \<times> fw_target) list \<Rightarrow> 'p \<Rightarrow> fate" where
  "traverse n matches tab [] p = Passed"
| "traverse n matches tab ((m, tg) # rs) p =
     (if \<not> matches m p then traverse n matches tab rs p
      else (case tg of
          Return \<Rightarrow> Passed
        | RedirectPort k \<Rightarrow> RedirectedTo k
        | TProxyPort k mark \<Rightarrow> Proxied k mark
        | Jump c \<Rightarrow>
            (case n of
               0 \<Rightarrow> TooDeep
             | Suc k \<Rightarrow>
                 (case traverse k matches tab (tab c) p of
                    Passed \<Rightarrow> traverse n matches tab rs p
                  | r \<Rightarrow> r))))"

definition packet_fate :: "fw_cmd list \<Rightarrow> (fw_match \<Rightarrow> 'p \<Rightarrow> bool) \<Rightarrow> string \<Rightarrow> string \<Rightarrow> 'p \<Rightarrow> fate" where
  "packet_fate cmds matches t hook p = traverse 2 matches (\<lambda>c. chain t c cmds) (chain t hook cmds) p"

text \<open>What \<open>iptables\<close> documents of the conditions: a port match is a TCP match, no condition always holds.\<close>

definition documented :: "(fw_match \<Rightarrow> 'p \<Rightarrow> bool) \<Rightarrow> bool" where
  "documented matches \<longleftrightarrow> (\<forall>p. matches AnyPacket p) \<and> (\<forall>p port. matches (TcpPort port) p \<longrightarrow> matches Tcp p)"

lemma chain_append [simp]: "chain t c (xs @ ys) = chain t c xs @ chain t c ys"
  by (induction t c xs rule: chain.induct) auto

lemma chain_map_append:
  "chain t c (List.map (\<lambda>p. Append t' c' (f p) tg) ps) = (if t' = t \<and> c' = c then List.map (\<lambda>p. (f p, tg)) ps else [])"
  by (induction ps) auto

lemma chain_concat_pairs:
  "chain t c (concat (List.map (\<lambda>p. [Append t1 c1 (f p) tg, Append t2 c2 (f p) tg]) ps)) =
     concat (List.map (\<lambda>p. (if t1 = t \<and> c1 = c then [(f p, tg)] else []) @
       (if t2 = t \<and> c2 = c then [(f p, tg)] else [])) ps)"
  by (induction ps) auto

lemma concat_singletons [simp]: "concat (List.map (\<lambda>p. [g p]) ps) = List.map g ps"
  by (induction ps) auto

lemma concat_empties [simp]: "concat (List.map (\<lambda>p. []) ps) = []"
  by (induction ps) auto

lemma traverse_returns [simp]:
  "traverse n matches tab (List.map (\<lambda>x. (f x, Return)) ps @ rs) p =
     (if \<exists>x \<in> set ps. matches (f x) p then Passed else traverse n matches tab rs p)"
  by (induction ps) auto

lemma tproxy_chains:
  "chain ''mangle'' ''PREROUTING'' (tproxy_spec f) = [(Tcp, Jump ''SENTINEL_INBOUND'')]"
  "chain ''mangle'' ''SENTINEL_INBOUND'' (tproxy_spec f) =
     List.map (\<lambda>p. (TcpPort p, Return)) ([''443'', ''9090''] @ excluded f) @
     [(Established, Return), (Tcp, TProxyPort (f_inboundPort f) (f_proxyMark f))]"
  "chain ''nat'' ''OUTPUT'' (tproxy_spec f) = [(TcpPort ''443'', Return), (Tcp, Jump ''SENTINEL_OUTPUT'')]"
  "chain ''nat'' ''SENTINEL_OUTPUT'' (tproxy_spec f) =
     (OwnedBy (f_proxyUID f), Return) #
     List.map (\<lambda>p. (TcpPort p, Return)) ([f_servicePort f, ''443'', ''9090''] @ excluded f) @
     [(Established, Return), (Tcp, RedirectPort (f_outboundPort f))]"
  by (simp_all add: tproxy_spec_def chain_map_append chain_concat_pairs)

lemma redirect_chains:
  "chain ''nat'' ''PREROUTING'' (redirect_spec f) = [(Tcp, Jump ''SENTINEL_INBOUND'')]"
  "chain ''nat'' ''SENTINEL_INBOUND'' (redirect_spec f) = [(Tcp, Jump ''SENTINEL_IN_REDIRECT'')]"
  "chain ''nat'' ''SENTINEL_IN_REDIRECT'' (redirect_spec f) = [(Tcp, RedirectPort (f_inboundPort f))]"
  "chain ''nat'' ''OUTPUT'' (redirect_spec f) = [(Tcp, Jump ''SENTINEL_OUTPUT'')]"
  "chain ''nat'' ''SENTINEL_OUTPUT'' (redirect_spec f) =
     List.map (\<lambda>p. (TcpPort p, Return)) (''9090'' # excluded f) @
     [(OwnedBy (f_proxyUID f), Return), (Established, Return), (AnyPacket, Jump ''SENTINEL_REDIRECT'')]"
  "chain ''nat'' ''SENTINEL_REDIRECT'' (redirect_spec f) = [(Tcp, RedirectPort (f_outboundPort f))]"
  by (simp_all add: redirect_spec_def chain_map_append)

text \<open>Chains are created before they are used: by a rule that is appended or by a jump.\<close>

definition builtin_chains :: "(string \<times> string) list" where
  "builtin_chains = [(''mangle'', ''PREROUTING''), (''nat'', ''PREROUTING''), (''nat'', ''OUTPUT'')]"

fun usable_cmds :: "(string \<times> string) list \<Rightarrow> fw_cmd list \<Rightarrow> bool" where
  "usable_cmds known [] = True"
| "usable_cmds known (NewChain t c # cs) = ((t, c) \<notin> set known \<and> usable_cmds ((t, c) # known) cs)"
| "usable_cmds known (Flush t # cs) = usable_cmds known cs"
| "usable_cmds known (Append t c m tg # cs) =
     ((t, c) \<in> set known \<and> (case tg of Jump c' \<Rightarrow> (t, c') \<in> set known | _ \<Rightarrow> True) \<and> usable_cmds known cs)"

lemma usable_exclusions:
  "usable_cmds known (List.map (\<lambda>p. Append t c (f p) Return) ps @ cs) \<longleftrightarrow>
     (ps = [] \<or> (t, c) \<in> set known) \<and> usable_cmds known cs"
  by (induction ps) auto

lemma usable_exclusion_pairs:
  "(t, c) \<in> set known \<Longrightarrow> (t', c') \<in> set known \<Longrightarrow>
     usable_cmds known (concat (List.map (\<lambda>p. [Append t c (f p) Return, Append t' c' (f p) Return]) ps) @ cs) =
     usable_cmds known cs"
  by (induction ps) auto

section \<open>What is executed\<close>

fun argvs :: "init_event list \<Rightarrow> string list list" where
  "argvs [] = []"
| "argvs (Exec argv _ # es) = argv # argvs es"
| "argvs (_ # es) = argvs es"

lemma argvs_append [simp]: "argvs (xs @ ys) = argvs xs @ argvs ys"
  by (induction xs rule: argvs.induct) auto

lemma argvs_concat: "argvs (concat (List.map g rs)) = concat (List.map (\<lambda>r. argvs (g r)) rs)"
  by (induction rs) auto

lemma argvs_run_rule:
  "argvs (run_rule exec path rule) =
     (case Fields rule of a # b # rest \<Rightarrow> [path # b # rest] | _ \<Rightarrow> [])"
  by (auto simp: run_rule_def Let_def split: list.splits)

lemma argvs_run_route:
  "argvs (run_route exec rule) = (case Fields rule of a # b # rest \<Rightarrow> [a # b # rest] | _ \<Rightarrow> [])"
  by (auto simp: run_route_def split: list.splits)

lemma argvs_rules:
  assumes "List.map Fields rules = List.map render cmds"
  shows "argvs (concat (List.map (run_rule exec path) rules)) = List.map (\<lambda>c. path # tl (render c)) cmds"
  using assms
proof (induction cmds arbitrary: rules)
  case Nil
  then show ?case by simp
next
  case (Cons c cmds)
  from Cons.prems obtain r rs where rs: "rules = r # rs" "Fields r = render c"
    "List.map Fields rs = List.map render cmds" by auto
  then show ?case using Cons.IH [OF rs(3)] by (cases c) (simp_all add: argvs_run_rule)
qed

definition routing_argvs :: "init_flags \<Rightarrow> string list list" where
  "routing_argvs f =
     [[''ip'', ''rule'', ''add'', ''fwmark'', ''0x'' @ hex_str (f_proxyMark f), ''lookup'', ''100''],
      [''ip'', ''route'', ''add'', ''local'', ''0.0.0.0/0'', ''dev'', ''lo'', ''table'', ''100'']]"

lemma Fields_routing: "List.map Fields (routing_rules f) = routing_argvs f"
proof -
  have "Fields (''ip rule add fwmark 0x'' @ hex_str (f_proxyMark f) @ '' lookup 100'') =
      [''ip'', ''rule'', ''add'', ''fwmark'', ''0x'' @ hex_str (f_proxyMark f), ''lookup'', ''100'']"
    by (rule Fields_of_words) (auto simp: printable_def)
  moreover have "Fields ''ip route add local 0.0.0.0/0 dev lo table 100'' =
      [''ip'', ''route'', ''add'', ''local'', ''0.0.0.0/0'', ''dev'', ''lo'', ''table'', ''100'']"
    by (rule Fields_of_words) (auto simp: printable_def)
  ultimately show ?thesis unfolding routing_rules_def routing_argvs_def by (simp only: list.map)
qed

lemma argvs_setupRouting: "argvs (fst (setupRouting f exec)) = routing_argvs f"
proof -
  have "argvs (concat (List.map (run_route exec) (routing_rules f))) =
      concat (List.map (\<lambda>ws. case ws of a # b # rest \<Rightarrow> [a # b # rest] | _ \<Rightarrow> []) (List.map Fields (routing_rules f)))"
    by (simp add: argvs_concat argvs_run_route comp_def)
  then show ?thesis
    unfolding Fields_routing by (simp add: setupRouting_def routing_argvs_def)
qed

lemma argvs_setupIPTables:
  assumes "plain_flags f"
  shows "argvs (fst (setupIPTables f lookPath exec)) =
    (if f_dryRun f then []
     else List.map (\<lambda>c. findIptables lookPath # tl (render c))
       (if f_mode f = ''TPROXY'' then tproxy_spec f else redirect_spec f))"
  using argvs_rules [OF Fields_buildTProxyRules [OF assms]] argvs_rules [OF Fields_buildRedirectRules [OF assms]]
  by (simp add: setupIPTables_def Let_def)

lemma argvs_init_main:
  "argvs (init_main f lookPath exec) =
     argvs (fst (setupIPTables f lookPath exec)) @ (if f_mode f = ''TPROXY'' then routing_argvs f else [])"
proof -
  have "snd (setupIPTables f lookPath exec) = None" by (simp add: setupIPTables_def Let_def)
  moreover have "snd (setupRouting f exec) = None" by (simp add: setupRouting_def)
  ultimately show ?thesis
    using argvs_setupRouting [of f exec] by (simp add: init_main_def Let_def split_beta)
qed

lemma redirect_fate:
  assumes "documented matches"
  shows "packet_fate (redirect_spec f) matches ''nat'' ''PREROUTING'' p =
      (if matches Tcp p then RedirectedTo (f_inboundPort f) else Passed) \<and>
    packet_fate (redirect_spec f) matches ''nat'' ''OUTPUT'' p =
      (if matches Tcp p \<and> (\<forall>q \<in> set (''9090'' # excluded f). \<not> matches (TcpPort q) p) \<and>
          \<not> matches (OwnedBy (f_proxyUID f)) p \<and> \<not> matches Established p
       then RedirectedTo (f_outboundPort f) else Passed)"
  using assms
  by (simp add: packet_fate_def redirect_chains documented_def numeral_2_eq_2 split: fate.split)

lemma tproxy_fate:
  assumes "documented matches"
  shows "packet_fate (tproxy_spec f) matches ''mangle'' ''PREROUTING'' p =
      (if matches Tcp p \<and> (\<forall>q \<in> set ([''443'', ''9090''] @ excluded f). \<not> matches (TcpPort q) p) \<and>
          \<not> matches Established p
       then Proxied (f_inboundPort f) (f_proxyMark f) else Passed) \<and>
    packet_fate (tproxy_spec f) matches ''nat'' ''OUTPUT'' p =
      (if matches Tcp p \<and> (\<forall>q \<in> set ([f_servicePort f, ''443'', ''9090''] @ excluded f). \<not> matches (TcpPort q) p) \<and>
          \<not> matches (OwnedBy (f_proxyUID f)) p \<and> \<not> matches Established p
       then RedirectedTo (f_outboundPort f) else Passed)"
  using assms
  by (simp add: packet_fate_def tproxy_chains documented_def numeral_2_eq_2 split: fate.split)

section \<open>Properties\<close>

text \<open>
  The redirect rules do what they are for. The texts the program builds are the renderings of
  \<open>redirect_spec\<close>, and under these every TCP packet that arrives is sent to the inbound port, without any
  exclusion (health probes and \<open>-excludePorts\<close> included), and a TCP packet that leaves is sent to the
  outbound port exactly when it is not for port 9090 or an excluded port, does not belong to the
  proxy's own user and does not belong to an established connection. So the proxy's own traffic
  is never sent back to it.
\<close>

theorem redirect_packet_fates:
  assumes "documented matches" "plain_flags f"
  shows "List.map Fields (buildRedirectRules f) = List.map render (redirect_spec f) \<and>
    packet_fate (redirect_spec f) matches ''nat'' ''PREROUTING'' p =
      (if matches Tcp p then RedirectedTo (f_inboundPort f) else Passed) \<and>
    packet_fate (redirect_spec f) matches ''nat'' ''OUTPUT'' p =
      (if matches Tcp p \<and> (\<forall>q \<in> set (''9090'' # excluded f). \<not> matches (TcpPort q) p) \<and>
          \<not> matches (OwnedBy (f_proxyUID f)) p \<and> \<not> matches Established p
       then RedirectedTo (f_outboundPort f) else Passed)"
  using redirect_fate [OF assms(1)] Fields_buildRedirectRules [OF assms(2)] by blast

text \<open>
  The TPROXY rules do what they are for. The texts are the renderings of \<open>tproxy_spec\<close>, and
  under these every new TCP packet that arrives goes to the inbound port unless its port is
  443, 9090 or excluded by flag; the application's own port is not excluded. A new TCP packet that
  leaves goes to the outbound port unless it belongs to the proxy's user or its port is the
  application's, 443, 9090 or excluded by flag.
\<close>

theorem tproxy_packet_fates:
  assumes "documented matches" "plain_flags f"
  shows "List.map Fields (buildTProxyRules f) = List.map render (tproxy_spec f) \<and>
    packet_fate (tproxy_spec f) matches ''mangle'' ''PREROUTING'' p =
      (if matches Tcp p \<and> (\<forall>q \<in> set ([''443'', ''9090''] @ excluded f). \<not> matches (TcpPort q) p) \<and>
          \<not> matches Established p
       then Proxied (f_inboundPort f) (f_proxyMark f) else Passed) \<and>
    packet_fate (tproxy_spec f) matches ''nat'' ''OUTPUT'' p =
      (if matches Tcp p \<and> (\<forall>q \<in> set ([f_servicePort f, ''443'', ''9090''] @ excluded f). \<not> matches (TcpPort q) p) \<and>
          \<not> matches (OwnedBy (f_proxyUID f)) p \<and> \<not> matches Established p
       then RedirectedTo (f_outboundPort f) else Passed)"
  using tproxy_fate [OF assms(1)] Fields_buildTProxyRules [OF assms(2)] by blast

text \<open>
  The argument vectors that reach \<open>exec\<close>: for flags whose port texts are single words, the init
  container runs exactly the structured rules, in their order, with the \<open>iptables\<close> it found, and
  then in TPROXY mode the two routing commands; every chain is created before a rule or a jump uses it.
\<close>

theorem init_runs_the_rules:
  assumes "plain_flags f" "\<not> f_dryRun f"
  shows "let cmds = (if f_mode f = ''TPROXY'' then tproxy_spec f else redirect_spec f) in
    argvs (init_main f lookPath exec) =
      List.map (\<lambda>c. findIptables lookPath # tl (render c)) cmds @
      (if f_mode f = ''TPROXY'' then routing_argvs f else []) \<and>
    usable_cmds builtin_chains cmds"
proof -
  have "usable_cmds builtin_chains (tproxy_spec f)"
    by (simp add: tproxy_spec_def builtin_chains_def usable_exclusion_pairs)
  moreover have "usable_cmds builtin_chains (redirect_spec f)"
    by (simp add: redirect_spec_def builtin_chains_def usable_exclusions)
  ultimately show ?thesis
    using argvs_setupIPTables [OF assms(1)] assms(2) by (simp add: argvs_init_main Let_def)
qed

text \<open>
  C37: The init container fails open: whatever its commands return, it runs the same commands, reports
  no error, and ends by logging that the rules were applied.
\<close>

theorem init_fails_open:
  "argvs (init_main f lookPath exec) = argvs (init_main f lookPath (\<lambda>_. True)) \<and>
   snd (setupIPTables f lookPath exec) = None \<and>
   last (init_main f lookPath exec) = LogInfo ''iptables rules applied successfully''"
proof -
  have "argvs (concat (List.map (run_rule exec path) rules)) =
      argvs (concat (List.map (run_rule (\<lambda>_. True) path) rules))" for path rules
    by (simp add: argvs_concat argvs_run_rule)
  then have "argvs (fst (setupIPTables f lookPath exec)) = argvs (fst (setupIPTables f lookPath (\<lambda>_. True)))"
    by (simp add: setupIPTables_def Let_def)
  then show ?thesis
    by (simp add: argvs_init_main) (simp add: init_main_def setupIPTables_def Let_def split_beta)
qed

text \<open>
  A dry run still changes the host: in TPROXY mode the routing rule and route are added although
  \<open>-dryRun\<close> promises to print the rules without applying them.
\<close>

theorem dry_run_still_routes:
  assumes "f_dryRun f"
  shows "argvs (init_main f lookPath exec) = (if f_mode f = ''TPROXY'' then routing_argvs f else [])"
  using assms by (simp add: argvs_init_main) (simp add: setupIPTables_def Let_def)

section \<open>A concrete packet\<close>

text \<open>A packet is its destination port and the user that owns it; the proxy's user is 1337.\<close>

fun example_matches :: "fw_match \<Rightarrow> string \<times> int \<Rightarrow> bool" where
  "example_matches AnyPacket _ = True"
| "example_matches Tcp _ = True"
| "example_matches (TcpPort q) p = (fst p = q)"
| "example_matches (OwnedBy u) p = (snd p = u)"
| "example_matches Established p = False"

lemma example_documented: "documented example_matches"
  by (simp add: documented_def)

lemma example_plain: "plain_flags default_flags"
  by (simp add: plain_flags_def default_flags_def excluded_def printable_def)

theorem redirect_packet_fates_witness:
  "packet_fate (redirect_spec default_flags) example_matches ''nat'' ''OUTPUT'' (''8080'', 1000) = RedirectedTo 15001 \<and>
   packet_fate (redirect_spec default_flags) example_matches ''nat'' ''OUTPUT'' (''8080'', 1337) = Passed"
  using redirect_packet_fates [OF example_documented example_plain, of "(''8080'', 1000)"]
    redirect_packet_fates [OF example_documented example_plain, of "(''8080'', 1337)"]
  by (simp add: default_flags_def excluded_def)

theorem tproxy_packet_fates_witness:
  "packet_fate (tproxy_spec default_flags) example_matches ''mangle'' ''PREROUTING'' (''3005'', 0) = Proxied 15006 0x111 \<and>
   packet_fate (tproxy_spec default_flags) example_matches ''nat'' ''OUTPUT'' (''3005'', 0) = Passed"
  using tproxy_packet_fates [OF example_documented example_plain, of "(''3005'', 0)"]
  by (simp add: default_flags_def excluded_def)

theorem init_runs_the_rules_witness:
  "hd (argvs (init_main default_flags (\<lambda>_. False) (\<lambda>_. False))) =
     [''iptables'', ''-t'', ''mangle'', ''-N'', ''SENTINEL_INBOUND'']"
  using init_runs_the_rules [OF example_plain, of "\<lambda>_. False" "\<lambda>_. False"]
  by (simp add: Let_def findIptables_def) (simp add: default_flags_def tproxy_spec_def)

theorem dry_run_still_routes_witness:
  "length (argvs (init_main (default_flags\<lparr>f_dryRun := True\<rparr>) (\<lambda>_. True) (\<lambda>_. True))) = 2"
  using dry_run_still_routes [of "default_flags\<lparr>f_dryRun := True\<rparr>" "\<lambda>_. True" "\<lambda>_. True"]
  by (simp add: default_flags_def routing_argvs_def)

end
