(* ===== verification/MainProg.thy ===== *)
theory MainProg
  imports ProxyRun
begin

text \<open>
  \<open>data-plane/cmd/main.go\<close>: the configuration it derives from the environment, the start of the
  proxy with its retries, and the way the process ends. The outcomes of the library calls and of
  every attempt of \<open>NewProxy\<close> are parameters; the trace records what matters of the order.
\<close>

section \<open>Configuration\<close>

definition logger_config :: "environ \<Rightarrow> LoggerConfig" where
  "logger_config getenv =
     (let serviceName = or_default [] ''sentinel-data-plane'' (getenv ''SERVICE_NAME'') in
      \<lparr>Level = or_default [] ''Debug'' (getenv ''LOG_LEVEL''), IsJSON = True, AddSource = False,
       AppVersion = ''0.0.1'', LogServiceName = serviceName, Env = getenv ''ENV'',
       Context = WithValue [] (''string'', ''APP_NAME'') serviceName\<rparr>)"

definition data_plane_port :: "environ \<Rightarrow> int" where
  "data_plane_port getenv = (if getenv ''PROXY_MODE'' = ''redirect'' then 15006 else 8443)"

text \<open>The logger itself was made before \<open>Env\<close> is replaced.\<close>

definition data_plane_config :: "environ \<Rightarrow> ProxyConfig" where
  "data_plane_config getenv =
     (let lc = logger_config getenv;
          lc' = (if getenv ''ENV'' = [] then lc\<lparr>Env := ''local''\<rparr> else lc)
      in Load getenv (CreateProxyConfig (data_plane_port getenv) (LogServiceName lc) lc'))"

section \<open>Starting the proxy\<close>

datatype main_event =
    TryNewProxy nat
  | LogLine string
  | Sleep10
  | RunProxy
  | DeferredConnClose
  | DeferredCleanup
  | Exit int

datatype 'p retry_end = Started 'p | ExitedAfter10 | LoopDone

text \<open>
  The retry loop, from a value of \<open>failCount\<close>; \<open>attempt i\<close> is the outcome of the \<open>i\<close>-th call of
  \<open>NewProxy\<close>, the first one before the loop being number 0.
\<close>

function retry_loop :: "(nat \<Rightarrow> ('e, 'p) result) \<Rightarrow> nat \<Rightarrow> main_event list \<times> 'p retry_end" where
  "retry_loop attempt failCount =
     (if failCount \<le> 10 then
        let n = failCount + 1;
            evs = [LogLine ''Retrying to create proxy in 10 seconds'', Sleep10, TryNewProxy n]
        in case attempt n of
             Inr p \<Rightarrow> (evs, Started p)
           | Inl err \<Rightarrow>
               if n = 10
               then (evs @ [LogLine ''failed to create proxy'',
                       LogLine ''failed to create proxy after 10 attempts, exiting...''], ExitedAfter10)
               else (let (more, r) = retry_loop attempt n
                     in (evs @ [LogLine ''failed to create proxy''] @ more, r))
      else ([], LoopDone))"
  by pat_completeness auto
termination
  by (relation "measure (\<lambda>(_, n). 11 - n)") auto

declare retry_loop.simps [simp del]

definition start_proxy :: "(nat \<Rightarrow> ('e, 'p) result) \<Rightarrow> main_event list \<times> 'p retry_end" where
  "start_proxy attempt =
     (case attempt 0 of
        Inr p \<Rightarrow> ([TryNewProxy 0], Started p)
      | Inl err \<Rightarrow>
          (let (evs, r) = retry_loop attempt 0
           in ([TryNewProxy 0, LogLine ''failed to create proxy...''] @ evs, r)))"

text \<open>
  The rest of \<open>main\<close>: \<open>run p\<close> is the error \<open>Run\<close> returns, if any. \<open>os.Exit\<close> runs no deferred
  function; a normal return runs them in reverse order. Running a nil proxy would crash; the last
  component says that this happened.
\<close>

definition data_plane_main ::
  "string option \<Rightarrow> string option \<Rightarrow> (nat \<Rightarrow> ('e, 'p) result) \<Rightarrow> ('p \<Rightarrow> string option) \<Rightarrow> main_event list \<times> bool" where
  "data_plane_main newClientErr clientsetErr attempt run =
     (case newClientErr of
        Some err \<Rightarrow> ([LogLine ''failed to connect to target'', Exit 1], False)
      | None \<Rightarrow>
          (case clientsetErr of
             Some err \<Rightarrow> ([LogLine ''failed to create clientset'', Exit 1], False)
           | None \<Rightarrow>
               (let (evs, r) = start_proxy attempt; begun = LogLine ''starting sentinel-zt proxy'' # evs in
                case r of
                  ExitedAfter10 \<Rightarrow> (begun @ [Exit 1], False)
                | LoopDone \<Rightarrow> (begun @ [RunProxy], True)
                | Started p \<Rightarrow>
                    (case run p of
                       Some err \<Rightarrow> (begun @ [RunProxy, LogLine ''proxy error'', Exit 1], False)
                     | None \<Rightarrow> (begun @ [RunProxy, DeferredConnClose, DeferredCleanup], False)))))"

section \<open>Lemmas\<close>

fun attempts :: "main_event list \<Rightarrow> nat list" where
  "attempts [] = []"
| "attempts (TryNewProxy n # es) = n # attempts es"
| "attempts (_ # es) = attempts es"

lemma attempts_append [simp]: "attempts (xs @ ys) = attempts xs @ attempts ys"
  by (induction xs rule: attempts.induct) auto

text \<open>Whether an attempt from \<open>i\<close> on succeeds, up to the tenth retry.\<close>

lemma retry_loop_success:
  assumes "k < m" "m \<le> 10" "\<And>i. k < i \<Longrightarrow> i < m \<Longrightarrow> \<exists>e. attempt i = Inl e" "attempt m = Inr p"
  shows "snd (retry_loop attempt k) = Started p \<and> attempts (fst (retry_loop attempt k)) = [Suc k..<Suc m]"
  using assms
proof (induction "m - k" arbitrary: k)
  case 0
  then show ?case by simp
next
  case (Suc d)
  show ?case
  proof (cases "Suc k = m")
    case True
    with Suc.prems show ?thesis by (simp add: retry_loop.simps [of attempt k])
  next
    case False
    with Suc.prems have less: "Suc k < m" by simp
    with Suc.prems(3) [of "Suc k"] obtain e where e: "attempt (Suc k) = Inl e" by auto
    have "snd (retry_loop attempt (Suc k)) = Started p \<and>
        attempts (fst (retry_loop attempt (Suc k))) = [Suc (Suc k)..<Suc m]"
      using Suc.hyps(2) less Suc.prems by (intro Suc.hyps(1)) auto
    then show ?thesis
      using e less Suc.prems(2)
      by (simp add: retry_loop.simps [of attempt k] split_beta Let_def upt_rec [of "Suc k"])
  qed
qed

lemma retry_loop_failure:
  assumes "k < 10" "\<And>i. k < i \<Longrightarrow> i \<le> 10 \<Longrightarrow> \<exists>e. attempt i = Inl e"
  shows "snd (retry_loop attempt k) = ExitedAfter10 \<and> attempts (fst (retry_loop attempt k)) = [Suc k..<11]"
  using assms
proof (induction "10 - k" arbitrary: k)
  case 0
  then show ?case by simp
next
  case (Suc d)
  from Suc.prems(2) [of "Suc k"] Suc.prems(1) obtain e where e: "attempt (Suc k) = Inl e" by auto
  show ?case
  proof (cases "Suc k = 10")
    case True
    then have "k = 9" by simp
    with e show ?thesis by (simp add: retry_loop.simps [of attempt 9])
  next
    case False
    with Suc.prems have less: "Suc k < 10" by simp
    have "snd (retry_loop attempt (Suc k)) = ExitedAfter10 \<and>
        attempts (fst (retry_loop attempt (Suc k))) = [Suc (Suc k)..<11]"
      using Suc.hyps(2) less Suc.prems by (intro Suc.hyps(1)) auto
    then show ?thesis
      using e less by (simp add: retry_loop.simps [of attempt k] split_beta Let_def upt_rec [of "Suc k"])
  qed
qed

text \<open>The number of the first successful attempt, if it is among the first eleven.\<close>

definition first_success :: "(nat \<Rightarrow> ('e, 'p) result) \<Rightarrow> (nat \<times> 'p) option" where
  "first_success attempt =
     (case filter (\<lambda>i. \<not> isl (attempt i)) [0..<11] of [] \<Rightarrow> None | i # _ \<Rightarrow> Some (i, projr (attempt i)))"

lemma filter_upt_Cons:
  "filter P [a..<b] = m # ms \<Longrightarrow> a \<le> m \<and> m < b \<and> P m \<and> (\<forall>i. a \<le> i \<longrightarrow> i < m \<longrightarrow> \<not> P i)"
proof (induction "b - a" arbitrary: a)
  case 0
  then show ?case by simp
next
  case (Suc d)
  then have ab: "a < b" by simp
  show ?case
  proof (cases "P a")
    case True
    with Suc.prems ab have "m = a" by (simp add: upt_conv_Cons)
    with True ab show ?thesis by simp
  next
    case False
    have "d = b - Suc a" using Suc.hyps(2) by simp
    moreover from False Suc.prems ab have "filter P [Suc a..<b] = m # ms" by (simp add: upt_conv_Cons)
    ultimately have "Suc a \<le> m \<and> m < b \<and> P m \<and> (\<forall>i. Suc a \<le> i \<longrightarrow> i < m \<longrightarrow> \<not> P i)"
      by (rule Suc.hyps(1))
    with False show ?thesis by (metis Suc_leD le_antisym not_less_eq_eq)
  qed
qed

lemma first_success_cases:
  "(first_success attempt = None \<and> (\<forall>i \<le> 10. \<exists>e. attempt i = Inl e)) \<or>
   (\<exists>m p. first_success attempt = Some (m, p) \<and> m \<le> 10 \<and> attempt m = Inr p \<and>
      (\<forall>i < m. \<exists>e. attempt i = Inl e))"
proof (cases "filter (\<lambda>i. \<not> isl (attempt i)) [0..<11]")
  case Nil
  then have "\<forall>i \<le> 10. isl (attempt i)" by (auto simp: filter_empty_conv)
  then show ?thesis using Nil by (auto simp: first_success_def isl_def)
next
  case (Cons m ms)
  from filter_upt_Cons [OF Cons] have "m < 11" "\<not> isl (attempt m)" "\<forall>i < m. isl (attempt i)" by auto
  then show ?thesis using Cons by (cases "attempt m") (auto simp: first_success_def isl_def)
qed

lemma start_proxy_first_success:
  "(case first_success attempt of
      Some (m, p) \<Rightarrow> snd (start_proxy attempt) = Started p \<and> attempts (fst (start_proxy attempt)) = [0..<Suc m]
    | None \<Rightarrow> snd (start_proxy attempt) = ExitedAfter10 \<and> attempts (fst (start_proxy attempt)) = [0..<11])"
proof -
  consider (none) "first_success attempt = None" "\<forall>i \<le> 10. \<exists>e. attempt i = Inl e"
    | (some) m p where "first_success attempt = Some (m, p)" "m \<le> 10" "attempt m = Inr p"
        "\<forall>i < m. \<exists>e. attempt i = Inl e"
    using first_success_cases [of attempt] by (elim disjE exE conjE) metis+
  then show ?thesis
  proof cases
    case none
    then obtain e where "attempt 0 = Inl e" by blast
    with none retry_loop_failure [of 0 attempt] show ?thesis
      by (simp add: start_proxy_def split_beta upt_rec [of 0])
  next
    case some
    show ?thesis
    proof (cases "m = 0")
      case True
      with some show ?thesis by (simp add: start_proxy_def)
    next
      case False
      with some obtain e where "attempt 0 = Inl e" by auto
      with some False retry_loop_success [of 0 m attempt p] show ?thesis
        by (simp add: start_proxy_def split_beta upt_rec [of 0])
    qed
  qed
qed

text \<open>Starting only tries, logs and sleeps.\<close>

fun starting :: "main_event \<Rightarrow> bool" where
  "starting (TryNewProxy n) = True"
| "starting (LogLine s) = True"
| "starting Sleep10 = True"
| "starting _ = False"

lemma retry_loop_plain: "list_all starting (fst (retry_loop attempt k))"
proof (induction attempt k rule: retry_loop.induct)
  case (1 attempt k)
  then show ?case
    by (simp add: retry_loop.simps [of attempt k] Let_def split_beta split: sum.split)
qed

lemma start_proxy_plain: "list_all starting (fst (start_proxy attempt))"
  using retry_loop_plain [of attempt 0] by (simp add: start_proxy_def split_beta split: sum.split)

section \<open>Properties\<close>

text \<open>
  The mode of the data plane is the one \<open>PROXY_MODE\<close> names: with the configuration \<open>main\<close>
  builds from any environment, \<open>Run\<close> intercepts by redirection exactly for \<open>redirect\<close>, by TPROXY exactly
  for \<open>tproxy\<close>, and serves directly on port 8443 for everything else, and the configuration is
  well-formed.
\<close>

theorem main_mode_is_proxy_mode:
  "let c = data_plane_config getenv; mode = choose_mode getenv \<lparr>p_cfg = c, p_certManager = m, p_caCertPool = pool\<rparr> in
     config_wf c \<and>
     mode = (if getenv ''PROXY_MODE'' = ''redirect'' then RedirectMode
             else if getenv ''PROXY_MODE'' = ''tproxy'' then TProxyMode else DirectMode) \<and>
     ProxyPort c = (if mode = RedirectMode then 15006 else 8443)"
proof -
  have "config_wf (data_plane_config getenv)"
    unfolding data_plane_config_def Let_def
    by (rule Load_wf) (simp_all add: CreateProxyConfig_def int64_def)
  moreover have "ProxyPort (data_plane_config getenv) = data_plane_port getenv"
    by (simp add: data_plane_config_def Let_def) (simp add: CreateProxyConfig_def)
  ultimately show ?thesis by (simp add: Let_def choose_mode_def data_plane_port_def)
qed

text \<open>
  C22: Starting is bounded and never runs a nil proxy: at most eleven attempts are made, in order, the
  proxy of the first success is the one that runs, and when all eleven fail the process exits with
  status 1 without running anything.
\<close>

theorem main_runs_first_success:
  "(case first_success attempt of
      Some (m, p) \<Rightarrow> attempts (fst (data_plane_main None None attempt run)) = [0..<Suc m] \<and> m \<le> 10 \<and>
        RunProxy \<in> set (fst (data_plane_main None None attempt run)) \<and>
        (Exit 1 \<in> set (fst (data_plane_main None None attempt run)) \<longleftrightarrow> run p \<noteq> None)
    | None \<Rightarrow> attempts (fst (data_plane_main None None attempt run)) = [0..<11] \<and>
        RunProxy \<notin> set (fst (data_plane_main None None attempt run)) \<and>
        last (fst (data_plane_main None None attempt run)) = Exit 1) \<and>
   \<not> snd (data_plane_main None None attempt run)"
proof -
  obtain evs r where st: "start_proxy attempt = (evs, r)" by (cases "start_proxy attempt")
  have clean: "RunProxy \<notin> set evs" "Exit 1 \<notin> set evs"
    using start_proxy_plain [of attempt] st by (auto simp: list_all_iff)
  have bound: "m \<le> 10" if "first_success attempt = Some (m, p)" for m p
    using that first_success_cases [of attempt] by auto
  show ?thesis
    using start_proxy_first_success [of attempt] clean bound st
    by (auto simp: data_plane_main_def Let_def split: option.splits prod.splits)
qed

text \<open>
  The deferred cleanup, which closes the asynchronous logger and so writes out what it still
  holds, runs exactly when \<open>Run\<close> returns without an error: never when the process gives up,
  although each of these paths logs its reason just before.
\<close>

theorem cleanup_only_without_error:
  "DeferredCleanup \<in> set (fst (data_plane_main newClientErr clientsetErr attempt run)) \<longleftrightarrow>
     newClientErr = None \<and> clientsetErr = None \<and>
     (\<exists>m p. first_success attempt = Some (m, p) \<and> run p = None)"
proof -
  obtain evs r where st: "start_proxy attempt = (evs, r)" by (cases "start_proxy attempt")
  have clean: "DeferredCleanup \<notin> set evs"
    using start_proxy_plain [of attempt] st by (auto simp: list_all_iff)
  show ?thesis
    using start_proxy_first_success [of attempt] clean st
    by (cases newClientErr; cases clientsetErr)
      (auto simp: data_plane_main_def Let_def split: option.splits prod.splits)
qed

end
