(* ===== verification/Netfilter.thy ===== *)
theory Netfilter
  imports Firewall
begin

text \<open>
  What the commands of \<open>sentinel-init\<close> make of the kernel's packet tables. A command is applied as
  \<open>iptables(8)\<close> documents it: \<open>-N\<close> fails on an existing chain, \<open>-A\<close> fails on a missing chain or jump
  target, \<open>-F\<close> empties every chain of a table and deletes none. The program goes on after
  a failing command, so a second run of the container (a restart, say) meets the tables the first one
  left. The lemmas give the tables, and the fate of packets, after any number of runs.
\<close>

section \<open>Tables\<close>

type_synonym fw_rules = "(fw_match \<times> fw_target) list"

text \<open>The chains that exist, by table and name.\<close>

type_synonym kernel = "string \<times> string \<Rightarrow> fw_rules option"

fun kernel_cmd :: "kernel \<Rightarrow> fw_cmd \<Rightarrow> kernel option" where
  "kernel_cmd k (NewChain t c) = (if k (t, c) = None then Some (k((t, c) \<mapsto> [])) else None)"
| "kernel_cmd k (Flush t) = Some (\<lambda>(t', c). if t' = t then map_option (\<lambda>_. []) (k (t', c)) else k (t', c))"
| "kernel_cmd k (Append t c m tg) =
     (case k (t, c) of
        None \<Rightarrow> None
      | Some rs \<Rightarrow>
          (case tg of
             Jump c' \<Rightarrow> if k (t, c') = None then None else Some (k((t, c) \<mapsto> rs @ [(m, tg)]))
           | _ \<Rightarrow> Some (k((t, c) \<mapsto> rs @ [(m, tg)]))))"

text \<open>A failing command leaves the tables alone and the next one is tried.\<close>

fun kernel_run :: "kernel \<Rightarrow> fw_cmd list \<Rightarrow> kernel" where
  "kernel_run k [] = k"
| "kernel_run k (c # cs) = kernel_run (case kernel_cmd k c of None \<Rightarrow> k | Some k' \<Rightarrow> k') cs"

definition rules :: "kernel \<Rightarrow> string \<Rightarrow> string \<Rightarrow> fw_rules" where
  "rules k t c = (case k (t, c) of None \<Rightarrow> [] | Some rs \<Rightarrow> rs)"

definition kernel_fate :: "kernel \<Rightarrow> (fw_match \<Rightarrow> 'p \<Rightarrow> bool) \<Rightarrow> string \<Rightarrow> string \<Rightarrow> 'p \<Rightarrow> fate" where
  "kernel_fate k matches t hook p = traverse 2 matches (rules k t) (rules k t hook) p"

text \<open>The structured commands of one run of the container, and runs of it with the flags given, in order.\<close>

definition container_cmds :: "init_flags \<Rightarrow> fw_cmd list" where
  "container_cmds f =
     (if f_dryRun f then [] else if f_mode f = ''TPROXY'' then tproxy_spec f else redirect_spec f)"

definition container_runs :: "init_flags list \<Rightarrow> kernel \<Rightarrow> kernel" where
  "container_runs fs k = foldl (\<lambda>k f. kernel_run k (container_cmds f)) k fs"

text \<open>The chains the kernel itself provides.\<close>

definition has_builtins :: "kernel \<Rightarrow> bool" where
  "has_builtins k \<longleftrightarrow> {(''mangle'', ''PREROUTING''), (''nat'', ''PREROUTING''), (''nat'', ''OUTPUT'')} \<subseteq> dom k"

section \<open>The tables after a run\<close>

text \<open>The rules a list of commands leaves in a chain when none of its appends fails.\<close>

fun built :: "string \<Rightarrow> string \<Rightarrow> fw_rules \<Rightarrow> fw_cmd list \<Rightarrow> fw_rules" where
  "built t c rs [] = rs"
| "built t c rs (NewChain _ _ # cs) = built t c rs cs"
| "built t c rs (Flush t' # cs) = built t c (if t' = t then [] else rs) cs"
| "built t c rs (Append t' c' m tg # cs) = built t c (if t' = t \<and> c' = c then rs @ [(m, tg)] else rs) cs"

text \<open>No append fails when these chains exist at the start.\<close>

fun ready :: "(string \<times> string) set \<Rightarrow> fw_cmd list \<Rightarrow> bool" where
  "ready K [] = True"
| "ready K (NewChain t c # cs) = ready (insert (t, c) K) cs"
| "ready K (Flush t # cs) = ready K cs"
| "ready K (Append t c m tg # cs) =
     ((t, c) \<in> K \<and> (case tg of Jump c' \<Rightarrow> (t, c') \<in> K | _ \<Rightarrow> True) \<and> ready K cs)"

lemma kernel_cmd_dom:
  "kernel_cmd k cmd = Some k' \<Longrightarrow> dom k' = (case cmd of NewChain t c \<Rightarrow> insert (t, c) (dom k) | _ \<Rightarrow> dom k)"
  by (cases cmd) (auto split: if_splits option.splits fw_target.splits)

lemma kernel_run_dom: "dom k \<subseteq> dom (kernel_run k cs)"
proof (induction k cs rule: kernel_run.induct)
  case (1 k)
  then show ?case by simp
next
  case (2 k c cs)
  have "dom k \<subseteq> dom (case kernel_cmd k c of None \<Rightarrow> k | Some k' \<Rightarrow> k')"
  proof (cases "kernel_cmd k c")
    case (Some k')
    then show ?thesis using kernel_cmd_dom [OF Some] by (cases c) (simp_all add: subset_insertI)
  next
    case None
    then show ?thesis by simp
  qed
  then show ?case using 2 by auto
qed

lemma kernel_run_rules:
  "ready (dom k) cs \<Longrightarrow> rules (kernel_run k cs) t c = built t c (rules k t c) cs"
proof (induction k cs rule: kernel_run.induct)
  case (1 k)
  then show ?case by simp
next
  case (2 k cmd cs)
  show ?case
  proof (cases cmd)
    case (NewChain t' c')
    then have "rules (case kernel_cmd k cmd of None \<Rightarrow> k | Some k' \<Rightarrow> k') t c = rules k t c"
      "dom (case kernel_cmd k cmd of None \<Rightarrow> k | Some k' \<Rightarrow> k') = insert (t', c') (dom k)"
      by (auto simp: rules_def insert_absorb domI)
    with 2 NewChain show ?thesis by simp
  next
    case (Flush t')
    have "dom (\<lambda>(t'', c). if t'' = t' then map_option (\<lambda>_. []) (k (t'', c)) else k (t'', c)) = dom k"
      by (auto split: if_splits)
    moreover have "rules (\<lambda>(t'', c). if t'' = t' then map_option (\<lambda>_. []) (k (t'', c)) else k (t'', c)) t c =
        (if t' = t then [] else rules k t c)"
      by (simp add: rules_def split: option.split)
    ultimately show ?thesis using 2 Flush by simp
  next
    case (Append t' c' m tg)
    with 2(2) obtain rs where rs: "k (t', c') = Some rs" by auto
    let ?k = "k((t', c') \<mapsto> rs @ [(m, tg)])"
    have ok: "kernel_cmd k cmd = Some ?k"
      using 2(2) rs Append by (auto split: fw_target.splits)
    have "dom ?k = dom k" using rs by auto
    then have "ready (dom (case kernel_cmd k cmd of None \<Rightarrow> k | Some k' \<Rightarrow> k')) cs"
      using 2(2) Append ok by (simp del: kernel_cmd.simps fun_upd_apply)
    from 2(1) [OF this] have "rules (kernel_run ?k cs) t c = built t c (rules ?k t c) cs"
      unfolding ok option.case .
    moreover have "rules ?k t c = (if t' = t \<and> c' = c then rules k t c @ [(m, tg)] else rules k t c)"
      using rs by (auto simp: rules_def)
    ultimately show ?thesis using ok Append by (simp del: kernel_cmd.simps fun_upd_apply)
  qed
qed

lemma built_append [simp]: "built t c rs (xs @ ys) = built t c (built t c rs xs) ys"
  by (induction t c rs xs rule: built.induct) auto

fun flushes :: "string \<Rightarrow> fw_cmd \<Rightarrow> bool" where
  "flushes t (Flush t') = (t' = t)"
| "flushes t _ = False"

lemma built_chain: "\<not> list_ex (flushes t) cs \<Longrightarrow> built t c rs cs = rs @ chain t c cs"
  by (induction t c rs cs rule: built.induct) auto

lemma ready_exclusions:
  "(t, c) \<in> K \<Longrightarrow> ready K (List.map (\<lambda>p. Append t c (f p) Return) ps @ cs) = ready K cs"
  by (induction ps) auto

lemma ready_exclusion_pairs:
  "(t, c) \<in> K \<Longrightarrow> (t', c') \<in> K \<Longrightarrow>
     ready K (concat (List.map (\<lambda>p. [Append t c (f p) Return, Append t' c' (f p) Return]) ps) @ cs) = ready K cs"
  by (induction ps) auto

lemma ready_container: "has_builtins k \<Longrightarrow> ready (dom k) (container_cmds f)"
  by (auto simp: has_builtins_def container_cmds_def tproxy_spec_def redirect_spec_def ready_exclusions
      ready_exclusion_pairs)

lemma no_flush_exclusions:
  "\<not> list_ex (flushes t) (List.map (\<lambda>p. Append t' c (f p) tg) ps)"
  "\<not> list_ex (flushes t) (concat (List.map (\<lambda>p. [Append t1 c1 (f p) tg1, Append t2 c2 (f p) tg2]) ps))"
  by (induction ps) auto

text \<open>
  The container flushes \<open>nat\<close> before it writes there, so the chains of \<open>nat\<close> depend on its last run only;
  it never flushes \<open>mangle\<close>, where every run adds its rules again.
\<close>

lemma built_nat: "\<not> f_dryRun f \<Longrightarrow> built ''nat'' c rs (container_cmds f) = chain ''nat'' c (container_cmds f)"
proof -
  assume "\<not> f_dryRun f"
  then have "\<exists>cs. \<not> list_ex (flushes ''nat'') cs \<and>
    (container_cmds f = Flush ''nat'' # cs \<or>
     container_cmds f = NewChain ''mangle'' ''SENTINEL_INBOUND'' # Flush ''nat'' # cs)"
    by (cases "f_mode f = ''TPROXY''")
      (simp_all add: container_cmds_def tproxy_spec_def redirect_spec_def no_flush_exclusions)
  then obtain cs where "\<not> list_ex (flushes ''nat'') cs"
    "container_cmds f = Flush ''nat'' # cs \<or>
     container_cmds f = NewChain ''mangle'' ''SENTINEL_INBOUND'' # Flush ''nat'' # cs" by blast
  then show ?thesis using built_chain [of "''nat''" cs c "[]"] by auto
qed

lemma built_mangle: "built ''mangle'' c rs (container_cmds f) = rs @ chain ''mangle'' c (container_cmds f)"
proof -
  have "\<not> list_ex (flushes ''mangle'') (container_cmds f)"
    by (simp add: container_cmds_def tproxy_spec_def redirect_spec_def no_flush_exclusions)
  then show ?thesis by (rule built_chain)
qed

lemma container_runs_snoc [simp]:
  "container_runs (fs @ [f]) k = kernel_run (container_runs fs k) (container_cmds f)"
  by (simp add: container_runs_def)

lemma container_runs_Nil [simp]: "container_runs [] k = k"
  by (simp add: container_runs_def)

lemma container_runs_builtins: "has_builtins k \<Longrightarrow> has_builtins (container_runs fs k)"
proof (induction fs rule: rev_induct)
  case Nil
  then show ?case by simp
next
  case (snoc f fs)
  then have "has_builtins (container_runs fs k)" by simp
  then show ?case
    unfolding has_builtins_def container_runs_snoc by (rule subset_trans [OF _ kernel_run_dom])
qed

lemmas run_rules = kernel_run_rules [OF ready_container [OF container_runs_builtins]]

lemma rules_nat_after:
  "has_builtins k \<Longrightarrow> \<not> f_dryRun f \<Longrightarrow>
     rules (container_runs (fs @ [f]) k) ''nat'' c = chain ''nat'' c (container_cmds f)"
  by (simp add: run_rules built_nat)

lemma rules_mangle_after:
  assumes "has_builtins k"
  shows "rules (container_runs fs k) ''mangle'' c =
    rules k ''mangle'' c @ concat (List.map (\<lambda>f. chain ''mangle'' c (container_cmds f)) fs)"
  by (induction fs rule: rev_induct) (simp_all add: run_rules [OF assms] built_mangle)

section \<open>The fate of packets after any number of runs\<close>

lemma kernel_fate_nat:
  assumes "has_builtins k" "\<not> f_dryRun f"
  shows "kernel_fate (container_runs (fs @ [f]) k) matches ''nat'' hook p =
    packet_fate (container_cmds f) matches ''nat'' hook p"
proof -
  have "rules (container_runs (fs @ [f]) k) ''nat'' = (\<lambda>c. chain ''nat'' c (container_cmds f))"
    by (rule ext) (rule rules_nat_after [OF assms])
  then show ?thesis by (simp only: kernel_fate_def packet_fate_def)
qed

text \<open>The rules one run in TPROXY mode adds to its chain, followed by those of later runs.\<close>

lemma traverse_tproxy_chain:
  assumes "documented matches"
  shows "traverse n matches tab (chain ''mangle'' ''SENTINEL_INBOUND'' (tproxy_spec f) @ rs) p =
    (if matches Tcp p \<or> matches Established p
     then traverse n matches tab (chain ''mangle'' ''SENTINEL_INBOUND'' (tproxy_spec f)) p
     else traverse n matches tab rs p)"
  using assms traverse_returns [of n matches tab TcpPort "[''443'', ''9090''] @ excluded f"]
  by (auto simp: tproxy_chains documented_def)

lemma traverse_repeated_jump:
  "traverse (Suc n) matches tab (concat (List.map (\<lambda>_. [(Tcp, Jump c)]) fs)) p =
     (if fs \<noteq> [] \<and> matches Tcp p then traverse n matches tab (tab c) p else Passed)"
  by (induction fs) (auto split: fate.split if_splits)

lemma kernel_fate_mangle:
  assumes "documented matches" "has_builtins k"
    "rules k ''mangle'' ''PREROUTING'' = []" "rules k ''mangle'' ''SENTINEL_INBOUND'' = []"
    "\<forall>g \<in> set (f # fs). f_mode g = ''TPROXY'' \<and> \<not> f_dryRun g"
  shows "kernel_fate (container_runs (f # fs) k) matches ''mangle'' ''PREROUTING'' p =
    packet_fate (tproxy_spec f) matches ''mangle'' ''PREROUTING'' p"
proof -
  let ?k = "container_runs (f # fs) k"
  have cmds: "\<forall>g \<in> set (f # fs). container_cmds g = tproxy_spec g"
    using assms(5) by (simp add: container_cmds_def)
  then have pre: "rules ?k ''mangle'' ''PREROUTING'' =
      concat (List.map (\<lambda>_. [(Tcp, Jump ''SENTINEL_INBOUND'')]) (f # fs))"
    unfolding rules_mangle_after [OF assms(2)] assms(3)
    by (simp add: tproxy_chains cong: map_cong)
  obtain rs where inb: "rules ?k ''mangle'' ''SENTINEL_INBOUND'' =
      chain ''mangle'' ''SENTINEL_INBOUND'' (tproxy_spec f) @ rs"
    using rules_mangle_after [OF assms(2), of "f # fs" "''SENTINEL_INBOUND''"] assms(4) cmds by simp
  show ?thesis
    unfolding kernel_fate_def packet_fate_def pre numeral_2_eq_2 traverse_repeated_jump inb
    by (simp add: traverse_tproxy_chain [OF assms(1)] tproxy_chains(1) split: fate.split)
      (simp add: tproxy_chains)
qed

section \<open>Properties\<close>


text \<open>
  C18: The TPROXY rules do what they are for, after any number of runs in this mode. Each run
  executes its structured rules and then the two routing commands. The \<open>nat\<close> table is flushed by every
  run, so the last run's flags decide what leaves: a new TCP packet goes to the outbound port unless it
  belongs to the proxy's user or its port is the application's, 443, 9090 or excluded. The
  \<open>mangle\<close> table is never flushed: each run adds its rules behind the older ones, so the first
  run's flags decide for ever what arrives (every new TCP packet goes to its inbound port
  unless the port is 443, 9090 or excluded), and the jump into the chain is there once per run.
\<close>

theorem tproxy_fates_after_any_history:
  assumes "documented matches" "has_builtins k"
    "rules k ''mangle'' ''PREROUTING'' = []" "rules k ''mangle'' ''SENTINEL_INBOUND'' = []"
    "\<forall>g \<in> set (f # fs). f_mode g = ''TPROXY'' \<and> \<not> f_dryRun g" "plain_flags g" "g = last (f # fs)"
  shows "argvs (init_main g lookPath exec) =
      List.map (\<lambda>c. findIptables lookPath # tl (render c)) (container_cmds g) @ routing_argvs g \<and>
    (let k' = container_runs (f # fs) k in
      kernel_fate k' matches ''mangle'' ''PREROUTING'' p =
        (if matches Tcp p \<and> (\<forall>q \<in> set ([''443'', ''9090''] @ excluded f). \<not> matches (TcpPort q) p) \<and>
            \<not> matches Established p
         then Proxied (f_inboundPort f) (f_proxyMark f) else Passed) \<and>
      kernel_fate k' matches ''nat'' ''OUTPUT'' p =
        (if matches Tcp p \<and> (\<forall>q \<in> set ([f_servicePort g, ''443'', ''9090''] @ excluded g). \<not> matches (TcpPort q) p) \<and>
            \<not> matches (OwnedBy (f_proxyUID g)) p \<and> \<not> matches Established p
         then RedirectedTo (f_outboundPort g) else Passed) \<and>
      length (rules k' ''mangle'' ''PREROUTING'') = Suc (length fs))"
proof -
  have g: "f_mode g = ''TPROXY''" "\<not> f_dryRun g" using assms(5,7) last_in_set [of "f # fs"] by auto
  then have cmds: "container_cmds g = tproxy_spec g" by (simp add: container_cmds_def)
  have runs: "f # fs = butlast (f # fs) @ [g]" using assms(7) by (metis append_butlast_last_id list.distinct(1))
  have nat: "kernel_fate (container_runs (f # fs) k) matches ''nat'' ''OUTPUT'' p =
      packet_fate (tproxy_spec g) matches ''nat'' ''OUTPUT'' p"
    using kernel_fate_nat [OF assms(2) g(2), of "butlast (f # fs)"] unfolding runs [symmetric] cmds .
  have "\<forall>h \<in> set (f # fs). chain ''mangle'' ''PREROUTING'' (container_cmds h) = [(Tcp, Jump ''SENTINEL_INBOUND'')]"
    using assms(5) by (simp add: container_cmds_def tproxy_chains)
  then have "length (rules (container_runs (f # fs) k) ''mangle'' ''PREROUTING'') = Suc (length fs)"
    unfolding rules_mangle_after [OF assms(2)] assms(3) by (simp add: length_concat cong: map_cong)
  then show ?thesis
    using tproxy_fate [OF assms(1), of f p] tproxy_fate [OF assms(1), of g p] g
      argvs_setupIPTables [OF assms(6), of lookPath exec]
    unfolding Let_def kernel_fate_mangle [OF assms(1-5)] nat argvs_init_main cmds by auto
qed

text \<open>
  A restart does not bring new flags into force. Once the container has run in TPROXY mode, a further
  run with other flags changes nothing for packets that arrive: a port excluded by the new
  flags is still sent to the proxy.
\<close>

theorem stale_tproxy_rules:
  assumes "documented matches" "has_builtins k"
    "rules k ''mangle'' ''PREROUTING'' = []" "rules k ''mangle'' ''SENTINEL_INBOUND'' = []"
    "f_mode f = ''TPROXY'' \<and> \<not> f_dryRun f" "f_mode g = ''TPROXY'' \<and> \<not> f_dryRun g"
  shows "kernel_fate (container_runs [f, g] k) matches ''mangle'' ''PREROUTING'' p =
    kernel_fate (container_runs [f] k) matches ''mangle'' ''PREROUTING'' p"
  using kernel_fate_mangle [OF assms(1-4), of f "[g]" p] kernel_fate_mangle [OF assms(1-4), of f "[]" p] assms(5,6)
  by simp

section \<open>A concrete node\<close>

definition fresh_kernel :: kernel where
  "fresh_kernel = [(''mangle'', ''PREROUTING'') \<mapsto> [], (''nat'', ''PREROUTING'') \<mapsto> [], (''nat'', ''OUTPUT'') \<mapsto> []]"

definition redirect_flags :: init_flags where
  "redirect_flags = default_flags\<lparr>f_mode := ''REDIRECT''\<rparr>"

lemma fresh_kernel_ok:
  "has_builtins fresh_kernel" "rules fresh_kernel ''mangle'' ''PREROUTING'' = []"
  "rules fresh_kernel ''mangle'' ''SENTINEL_INBOUND'' = []"
  by (auto simp: has_builtins_def fresh_kernel_def rules_def)

lemma default_flags_ok: "f_mode default_flags = ''TPROXY''" "\<not> f_dryRun default_flags"
  by (simp_all add: default_flags_def)

lemma redirect_flags_ok: "plain_flags redirect_flags" "f_mode redirect_flags \<noteq> ''TPROXY''" "\<not> f_dryRun redirect_flags"
  using example_plain by (simp_all add: redirect_flags_def plain_flags_def excluded_def default_flags_def)


theorem tproxy_fates_after_any_history_witness:
  "kernel_fate (container_runs [default_flags, default_flags] fresh_kernel) example_matches ''mangle'' ''PREROUTING''
     (''3005'', 0) = Proxied 15006 0x111 \<and>
   length (rules (container_runs [default_flags, default_flags] fresh_kernel) ''mangle'' ''PREROUTING'') = 2"
  using tproxy_fates_after_any_history [OF example_documented fresh_kernel_ok, of default_flags "[default_flags]"
      default_flags "\<lambda>_. True" "\<lambda>_. True" "(''3005'', 0)"] example_plain default_flags_ok
  unfolding Let_def by (auto simp: default_flags_def excluded_def)

theorem stale_tproxy_rules_witness:
  "kernel_fate (container_runs [default_flags, default_flags\<lparr>f_excludePorts := ''8080''\<rparr>] fresh_kernel) example_matches
     ''mangle'' ''PREROUTING'' (''8080'', 0) = Proxied 15006 0x111"
proof -
  have "kernel_fate (container_runs [default_flags] fresh_kernel) example_matches ''mangle'' ''PREROUTING'' (''8080'', 0) =
      Proxied 15006 0x111"
    using kernel_fate_mangle [OF example_documented fresh_kernel_ok, of default_flags "[]" "(''8080'', 0)"]
      tproxy_fate [OF example_documented, of default_flags "(''8080'', 0)"] default_flags_ok
    by (simp add: default_flags_def excluded_def)
  then show ?thesis
    using stale_tproxy_rules [OF example_documented fresh_kernel_ok, of default_flags
        "default_flags\<lparr>f_excludePorts := ''8080''\<rparr>" "(''8080'', 0)"] default_flags_ok
    by simp
qed

end
