(* ===== verification/InitLog.thy ===== *)
theory InitLog
  imports Firewall Logger
begin

text \<open>
  The log of the init container: \<open>sentinel-init/internal/logger\<close> and \<open>internal/config\<close>, which are copies of the
  data plane's packages with another import path, and the part of \<open>sentinel-init/cmd/main.go\<close> that
  makes the logger and closes it when \<open>main\<close> returns. The lemmas carry a run of \<open>main\<close>, with the
  log writer's worker interleaved, to the bytes on its standard output.
\<close>

section \<open>The package, as the container uses it\<close>

definition init_NewAsyncWriter :: "int \<Rightarrow> AsyncWriter option" where
  "init_NewAsyncWriter = NewAsyncWriter"

definition init_aw_Write :: "AsyncWriter \<Rightarrow> string \<Rightarrow> AsyncWriter \<times> aw_result" where
  "init_aw_Write = aw_Write"

definition init_aw_worker :: "sink \<Rightarrow> AsyncWriter \<Rightarrow> worker_event \<Rightarrow> AsyncWriter option" where
  "init_aw_worker = aw_worker"

definition init_aw_Close :: "AsyncWriter \<Rightarrow> AsyncWriter \<times> aw_result" where
  "init_aw_Close = aw_Close"

definition init_Handle :: "slog_handler \<Rightarrow> ctx \<Rightarrow> attr list \<Rightarrow> attr list" where
  "init_Handle = Handle"

definition init_InitLogger :: "LoggerConfig \<Rightarrow> int \<Rightarrow> (slog_handler \<times> AsyncWriter) option" where
  "init_InitLogger = InitLogger"

text \<open>
  The rest of the package, which \<open>main\<close> never calls: the container serves no HTTP. The files are the data
  plane's, line by line, and so are the definitions.
\<close>

definition init_WithTraceID :: "ctx \<Rightarrow> string \<Rightarrow> ctx" where
  "init_WithTraceID = WithTraceID"

definition init_generateTraceID :: "bytes \<Rightarrow> string" where
  "init_generateTraceID = generateTraceID"

definition init_sw_WriteHeader :: "statusResponseWriter \<Rightarrow> int \<Rightarrow> statusResponseWriter option" where
  "init_sw_WriteHeader = sw_WriteHeader"

definition init_Middleware ::
  "(http_request \<Rightarrow> rw_op list) \<Rightarrow> slog_handler \<Rightarrow> bytes list \<Rightarrow> int \<Rightarrow> response_writer \<Rightarrow> http_request \<Rightarrow>
   (response_writer \<times> attr list option) option" where
  "init_Middleware = Middleware"

section \<open>The logger of \<open>main\<close>\<close>

definition init_logger_config :: "environ \<Rightarrow> LoggerConfig" where
  "init_logger_config getenv =
     (let logLevel = or_default [] ''Debug'' (getenv ''LOG_LEVEL'');
          serviceName = or_default [] ''sentinel-init-container'' (getenv ''SERVICE_NAME'')
      in \<lparr>Level = logLevel, IsJSON = True, AddSource = False, AppVersion = ''0.0.1'', LogServiceName = serviceName,
          Env = getenv ''ENV'', Context = WithValue [] (''string'', ''APP_NAME'') serviceName\<rparr>)"

text \<open>\<open>logger.InitLogger(loggerCfg, os.Stdout, 5000)\<close>.\<close>

definition init_logger :: "environ \<Rightarrow> (slog_handler \<times> AsyncWriter) option" where
  "init_logger getenv = init_InitLogger (init_logger_config getenv) 5000"

text \<open>
  The lines \<open>main\<close> logs: its events in order, less those below the logger's level. \<open>line i e\<close> is the rendered
  line of the \<open>i\<close>-th event, with its attributes.
\<close>

fun event_level :: "init_event \<Rightarrow> int option" where
  "event_level (Exec argv ok) = None"
| "event_level (LogInfo msg) = Some LevelInfo"
| "event_level (LogWarn msg) = Some LevelWarn"
| "event_level (LogDebug msg) = Some (- 4)"

definition logged :: "slog_handler \<Rightarrow> init_event \<Rightarrow> bool" where
  "logged h e \<longleftrightarrow> (case event_level e of None \<Rightarrow> False | Some lvl \<Rightarrow> Enabled h lvl)"

definition init_lines :: "slog_handler \<Rightarrow> (nat \<Rightarrow> init_event \<Rightarrow> string) \<Rightarrow> init_event list \<Rightarrow> string list" where
  "init_lines h line evs = List.map (\<lambda>(i, e). line i e) (filter (\<lambda>(i, e). logged h e) (enumerate 0 evs))"

text \<open>
  What \<open>main\<close> does to its log writer: one write for each line, and the deferred \<open>cleanup\<close>; no path of
  \<open>main\<close> ends the process before it.
\<close>

definition init_log_calls ::
  "slog_handler \<Rightarrow> (nat \<Rightarrow> init_event \<Rightarrow> string) \<Rightarrow> init_flags \<Rightarrow> (string \<Rightarrow> bool) \<Rightarrow> (string list \<Rightarrow> bool) \<Rightarrow> aw_event list" where
  "init_log_calls h line f lookPath exec =
     List.map CallWrite (init_lines h line (init_main f lookPath exec)) @ [CallClose]"

text \<open>One step of the writer, in the container's own package.\<close>

fun init_log_step :: "sink \<Rightarrow> AsyncWriter \<Rightarrow> aw_event \<Rightarrow> (AsyncWriter \<times> string list) option" where
  "init_log_step sk aw (CallWrite p) =
     (case init_aw_Write aw p of (aw', Wrote _) \<Rightarrow> Some (aw', [p]) | (aw', _) \<Rightarrow> Some (aw', []))"
| "init_log_step sk aw CallClose = Some (fst (init_aw_Close aw), [])"
| "init_log_step sk aw (Worker e) = map_option (\<lambda>aw'. (aw', [])) (init_aw_worker sk aw e)"

text \<open>A run: the calls of \<open>main\<close> and the steps of the worker in some interleaving, with the lines accepted.\<close>

fun init_log_run :: "sink \<Rightarrow> AsyncWriter \<Rightarrow> aw_event list \<Rightarrow> (AsyncWriter \<times> string list) option" where
  "init_log_run sk aw [] = Some (aw, [])"
| "init_log_run sk aw (e # es) =
     (case init_log_step sk aw e of
        None \<Rightarrow> None
      | Some (aw1, acc1) \<Rightarrow> map_option (\<lambda>(aw2, acc2). (aw2, acc1 @ acc2)) (init_log_run sk aw1 es))"

text \<open>The copy behaves as the original, so its runs are those of \<open>AsyncLog\<close>.\<close>

lemma init_log_step_eq: "init_log_step sk aw e = aw_step sk aw e"
  by (cases e) (simp_all add: init_aw_Write_def init_aw_Close_def init_aw_worker_def)

lemma init_log_run_eq: "init_log_run sk aw es = aw_run sk aw es"
  by (induction es arbitrary: aw) (auto simp: init_log_step_eq split: option.split)

section \<open>Lemmas\<close>

fun is_call :: "aw_event \<Rightarrow> bool" where
  "is_call (Worker w) = False"
| "is_call _ = True"

lemma chan_recv_queue: "chan_recv c = Some (x, c') \<Longrightarrow> length (ch_queue c') \<le> length (ch_queue c)"
  by (auto simp: chan_recv_def split: option.splits list.splits)

lemma aw_worker_queue:
  "aw_worker sk aw w = Some aw' \<Longrightarrow> length (ch_queue (aw_buffer aw')) \<le> length (ch_queue (aw_buffer aw))"
  by (cases w) (auto dest: chan_recv_queue split: if_splits option.splits)

text \<open>After \<open>Close\<close> only the worker acts.\<close>

lemma closed_run:
  "aw_run sk aw es = Some (aw', acc) \<Longrightarrow> filter is_call es = [] \<Longrightarrow>
     acc = [] \<and> ch_closed (aw_buffer aw') = ch_closed (aw_buffer aw)"
proof (induction es arbitrary: aw acc)
  case Nil
  then show ?case by simp
next
  case (Cons e es)
  then obtain w where e: "e = Worker w" by (cases e) auto
  with Cons.prems obtain aw1 where "aw_worker sk aw w = Some aw1" "aw_run sk aw1 es = Some (aw', acc)"
    by (auto split: option.splits)
  with Cons.IH Cons.prems(2) aw_worker_frame show ?case by (fastforce simp: e)
qed

text \<open>Nothing is dropped while the writes fit into the queue.\<close>

lemma fitting_run:
  assumes "aw_run sk aw es = Some (aw', acc)" "filter is_call es = List.map CallWrite ls @ [CallClose]"
    and "\<not> ch_closed (aw_buffer aw)" "length (ch_queue (aw_buffer aw)) + length ls \<le> ch_cap (aw_buffer aw)"
  shows "acc = ls \<and> ch_closed (aw_buffer aw')"
  using assms
proof (induction es arbitrary: aw acc ls)
  case Nil
  then show ?case by simp
next
  case (Cons e es)
  from Cons.prems(1) obtain aw1 acc1 acc2 where step: "aw_step sk aw e = Some (aw1, acc1)"
    and run: "aw_run sk aw1 es = Some (aw', acc2)" and acc: "acc = acc1 @ acc2"
    by (auto split: option.splits)
  show ?case
  proof (cases e)
    case (Worker w)
    with step have w: "aw_worker sk aw w = Some aw1" "acc1 = []" by auto
    with Cons.IH [OF run, of ls] Cons.prems(2-4) aw_worker_frame [OF w(1)] aw_worker_queue [OF w(1)]
    show ?thesis by (simp add: acc Worker)
  next
    case CallClose
    with Cons.prems(2) have "ls = []" "filter is_call es = []" by (cases ls; auto)+
    with closed_run [OF run] step CallClose Cons.prems(3) show ?thesis by (auto simp: acc aw_Close_def)
  next
    case (CallWrite p)
    with Cons.prems(2) obtain ls' where ls: "ls = p # ls'" "filter is_call es = List.map CallWrite ls' @ [CallClose]"
      by (cases ls) auto
    with Cons.prems(4) have "\<exists>c. try_send (aw_buffer aw) p = Some c \<and>
        length (ch_queue c) \<le> Suc (length (ch_queue (aw_buffer aw)))"
      by (cases "ch_waiting (aw_buffer aw)") (simp_all add: try_send_def)
    then obtain c where c: "try_send (aw_buffer aw) p = Some c"
      "length (ch_queue c) \<le> Suc (length (ch_queue (aw_buffer aw)))" by blast
    with step CallWrite Cons.prems(3) have "aw1 = aw\<lparr>aw_buffer := c\<rparr>" "acc1 = [p]"
      by (auto simp: aw_Write_def)
    with Cons.IH [OF run ls(2)] Cons.prems(3,4) try_send_frame [OF c(1)] c(2) show ?thesis
      by (simp add: acc ls(1))
  qed
qed

text \<open>How many lines \<open>main\<close> can log.\<close>

fun is_log :: "init_event \<Rightarrow> bool" where
  "is_log (Exec argv ok) = False"
| "is_log _ = True"

lemma length_filter_enumerate:
  "(\<And>e. P e \<Longrightarrow> Q e) \<Longrightarrow> length (filter (\<lambda>(i, e). P e) (enumerate n es)) \<le> length (filter Q es)"
  by (induction es arbitrary: n) (auto simp: le_SucI)

lemma length_init_lines: "length (init_lines h line evs) \<le> length (filter is_log evs)"
proof -
  have "is_log e" if "logged h e" for e using that by (cases e) (auto simp: logged_def)
  then show ?thesis by (simp add: init_lines_def length_filter_enumerate)
qed

lemma logs_concat:
  assumes "\<And>r. length (filter is_log (g r)) \<le> 1"
  shows "length (filter is_log (concat (List.map g rs))) \<le> length rs"
proof (induction rs)
  case (Cons r rs)
  with assms [of r] show ?case by simp
qed simp

lemma logs_run_rule: "length (filter is_log (run_rule exec path r)) \<le> 1"
  by (auto simp: run_rule_def Let_def split: list.splits)

lemma logs_run_route: "length (filter is_log (run_route exec r)) \<le> 1"
  by (auto simp: run_route_def split: list.splits)

lemma length_excluded_pairs: "length (concat (List.map (\<lambda>p. [g p, g' p]) ps)) = 2 * length ps"
  by (induction ps) auto

lemma logs_init_main: "length (filter is_log (init_main f lookPath exec)) \<le> 22 + 2 * length (excluded f)"
proof -
  have rules: "length (buildTProxyRules f) \<le> 16 + 2 * length (excluded f)"
    "length (buildRedirectRules f) \<le> 16 + 2 * length (excluded f)"
    by (simp_all add: buildTProxyRules_def buildRedirectRules_def length_excluded_pairs)
  have "length (filter is_log (fst (setupIPTables f lookPath exec))) \<le> 17 + 2 * length (excluded f)"
    using logs_concat [of "run_rule exec (findIptables lookPath)", OF logs_run_rule, of "buildTProxyRules f"]
      logs_concat [of "run_rule exec (findIptables lookPath)", OF logs_run_rule, of "buildRedirectRules f"] rules
    by (simp add: setupIPTables_def Let_def)
  moreover have "length (filter is_log (fst (setupRouting f exec))) \<le> 3"
    using logs_concat [of "run_route exec", OF logs_run_route, of "routing_rules f"]
    by (simp add: setupRouting_def routing_rules_def)
  moreover have "snd (setupIPTables f lookPath exec) = None" by (simp add: setupIPTables_def Let_def)
  moreover have "snd (setupRouting f exec) = None" by (simp add: setupRouting_def)
  ultimately show ?thesis by (simp add: init_main_def Let_def split_beta)
qed

lemma init_logger_writer:
  assumes "init_logger getenv = Some (h, aw)"
  shows "NewAsyncWriter 5000 = Some aw"
  using assms by (auto simp: init_logger_def init_InitLogger_def InitLogger_def Let_def split: option.splits)

section \<open>Properties\<close>

text \<open>
  C19: The init container loses no log line. With at most 2,000 excluded ports, whatever the
  environment, the results of its commands and the interleaving of its log writes with the worker:
  every line at or above the configured level is accepted, in order; from the moment \<open>main\<close> has
  made its calls, the worker's remaining steps let the deferred cleanup return; and when it has
  returned, standard output holds exactly these lines unless it reported an error itself.
\<close>

theorem init_logs_everything:
  assumes "init_logger getenv = Some (h, aw0)" "length (excluded f) \<le> 2000"
    and "filter is_call es = init_log_calls h line f lookPath exec"
    and "init_log_run sk aw0 es = Some (aw, acc)"
  shows "acc = init_lines h line (init_main f lookPath exec) \<and>
    (aw_Close_returns aw \<longrightarrow> \<not> bw_err (aw_bw aw) \<longrightarrow> bw_out (aw_bw aw) = concat acc) \<and>
    (\<exists>ws aw'. init_log_run sk aw (List.map Worker ws) = Some (aw', []) \<and> aw_Close_returns aw')"
proof -
  have new: "NewAsyncWriter 5000 = Some aw0" by (rule init_logger_writer [OF assms(1)])
  then have cap: "ch_cap (aw_buffer aw0) = 5000" "ch_queue (aw_buffer aw0) = []" "\<not> ch_closed (aw_buffer aw0)"
    by (auto simp: NewAsyncWriter_def make_chan_def)
  have run: "aw_run sk aw0 es = Some (aw, acc)" using assms(4) by (simp add: init_log_run_eq)
  have "length (init_lines h line (init_main f lookPath exec)) \<le> 5000"
    using length_init_lines [of h line "init_main f lookPath exec"] logs_init_main [of f lookPath exec] assms(2) by simp
  with cap fitting_run [OF run assms(3) [unfolded init_log_calls_def]]
  have acc: "acc = init_lines h line (init_main f lookPath exec)" and closed: "ch_closed (aw_buffer aw)"
    by simp_all
  moreover have "bw_out (aw_bw aw) = concat acc" if "aw_Close_returns aw" "\<not> bw_err (aw_bw aw)"
    using NewAsyncWriter_run_inv [OF new run] that
    by (auto simp: aw_inv_def aw_Close_returns_def intro: pump.pumped_all_out)
  moreover have "\<exists>ws aw'. aw_run sk aw (List.map Worker ws) = Some (aw', []) \<and> aw_Close_returns aw'"
  proof (cases "aw_done aw")
    case True
    then have "aw_run sk aw (List.map Worker []) = Some (aw, []) \<and> aw_Close_returns aw"
      by (simp add: aw_Close_returns_def)
    then show ?thesis by blast
  next
    case False
    from aw_drain [OF closed this refl] show ?thesis unfolding aw_Close_returns_def by blast
  qed
  ultimately show ?thesis by (simp add: init_log_run_eq)
qed

section \<open>A concrete run\<close>

text \<open>A dry run in redirect mode logs four lines.\<close>

definition dry_flags :: init_flags where
  "dry_flags = default_flags\<lparr>f_mode := ''REDIRECT'', f_dryRun := True\<rparr>"

definition example_line :: "nat \<Rightarrow> init_event \<Rightarrow> string" where
  "example_line i e = ''x''"

lemma example_init_logger:
  "\<exists>h aw0. init_logger (\<lambda>_. []) = Some (h, aw0) \<and> Enabled h LevelInfo \<and> NewAsyncWriter 5000 = Some aw0"
proof -
  have "parse_level ''Debug'' = Some (- 4)" by code_simp
  then show ?thesis
    by (simp add: init_logger_def init_InitLogger_def InitLogger_def NewAsyncWriter_def init_logger_config_def Let_def
        or_default_def LevelInfo_def)
qed

lemma example_init_lines:
  "Enabled h LevelInfo \<Longrightarrow>
     init_lines h example_line (init_main dry_flags lookPath exec) = replicate 4 ''x''"
  by (simp add: init_main_def setupIPTables_def Let_def dry_flags_def default_flags_def init_lines_def logged_def
      example_line_def numeral_eq_Suc)

theorem init_logs_everything_witness:
  "\<exists>h aw0 aw. init_logger (\<lambda>_. []) = Some (h, aw0) \<and>
     init_log_run (\<lambda>_ _. None) aw0 (init_log_calls h example_line dry_flags (\<lambda>_. True) (\<lambda>_. True)) =
       Some (aw, replicate 4 ''x'')"
proof -
  let ?calls = "\<lambda>h. init_log_calls h example_line dry_flags (\<lambda>_. True) (\<lambda>_. True)"
  from example_init_logger obtain h aw0 where h: "init_logger (\<lambda>_. []) = Some (h, aw0)" "Enabled h LevelInfo"
    "NewAsyncWriter 5000 = Some aw0" by blast
  have small: "length (excluded dry_flags) \<le> 2000"
    by (simp add: excluded_def dry_flags_def default_flags_def)
  have calls: "filter is_call (?calls h) = ?calls h" by (simp add: init_log_calls_def filter_map comp_def)
  have "\<exists>aw acc. init_log_run (\<lambda>_ _. None) aw0 (?calls h) = Some (aw, acc)"
    using h(3) by (auto simp: init_log_run_eq init_log_calls_def example_init_lines [OF h(2)] NewAsyncWriter_def
        make_chan_def aw_Write_def try_send_def aw_Close_def numeral_eq_Suc)
  then obtain aw acc where run: "init_log_run (\<lambda>_ _. None) aw0 (?calls h) = Some (aw, acc)" by blast
  from init_logs_everything [OF h(1) small calls run] run h(1) show ?thesis
    by (auto simp: example_init_lines [OF h(2)])
qed

end
