(* ===== verification/RotationLive.thy ===== *)
theory RotationLive
  imports CertManager
begin

text \<open>
  Progress of the rotation goroutine of \<open>cert_manager.go\<close>, over the contracts of the two services it
  calls: \<open>TokenProvider\<close> of \<open>token_provider.go\<close>, whose tokens are not empty while the API server issues tokens
  that are not, and \<open>CertFetcher\<close>, whose certificates parse because \<open>tls.X509KeyPair\<close> has parsed the
  first one. The two errors the loop never recovers from are then out of reach.
\<close>

section \<open>The providers\<close>

text \<open>\<open>RealTokenProvider\<close> holds the clientset, which is here the one call made on it, \<open>CreateToken\<close>.\<close>

type_synonym clientset = "string \<Rightarrow> string \<Rightarrow> TokenRequest \<Rightarrow> (string, string) result"

record RealTokenProvider =
  Clientset :: clientset

definition NewRealTokenProvider :: "clientset \<Rightarrow> RealTokenProvider" where
  "NewRealTokenProvider cs = \<lparr>Clientset = cs\<rparr>"

definition provider_RequestToken ::
  "RealTokenProvider \<Rightarrow> string \<Rightarrow> string \<Rightarrow> string \<Rightarrow> string \<Rightarrow> (string, ServiceAccountToken) result" where
  "provider_RequestToken tp = RequestToken (Clientset tp)"

text \<open>The interface, in the outside worlds \<open>w\<close> where the service behind it works as documented.\<close>

locale token_provider =
  fixes request :: "'t \<Rightarrow> string \<Rightarrow> string \<Rightarrow> string \<Rightarrow> string \<Rightarrow> (string, ServiceAccountToken) result"
    and works :: "'t \<Rightarrow> bool"
  assumes request_nonempty: "works w \<Longrightarrow> request w ns sa pod uid = Inr t \<Longrightarrow> t \<noteq> []"

text \<open>An API server whose tokens are not empty.\<close>

definition issues_tokens :: "clientset \<Rightarrow> bool" where
  "issues_tokens cs \<longleftrightarrow> (\<forall>ns sa req t. cs ns sa req = Inr t \<longrightarrow> t \<noteq> [])"

lemma provider_nonempty:
  "issues_tokens (Clientset tp) \<Longrightarrow> provider_RequestToken tp ns sa pod uid = Inr t \<Longrightarrow> t \<noteq> []"
  unfolding issues_tokens_def
  by (auto simp: provider_RequestToken_def RequestToken_def Let_def split: sum.splits)

interpretation kube_tokens: token_provider provider_RequestToken "\<lambda>tp. issues_tokens (Clientset tp)"
  by unfold_locales (rule provider_nonempty)

text \<open>A fetcher whose certificates parse.\<close>

locale parsing_fetcher = cert_fetcher fetch
  for fetch :: "'w \<Rightarrow> ServiceAccountToken \<Rightarrow> string \<Rightarrow> ('e, IdentityResult) result" +
  fixes parse :: "string \<Rightarrow> int option"
  assumes fetch_parses: "fetch w token spiffeId = Inr r \<Longrightarrow> Certificate (IdCertificate r) = Some (der # ders) \<Longrightarrow> parse der \<noteq> None"

text \<open>\<open>tls.X509KeyPair\<close> parses the leaf before it compares the keys.\<close>

definition parsed_and_fits :: "(string \<Rightarrow> int option) \<Rightarrow> (string \<Rightarrow> string \<Rightarrow> bool) \<Rightarrow> string \<Rightarrow> string \<Rightarrow> bool" where
  "parsed_and_fits parse fits der key \<longleftrightarrow> parse der \<noteq> None \<and> fits der key"

interpretation real_parsing: parsing_fetcher "\<lambda>rpc. Fetch rpc blocks (parsed_and_fits parse fits)" parse
  for blocks fits parse
  by unfold_locales
    (auto simp: Fetch_def X509KeyPair_def parsed_and_fits_def Let_def split: sum.splits list.splits if_splits)

section \<open>Healthy states\<close>

text \<open>A usable token, a certificate that parses, and a place in the loop that leads on.\<close>

definition healthy :: "(string \<Rightarrow> int option) \<Rightarrow> rotation \<Rightarrow> bool" where
  "healthy parse s \<longleftrightarrow> token_ok (tok s) \<and>
     (\<exists>c der ders. CurrentCert (cm s) = Some c \<and> Certificate c = Some (der # ders) \<and> parse der \<noteq> None) \<and>
     rpc_at s \<noteq> PPanic \<and> rpc_at s \<noteq> PFetchInitial"

lemma loop_head_healthy:
  assumes "healthy parse s"
  shows "\<exists>d. loop_head parse a s now = (s\<lparr>rpc_at := PSleep d\<rparr>, [])"
  using assms by (auto simp: healthy_def loop_head_def token_ok_def split: option.splits) blast

text \<open>How many steps of a cooperating world lead to the next installed certificate.\<close>

fun to_install :: "rot_pc \<Rightarrow> nat" where
  "to_install PFetchRotate = 1"
| "to_install PRequest = 2"
| "to_install (PSleep d) = 3"
| "to_install PLoop = 4"
| "to_install PRetry = 5"
| "to_install _ = 0"

text \<open>An event that is no error and no cancellation.\<close>

fun cooperates :: "rot_event \<Rightarrow> bool" where
  "cooperates (FetchReturns (Inl err)) = False"
| "cooperates (TokenReturns (Inl err)) = False"
| "cooperates CtxDone = False"
| "cooperates _ = True"

fun installs :: "rot_event \<Rightarrow> bool" where
  "installs (FetchReturns (Inr r)) = True"
| "installs _ = False"

locale rotation_env = token_provider request works + parsing_fetcher fetch parse
  for request :: "'t \<Rightarrow> string \<Rightarrow> string \<Rightarrow> string \<Rightarrow> string \<Rightarrow> (string, ServiceAccountToken) result"
    and works :: "'t \<Rightarrow> bool"
    and fetch :: "'w \<Rightarrow> ServiceAccountToken \<Rightarrow> string \<Rightarrow> ('e, IdentityResult) result"
    and parse :: "string \<Rightarrow> int option"
begin

text \<open>The successes the goroutine sees are answers of the two services.\<close>

definition served :: "rot_event \<Rightarrow> bool" where
  "served e \<longleftrightarrow> (\<forall>t. e = TokenReturns (Inr t) \<longrightarrow> (\<exists>w ns sa pod uid. works w \<and> request w ns sa pod uid = Inr t)) \<and>
     (\<forall>r. e = FetchReturns (Inr r) \<longrightarrow> (\<exists>w t sp. fetch w t sp = Inr r))"

lemma served_certificate:
  assumes "served (FetchReturns (Inr r))"
  shows "\<exists>der ders. Certificate (IdCertificate r) = Some (der # ders) \<and> parse der \<noteq> None"
proof -
  from assms obtain w t sp where "fetch w t sp = Inr r" by (auto simp: served_def)
  from this fetch_usable [OF this] fetch_parses [OF this] show ?thesis
    by (cases "Certificate (IdCertificate r)") (auto simp: usable_cert_def split: list.splits)
qed

lemma step_healthy:
  assumes "healthy parse s" "served e" "rot_step parse a s e = Some (s', cs)"
  shows "healthy parse s'"
proof (cases e)
  case (Iterate now)
  with assms loop_head_healthy [OF assms(1), of a now] show ?thesis
    by (auto simp: healthy_def split: if_splits)
next
  case (FetchReturns res)
  show ?thesis
  proof (cases res)
    case (Inl err)
    with assms(1,3) FetchReturns show ?thesis by (auto simp: healthy_def split: if_splits)
  next
    case (Inr r)
    with assms(2) served_certificate FetchReturns obtain der ders where
      "Certificate (IdCertificate r) = Some (der # ders)" "parse der \<noteq> None" by blast
    with assms(1,3) FetchReturns Inr show ?thesis by (auto simp: healthy_def install_def split: if_splits)
  qed
next
  case (TokenReturns res)
  show ?thesis
  proof (cases res)
    case (Inl err)
    with assms(1,3) TokenReturns show ?thesis by (auto simp: healthy_def split: if_splits)
  next
    case (Inr t)
    with assms(2) TokenReturns obtain w ns sa pod uid where "works w" "request w ns sa pod uid = Inr t"
      by (auto simp: served_def)
    then have "t \<noteq> []" by (rule request_nonempty)
    with assms(1,3) TokenReturns Inr show ?thesis
      by (auto simp: healthy_def token_ok_def split: if_splits option.splits)
  qed
qed (use assms in \<open>auto simp: healthy_def split: rot_pc.splits\<close>)

lemma run_healthy:
  "healthy parse s \<Longrightarrow> list_all served es \<Longrightarrow> rot_run parse a s es = Some (s', calls) \<Longrightarrow> healthy parse s'"
  using rot_run_invariant [of "healthy parse" served parse a "\<lambda>_. True" s es s' calls] step_healthy
  by (simp add: list_all_iff)

lemma step_progress:
  assumes "healthy parse s" "rpc_at s \<noteq> PDone" "cooperates e" "\<not> installs e" "rot_step parse a s e = Some (s', cs)"
  shows "to_install (rpc_at s') < to_install (rpc_at s) \<and> rpc_at s' \<noteq> PDone"
proof (cases e)
  case (Iterate now)
  with assms loop_head_healthy [OF assms(1), of a now] show ?thesis by (auto split: if_splits)
qed (use assms in \<open>auto simp: healthy_def split: if_splits sum.splits rot_pc.splits\<close>)

text \<open>Every schedule of a cooperating world installs a certificate in time.\<close>

lemma run_installs:
  "healthy parse s \<Longrightarrow> rpc_at s \<noteq> PDone \<Longrightarrow> list_all served es \<Longrightarrow> list_all cooperates es \<Longrightarrow>
     rot_run parse a s es = Some (s', calls) \<Longrightarrow> to_install (rpc_at s) \<le> length es \<Longrightarrow>
     \<exists>e \<in> set (take (to_install (rpc_at s)) es). installs e"
proof (induction es arbitrary: s calls)
  case Nil
  then show ?case by (cases "rpc_at s") (auto simp: healthy_def)
next
  case (Cons e es)
  have pos: "0 < to_install (rpc_at s)"
    using Cons.prems(1,2) by (cases "rpc_at s") (auto simp: healthy_def)
  show ?case
  proof (cases "installs e")
    case True
    with pos show ?thesis by (cases "to_install (rpc_at s)") auto
  next
    case False
    from Cons.prems(5) obtain s1 c1 c2 where step: "rot_step parse a s e = Some (s1, c1)"
      and run: "rot_run parse a s1 es = Some (s', c2)"
      unfolding rot_run_Cons_iff by blast
    have less: "to_install (rpc_at s1) < to_install (rpc_at s)" "rpc_at s1 \<noteq> PDone"
      using step_progress [OF Cons.prems(1,2) _ False step] Cons.prems(4) by simp_all
    have "healthy parse s1" using step_healthy [OF Cons.prems(1) _ step] Cons.prems(3) by simp
    from Cons.IH [OF this less(2) _ _ run] Cons.prems less(1)
    have "\<exists>e \<in> set (take (to_install (rpc_at s1)) es). installs e" by simp
    moreover have "set (take (to_install (rpc_at s1)) es) \<subseteq> set (take (to_install (rpc_at s)) (e # es))"
      using less(1) set_take_subset_set_take [of "to_install (rpc_at s1)" "to_install (rpc_at s) - 1" es]
      by (cases "to_install (rpc_at s)") auto
    ultimately show ?thesis by blast
  qed
qed

end

interpretation live: rotation_env provider_RequestToken "\<lambda>tp. issues_tokens (Clientset tp)"
  "\<lambda>rpc. Fetch rpc blocks (parsed_and_fits parse fits)" parse
  for blocks fits parse ..

text \<open>And there is always such a schedule.\<close>

lemma install_reachable:
  assumes "healthy parse s" "rpc_at s \<noteq> PDone"
  shows "\<exists>es s' calls. length es = to_install (rpc_at s) \<and> list_all cooperates es \<and>
    rot_run parse a s es = Some (s', calls) \<and> CurrentCert (cm s') = Some (IdCertificate (r :: IdentityResult)) \<and> rpc_at s' = PLoop"
proof -
  have fetch: "rot_run parse a u [FetchReturns (Inr r)] = Some (u\<lparr>cm := install (cm u) r, rpc_at := PLoop\<rparr>, [])"
    if "rpc_at u = PFetchRotate" for u
    using that by (simp add: rot_run.simps(2))
  have request: "\<exists>v c. rot_run parse a u [TokenReturns (Inr t), FetchReturns (Inr r)] = Some (v, c) \<and>
      CurrentCert (cm v) = Some (IdCertificate r) \<and> rpc_at v = PLoop" if "rpc_at u = PRequest" for u t
    using that by (simp add: rot_run.simps(2) install_def)
  have sleep: "\<exists>v c. rot_run parse a u [TimerFires, TokenReturns (Inr t), FetchReturns (Inr r)] = Some (v, c) \<and>
      CurrentCert (cm v) = Some (IdCertificate r) \<and> rpc_at v = PLoop" if "rpc_at u = PSleep d" for u t d
    using that by (simp add: rot_run.simps(2) install_def)
  have loop: "\<exists>v c. rot_run parse a u [Iterate 0, TimerFires, TokenReturns (Inr t), FetchReturns (Inr r)] = Some (v, c) \<and>
      CurrentCert (cm v) = Some (IdCertificate r) \<and> rpc_at v = PLoop"
    if "rpc_at u = PLoop" "healthy parse u" for u t
    using that loop_head_healthy [OF that(2), of a 0] by (auto simp: rot_run.simps(2) install_def)
  show ?thesis
  proof (cases "rpc_at s")
    case PLoop
    with loop [OF _ assms(1)] show ?thesis
      by (intro exI [of _ "[Iterate 0, TimerFires, TokenReturns (Inr ''t''), FetchReturns (Inr r)]"]) auto
  next
    case PRetry
    have "healthy parse (s\<lparr>rpc_at := PLoop\<rparr>)" using assms(1) by (simp add: healthy_def)
    from loop [OF _ this] PRetry show ?thesis
      by (intro exI [of _ "[TimerFires, Iterate 0, TimerFires, TokenReturns (Inr ''t''), FetchReturns (Inr r)]"])
        (auto simp: rot_run.simps(2) [of _ _ s])
  next
    case (PSleep d)
    with sleep show ?thesis
      by (intro exI [of _ "[TimerFires, TokenReturns (Inr ''t''), FetchReturns (Inr r)]"]) auto
  next
    case PRequest
    with request show ?thesis by (intro exI [of _ "[TokenReturns (Inr ''t''), FetchReturns (Inr r)]"]) auto
  next
    case PFetchRotate
    with fetch show ?thesis by (intro exI [of _ "[FetchReturns (Inr r)]"]) (auto simp: install_def)
  qed (use assms in \<open>auto simp: healthy_def\<close>)
qed

section \<open>Properties\<close>

text \<open>The tokens and certificates among the events come from the real providers.\<close>

definition from_providers ::
  "(string \<Rightarrow> string list) \<Rightarrow> (string \<Rightarrow> string \<Rightarrow> bool) \<Rightarrow> (string \<Rightarrow> int option) \<Rightarrow> rot_event list \<Rightarrow> bool" where
  "from_providers blocks fits parse es \<longleftrightarrow>
     (\<forall>t. TokenReturns (Inr t) \<in> set es \<longrightarrow> (\<exists>cs ns sa pod uid. issues_tokens cs \<and>
        provider_RequestToken (NewRealTokenProvider cs) ns sa pod uid = Inr t)) \<and>
     (\<forall>r. FetchReturns (Inr r) \<in> set es \<longrightarrow>
        (\<exists>rpc t sp. Fetch rpc blocks (parsed_and_fits parse fits) t sp = Inr r))"

lemma from_providers_served: "from_providers blocks fits parse es \<Longrightarrow> list_all (live.served blocks parse fits) es"
  unfolding from_providers_def live.served_def list_all_iff
  by (auto simp: NewRealTokenProvider_def) (metis RealTokenProvider.select_convs(1))

text \<open>
  C12: The rotation never gets stuck. Start with a usable token and a certificate that parses, and let the
  API server issue non-empty tokens: then after every run, with whatever failures, the goroutine is still
  healthy (unless it was cancelled), for every certificate the control plane may issue there are at
  most five events that install it, and no five events in a row, among which are no error and
  no cancellation, pass without a new certificate.
\<close>

theorem rotation_is_live:
  assumes "healthy parse s" "from_providers blocks fits parse es"
    and "rot_run parse a s es = Some (s1, calls)" "rpc_at s1 \<noteq> PDone"
  shows "healthy parse s1 \<and>
    (\<forall>r. \<exists>fs s2 c. length fs \<le> 5 \<and> list_all cooperates fs \<and> rot_run parse a s1 fs = Some (s2, c) \<and>
       CurrentCert (cm s2) = Some (IdCertificate (r :: IdentityResult))) \<and>
    (\<forall>fs s2 c. from_providers blocks fits parse fs \<longrightarrow> list_all cooperates fs \<longrightarrow> length fs = 5 \<longrightarrow>
       rot_run parse a s1 fs = Some (s2, c) \<longrightarrow> (\<exists>e \<in> set fs. installs e))"
proof (intro conjI allI impI)
  show h: "healthy parse s1"
    using assms(1) from_providers_served [OF assms(2)] assms(3) by (rule live.run_healthy)
  have five: "to_install (rpc_at s1) \<le> 5" by (cases "rpc_at s1") auto
  show "\<exists>fs s2 c. length fs \<le> 5 \<and> list_all cooperates fs \<and> rot_run parse a s1 fs = Some (s2, c) \<and>
      CurrentCert (cm s2) = Some (IdCertificate r)" for r :: IdentityResult
  proof -
    from install_reachable [OF h assms(4), of a r] obtain fs s2 c where
      "length fs = to_install (rpc_at s1)" "list_all cooperates fs" "rot_run parse a s1 fs = Some (s2, c)"
      "CurrentCert (cm s2) = Some (IdCertificate r)" by blast
    moreover from this(1) five have "length fs \<le> 5" by simp
    ultimately show ?thesis by blast
  qed
  fix fs s2 c
  assume "from_providers blocks fits parse fs" "list_all cooperates fs" "length fs = 5"
    "rot_run parse a s1 fs = Some (s2, c)"
  with live.run_installs [OF h assms(4) from_providers_served] five
  show "\<exists>e \<in> set fs. installs e" by (metis in_set_takeD)
qed

theorem rotation_is_live_witness:
  "healthy example_parse example_final \<and>
   (\<exists>fs s2 c. length fs \<le> 5 \<and> list_all cooperates fs \<and> rot_run example_parse example_args example_final fs = Some (s2, c) \<and>
      CurrentCert (cm s2) = Some (IdCertificate example_result))"
proof -
  have "healthy example_parse example_state"
    by (simp add: healthy_def example_state_def token_ok_def example_parse_def)
  moreover have "from_providers (\<lambda>pem. [pem]) (\<lambda>der key. True) example_parse example_events"
  proof -
    have "issues_tokens (\<lambda>ns sa req. Inr ''t1'') \<and>
        provider_RequestToken (NewRealTokenProvider (\<lambda>ns sa req. Inr ''t1'')) [] [] [] [] = Inr ''t1''"
      by (simp add: issues_tokens_def provider_RequestToken_def NewRealTokenProvider_def RequestToken_def)
    then have "\<exists>cs ns sa pod uid. issues_tokens cs \<and>
        provider_RequestToken (NewRealTokenProvider cs) ns sa pod uid = Inr ''t1''" by blast
    moreover have fits: "parsed_and_fits example_parse (\<lambda>der key. True) = (\<lambda>der key. True)"
      by (intro ext) (simp add: parsed_and_fits_def example_parse_def)
    ultimately show ?thesis
      using example_from_fetcher by (auto simp: from_providers_def example_events_def)
  qed
  moreover have "rpc_at example_final \<noteq> PDone" by (simp add: example_final_def example_state_def)
  ultimately show ?thesis using rotation_is_live [OF _ _ example_run] by blast
qed

end
