(* ===== verification/System.thy ===== *)
theory System
  imports MainProg
begin

text \<open>
  The running data plane: the rotation goroutine of \<open>cert_manager.go\<close> and the connections of
  \<open>proxy.go\<close>, interleaved. Both share one certificate manager; a handler reads it once, so a
  connection event stands for the moment of this read, and the manager it meets is the one the rotation
  has left there. The process starts as \<open>main\<close> starts it: configuration from the environment,
  \<open>NewProxy\<close> until it succeeds, then \<open>Run\<close>.
\<close>

section \<open>Interleavings\<close>

datatype sys_event =
    Rotate rot_event
  | Inbound net_world tls_peer
  | Outbound net_world "(string, int) result" "int \<Rightarrow> int \<Rightarrow> (string, bytes) result"
  | AcceptFails bool string \<comment> \<open>true for the inbound listener\<close>

text \<open>
  What one event does: the next state of the rotation, its calls, and the connection the accept loops
  see, with the manager at its moment. \<open>None\<close> means that the rotation cannot take the
  event where it stands.
\<close>

fun sys_step ::
  "(string \<Rightarrow> int option) \<Rightarrow> rot_args \<Rightarrow> rotation \<Rightarrow> sys_event \<Rightarrow> (rotation \<times> rot_call list \<times> accept_event list) option" where
  "sys_step parse a s (Rotate e) = map_option (\<lambda>(s1, cs). (s1, cs, [])) (rot_step parse a s e)"
| "sys_step parse a s (Inbound w peer) = Some (s, [], [AcceptIn (Inr (w, cm s, peer))])"
| "sys_step parse a s (Outbound w file sockopt) = Some (s, [], [AcceptOut (Inr (w, cm s, file, sockopt))])"
| "sys_step parse a s (AcceptFails inb err) = Some (s, [], [if inb then AcceptIn (Inl err) else AcceptOut (Inl err)])"

fun interleave ::
  "(string \<Rightarrow> int option) \<Rightarrow> rot_args \<Rightarrow> rotation \<Rightarrow> sys_event list \<Rightarrow>
   (rotation \<times> rot_call list \<times> accept_event list) option" where
  "interleave parse a s [] = Some (s, [], [])"
| "interleave parse a s (e # es) =
     (case sys_step parse a s e of
        None \<Rightarrow> None
      | Some (s1, c1, a1) \<Rightarrow> map_option (\<lambda>(s2, c2, a2). (s2, c1 @ c2, a1 @ a2)) (interleave parse a s1 es))"

text \<open>\<open>main\<close> up to \<open>Run\<close>: the attempts of \<open>NewProxy\<close>, each in the outside world of its moment.\<close>

definition attempts_of :: "environ \<Rightarrow> (nat \<Rightarrow> start_env) \<Rightarrow> nat \<Rightarrow> (start_error, started) result" where
  "attempts_of getenv envs i = snd (NewProxy (envs i) (data_plane_config getenv))"

text \<open>\<open>Run\<close> beside the rotation goroutine \<open>NewProxy\<close> has started.\<close>

definition run_system ::
  "environ \<Rightarrow> (string \<Rightarrow> int option) \<Rightarrow> (int \<Rightarrow> string option) \<Rightarrow> string option \<Rightarrow> started \<Rightarrow> sys_event list \<Rightarrow>
   direct_event list \<Rightarrow> (rotation \<times> rot_call list \<times>
     ((direct_action list \<times> string option option) + (run_action list \<times> run_error option))) option" where
  "run_system getenv parse listen shutdownErr st es ds =
     map_option (\<lambda>(s', calls, as). (s', calls, Run getenv listen shutdownErr (st_proxy st) as ds))
       (interleave parse (st_args st) (st_rotation st) es)"

section \<open>Lemmas\<close>

fun rot_events :: "sys_event list \<Rightarrow> rot_event list" where
  "rot_events [] = []"
| "rot_events (Rotate e # es) = e # rot_events es"
| "rot_events (_ # es) = rot_events es"

lemma set_rot_events: "e \<in> set (rot_events es) \<longleftrightarrow> Rotate e \<in> set es"
  by (induction es rule: rot_events.induct) auto

lemma interleave_Cons_iff:
  "interleave parse a s (e # es) = Some (s', calls, as) \<longleftrightarrow>
     (\<exists>s1 c1 a1 c2 a2. sys_step parse a s e = Some (s1, c1, a1) \<and> interleave parse a s1 es = Some (s', c2, a2) \<and>
        calls = c1 @ c2 \<and> as = a1 @ a2)"
  by (auto split: option.splits)

declare interleave.simps(2) [simp del]

lemma interleave_append:
  "interleave parse a s (xs @ ys) = Some (s', calls, as) \<Longrightarrow>
     \<exists>s1 c1 a1 c2 a2. interleave parse a s xs = Some (s1, c1, a1) \<and> interleave parse a s1 ys = Some (s', c2, a2) \<and>
       calls = c1 @ c2 \<and> as = a1 @ a2"
proof (induction xs arbitrary: s calls as)
  case Nil
  then show ?case by simp
next
  case (Cons e xs)
  then obtain s1 c1 a1 c2 a2 where step: "sys_step parse a s e = Some (s1, c1, a1)"
    and rest: "interleave parse a s1 (xs @ ys) = Some (s', c2, a2)" and eqs: "calls = c1 @ c2" "as = a1 @ a2"
    by (auto simp: interleave_Cons_iff)
  from Cons.IH [OF rest] obtain s2 c3 a3 c4 a4 where "interleave parse a s1 xs = Some (s2, c3, a3)"
    "interleave parse a s2 ys = Some (s', c4, a4)" "c2 = c3 @ c4" "a2 = a3 @ a4" by blast
  with step eqs show ?case
    by (intro exI [of _ s2] exI [of _ "c1 @ c3"] exI [of _ "a1 @ a3"] exI [of _ c4] exI [of _ a4])
      (auto simp: interleave_Cons_iff)
qed

lemma interleave_rotation:
  "interleave parse a s es = Some (s', calls, as) \<Longrightarrow> rot_run parse a s (rot_events es) = Some (s', calls)"
proof (induction es arbitrary: s calls as)
  case Nil
  then show ?case by simp
next
  case (Cons e es)
  then obtain s1 c1 a1 c2 a2 where "sys_step parse a s e = Some (s1, c1, a1)"
    "interleave parse a s1 es = Some (s', c2, a2)" "calls = c1 @ c2" "as = a1 @ a2"
    by (auto simp: interleave_Cons_iff)
  with Cons.IH show ?case by (cases e) (auto simp: rot_run_Cons_iff)
qed

text \<open>A connection is served with the manager the rotation has left after the events before it.\<close>

definition met_by :: "(string \<Rightarrow> int option) \<Rightarrow> rot_args \<Rightarrow> rotation \<Rightarrow> sys_event list \<Rightarrow> sys_event \<Rightarrow> CertManager \<Rightarrow> bool" where
  "met_by parse a s es e m \<longleftrightarrow>
     (\<exists>pre post s1 c1 a1. es = pre @ e # post \<and> interleave parse a s pre = Some (s1, c1, a1) \<and> m = cm s1)"

lemma met_by_Cons:
  assumes "sys_step parse a s e = Some (s1, c1, a1)"
  shows "met_by parse a s1 es e' m \<Longrightarrow> met_by parse a s (e # es) e' m"
    and "met_by parse a s (e # es) e (cm s)"
proof -
  assume "met_by parse a s1 es e' m"
  then obtain pre post s2 c2 a2 where "es = pre @ e' # post" "interleave parse a s1 pre = Some (s2, c2, a2)" "m = cm s2"
    by (auto simp: met_by_def)
  with assms show "met_by parse a s (e # es) e' m"
    unfolding met_by_def by (intro exI [of _ "e # pre"] exI [of _ post]) (auto simp: interleave_Cons_iff)
next
  show "met_by parse a s (e # es) e (cm s)"
    unfolding met_by_def by (intro exI [of _ "[]"] exI [of _ es]) simp
qed

lemma accepted_from:
  assumes "interleave parse a s es = Some (s', calls, as)"
  shows "AcceptIn (Inr (w, m, peer)) \<in> set as \<Longrightarrow> met_by parse a s es (Inbound w peer) m"
    and "AcceptOut (Inr (w, m, file, sockopt)) \<in> set as \<Longrightarrow> met_by parse a s es (Outbound w file sockopt) m"
proof -
  have "(AcceptIn (Inr (w, m, peer)) \<in> set as \<longrightarrow> met_by parse a s es (Inbound w peer) m) \<and>
    (AcceptOut (Inr (w, m, file, sockopt)) \<in> set as \<longrightarrow> met_by parse a s es (Outbound w file sockopt) m)"
    using assms
  proof (induction es arbitrary: s calls as)
    case Nil
    then show ?case by simp
  next
    case (Cons e es)
    then obtain s1 c1 a1 c2 a2 where step: "sys_step parse a s e = Some (s1, c1, a1)"
      and rest: "interleave parse a s1 es = Some (s', c2, a2)" and as: "as = a1 @ a2"
      by (auto simp: interleave_Cons_iff)
    show ?case
      unfolding as using Cons.IH [OF rest] met_by_Cons [OF step] step
      by (cases e) (auto split: if_splits)
  qed
  then show "AcceptIn (Inr (w, m, peer)) \<in> set as \<Longrightarrow> met_by parse a s es (Inbound w peer) m"
    and "AcceptOut (Inr (w, m, file, sockopt)) \<in> set as \<Longrightarrow> met_by parse a s es (Outbound w file sockopt) m"
    by blast+
qed

lemma run_system_SomeE:
  assumes "run_system getenv parse listen shutdownErr st es ds = Some (s', calls, Inr (acts, r))"
  obtains as where "interleave parse (st_args st) (st_rotation st) es = Some (s', calls, as)"
    "choose_mode getenv (st_proxy st) \<noteq> DirectMode"
    "acts = fst (run_intercepting (choose_mode getenv (st_proxy st)) listen (st_proxy st) getenv as)"
proof -
  from assms obtain as where "interleave parse (st_args st) (st_rotation st) es = Some (s', calls, as)"
    "Run getenv listen shutdownErr (st_proxy st) as ds = Inr (acts, r)"
    by (auto simp: run_system_def)
  with Run_intercepting [OF this(2)] that show thesis by (metis fst_conv)
qed

lemma system_inbound:
  assumes "run_system getenv parse listen shutdownErr st es ds = Some (s', calls, Inr (acts, r))"
    and "InboundHandler h \<in> set acts"
  shows "\<exists>w peer m. met_by parse (st_args st) (st_rotation st) es (Inbound w peer) m \<and>
    choose_mode getenv (st_proxy st) \<noteq> DirectMode \<and>
    h = handle_inbound (choose_mode getenv (st_proxy st)) (st_proxy st) (getenv ''POD_IP'') (w, m, peer)"
  using assms(1)
proof (rule run_system_SomeE)
  fix as
  assume run: "interleave parse (st_args st) (st_rotation st) es = Some (s', calls, as)"
    and mode: "choose_mode getenv (st_proxy st) \<noteq> DirectMode"
    and "acts = fst (run_intercepting (choose_mode getenv (st_proxy st)) listen (st_proxy st) getenv as)"
  with assms(2) run_actions(1) obtain x where "AcceptIn (Inr x) \<in> set as"
    "h = handle_inbound (choose_mode getenv (st_proxy st)) (st_proxy st) (getenv ''POD_IP'') x" by blast
  with mode accepted_from(1) [OF run] show ?thesis by (cases x) blast
qed

lemma system_outbound:
  assumes "run_system getenv parse listen shutdownErr st es ds = Some (s', calls, Inr (acts, r))"
    and "OutboundHandler h \<in> set acts"
  shows "\<exists>w file sockopt m. met_by parse (st_args st) (st_rotation st) es (Outbound w file sockopt) m \<and>
    h = handle_outbound (st_proxy st) (getenv ''POD_IP'') (w, m, file, sockopt)"
  using assms(1)
proof (rule run_system_SomeE)
  fix as
  assume run: "interleave parse (st_args st) (st_rotation st) es = Some (s', calls, as)"
    and "acts = fst (run_intercepting (choose_mode getenv (st_proxy st)) listen (st_proxy st) getenv as)"
  with assms(2) run_actions(2) obtain x where "AcceptOut (Inr x) \<in> set as"
    "h = handle_outbound (st_proxy st) (getenv ''POD_IP'') x" by blast
  with accepted_from(2) [OF run] show ?thesis by (cases x) blast
qed

text \<open>Every state and manager of a run belongs to a run of the rotation alone.\<close>

lemma met_by_rotation:
  assumes "met_by parse a s es e m"
  shows "\<exists>pre post s1 c1. es = pre @ e # post \<and> rot_run parse a s (rot_events pre) = Some (s1, c1) \<and> m = cm s1"
  using assms interleave_rotation unfolding met_by_def by blast

section \<open>A well-typed running system\<close>

definition wf_manager :: "CertManager \<Rightarrow> bool" where
  "wf_manager m \<longleftrightarrow> (\<exists>c. CurrentCert m = Some c \<and> usable_cert c) \<and>
     RetryDelay m = seconds 60 \<and> RenewalWindow m = seconds (5 * 60)"

fun wf_pc :: "rot_pc \<Rightarrow> bool" where
  "wf_pc (PSleep d) = (0 < sint d)"
| "wf_pc PPanic = False"
| "wf_pc PFetchInitial = False"
| "wf_pc _ = True"

definition wf_rotation :: "rotation \<Rightarrow> bool" where
  "wf_rotation s \<longleftrightarrow> wf_manager (cm s) \<and> (\<exists>t. tok s = Some t \<and> TokMu t) \<and> wf_pc (rpc_at s)"

lemma sleep_from_manager: "wf_manager m \<Longrightarrow> 0 < sint (sleep_duration m notAfter now)"
  using sleep_schedule [of m notAfter now] sint_seconds [of "5 * 60"] by (simp add: wf_manager_def Let_def)

lemma wf_loop_head:
  assumes "wf_rotation s" "loop_head parse a s now = (s', cs)"
  shows "wf_rotation s'"
  using assms sleep_from_manager
  by (auto simp: wf_rotation_def loop_head_def usable_cert_def split: option.splits list.splits if_splits)
    (auto simp: wf_manager_def usable_cert_def)

context cert_fetcher
begin

lemma wf_rot_step:
  assumes "wf_rotation s" "answered e" "rot_step parse a s e = Some (s', cs)"
  shows "wf_rotation s'"
proof (cases e)
  case (Iterate now)
  with assms show ?thesis
    by (cases "loop_head parse a s now") (auto dest: wf_loop_head split: if_splits)
next
  case (FetchReturns res)
  with assms show ?thesis
    by (auto simp: wf_rotation_def wf_manager_def install_def answered_def intro: fetch_usable
        split: if_splits sum.splits)
qed (use assms in \<open>auto simp: wf_rotation_def split: if_splits sum.splits rot_pc.splits\<close>)

lemma wf_rot_run:
  assumes "wf_rotation s" "list_all answered es" "rot_run parse a s es = Some (s', calls)"
  shows "wf_rotation s'"
  using rot_run_invariant [of wf_rotation answered parse a "\<lambda>_. True" s es s' calls] assms
    wf_rot_step by (simp add: list_all_iff)

end

section \<open>The start\<close>

lemma first_success_started:
  assumes "first_success (attempts_of getenv envs) = Some (n, st)"
  shows "snd (NewProxy (envs n) (data_plane_config getenv)) = Inr st"
  using first_success_cases [of "attempts_of getenv envs"] assms by (auto simp: attempts_of_def)

lemma started_proxy:
  assumes "first_success (attempts_of getenv envs) = Some (n, st)"
  shows "p_cfg (st_proxy st) = data_plane_config getenv"
    "p_certManager (st_proxy st) = cm (st_rotation st)" "rpc_at (st_rotation st) = PLoop"
    "\<exists>pem. ReadFile (envs n) (CACertPath (data_plane_config getenv)) = Inr pem \<and>
       p_caCertPool (st_proxy st) = pool_of_pem (envs n) pem"
  using first_success_started [OF assms] by (auto simp: NewProxy_Inr_iff)

text \<open>Every certificate of the outside world comes through the real fetcher.\<close>

definition really_fetched ::
  "(string \<Rightarrow> string list) \<Rightarrow> (string \<Rightarrow> string \<Rightarrow> bool) \<Rightarrow> start_env \<Rightarrow> sys_event list \<Rightarrow> bool" where
  "really_fetched blocks fits e es \<longleftrightarrow>
     (\<forall>token sp r. fetchCert e token sp = Inr r \<longrightarrow> (\<exists>rpc. Fetch rpc blocks fits token sp = Inr r)) \<and>
     (\<forall>r. Rotate (FetchReturns (Inr r)) \<in> set es \<longrightarrow> (\<exists>rpc t sp. Fetch rpc blocks fits t sp = Inr r))"

lemma really_fetched_answered:
  "really_fetched blocks fits e es \<Longrightarrow> list_all (real_fetcher.answered blocks fits) (rot_events es)"
  by (auto simp: really_fetched_def list_all_iff real_fetcher.answered_def set_rot_events)

lemma rot_events_append: "rot_events (xs @ ys) = rot_events xs @ rot_events ys"
  by (induction xs rule: rot_events.induct) auto

lemma started_wf:
  assumes "first_success (attempts_of getenv envs) = Some (n, st)" "really_fetched blocks fits (envs n) es"
  shows "wf_rotation (st_rotation st)"
  using first_success_started [OF assms(1)] assms(2) real_fetcher.fetch_usable
  by (fastforce simp: NewProxy_Inr_iff really_fetched_def wf_rotation_def wf_manager_def new_manager_def)

lemma system_wf:
  assumes "first_success (attempts_of getenv envs) = Some (n, st)" "really_fetched blocks fits (envs n) es"
    and "rot_run parse (st_args st) (st_rotation st) (rot_events pre) = Some (s1, c1)" "es = pre @ post"
  shows "wf_rotation s1"
  using started_wf [OF assms(1,2)] really_fetched_answered [OF assms(2)] assms(3,4)
  by (auto simp: rot_events_append intro: real_fetcher.wf_rot_run)

text \<open>A manager some connection meets is well-formed and holds what was installed last.\<close>

lemma met_manager:
  assumes "first_success (attempts_of getenv envs) = Some (n, st)" "really_fetched blocks fits (envs n) es"
    and "met_by parse (st_args st) (st_rotation st) es e m"
  shows "wf_manager m \<and> (\<exists>pre post. es = pre @ e # post \<and>
    (CurrentCert m, CurrentPodUid m) =
      last_installed (CurrentCert (cm (st_rotation st)), CurrentPodUid (cm (st_rotation st))) (rot_events pre))"
proof -
  from met_by_rotation [OF assms(3)] obtain pre post s1 c1 where es: "es = pre @ e # post"
    and run: "rot_run parse (st_args st) (st_rotation st) (rot_events pre) = Some (s1, c1)" and m: "m = cm s1" by blast
  from system_wf [OF assms(1,2) run es] have "wf_manager m" by (simp add: wf_rotation_def m)
  with es m rot_run_installed [OF run] show ?thesis by blast
qed

lemma outbound_config:
  assumes "CurrentCert m = Some cert" "DialTLS addr config ok \<in> set (handle_outbound p podIP (w, m, file, sockopt))"
  shows "Certificates config = [cert] \<and> RootCAs config = p_caCertPool p"
  using assms
  by (auto simp: handle_outbound_def handler_defs GetCurrentCertificate_def outbound_literal_def
      split: sum.splits if_splits)

lemma wf_manager_cert: "wf_manager m \<Longrightarrow> GetCurrentCertificate m \<noteq> None"
  by (auto simp: wf_manager_def GetCurrentCertificate_def)

section \<open>Properties\<close>



text \<open>
  C10: The running system stays well-typed: started from any environment, after every run of
  connections and rotations the configuration is well-formed, the manager holds a usable
  certificate with the delays it was made with, the token container and its mutex are there, and the goroutine
  is at a point of its loop from which it cannot crash, with a positive delay when it sleeps.
\<close>

theorem running_system_well_typed:
  assumes "first_success (attempts_of getenv envs) = Some (n, st)" "really_fetched blocks fits (envs n) es"
    and "interleave parse (st_args st) (st_rotation st) es = Some (s', calls, as)"
  shows "config_wf (p_cfg (st_proxy st)) \<and> wf_rotation s' \<and>
    (\<forall>w m peer. AcceptIn (Inr (w, m, peer)) \<in> set as \<longrightarrow> wf_manager m) \<and>
    (\<forall>w m file sockopt. AcceptOut (Inr (w, m, file, sockopt)) \<in> set as \<longrightarrow> wf_manager m)"
proof -
  have "config_wf (data_plane_config getenv)"
    unfolding data_plane_config_def Let_def
    by (rule Load_wf) (simp_all add: CreateProxyConfig_def int64_def)
  moreover have "wf_rotation s'"
    using system_wf [OF assms(1,2) interleave_rotation [OF assms(3)], of "[]"] by simp
  ultimately show ?thesis
    using started_proxy(1) [OF assms(1)] met_manager [OF assms(1,2)] accepted_from [OF assms(3)] by metis
qed

section \<open>A concrete system\<close>

definition example_getenv :: environ where
  "example_getenv k = (if k = ''PROXY_MODE'' then ''redirect'' else [])"

definition example_start :: started where
  "example_start = projr (snd (NewProxy example_env (data_plane_config example_getenv)))"

lemma example_config:
  "TrustedDomain (data_plane_config example_getenv) = ''cluster.local''"
  "ProxyPort (data_plane_config example_getenv) = 15006"
  "InboundPort (data_plane_config example_getenv) = 15006" "OutboundPort (data_plane_config example_getenv) = 15001"
  "TargetURL (data_plane_config example_getenv) = ''http://localhost:3005''"
  by (simp_all add: data_plane_config_def Let_def data_plane_port_def CreateProxyConfig_def load_defs or_default_def
      port_from_env_def example_getenv_def)

lemma example_NewProxy_main:
  "\<exists>p a. snd (NewProxy example_env (data_plane_config example_getenv)) =
     Inr \<lparr>st_proxy = p, st_rotation = \<lparr>cm = p_certManager p, tok = Some \<lparr>TokMu = True, Token = ''t0''\<rparr>, rpc_at = PLoop\<rparr>,
       st_args = a\<rparr> \<and> p_cfg p = data_plane_config example_getenv \<and> p_caCertPool p = [''pem''] \<and>
     CurrentCert (p_certManager p) = Some \<lparr>Certificate = Some [''der0''], PrivateKey = ''key0''\<rparr>"
  by (simp add: NewProxy_def Let_def example_env_def ParseJWT_def GetSpiffeId_def example_config
      Fetch_def X509KeyPair_def new_manager_def)

lemma example_first_success:
  "first_success (attempts_of example_getenv (\<lambda>_. example_env)) = Some (0, example_start)"
proof -
  have ok: "attempts_of example_getenv (\<lambda>_. example_env) i = Inr example_start" for i
    using example_NewProxy_main by (auto simp: attempts_of_def example_start_def)
  then have "filter (\<lambda>i. \<not> isl (attempts_of example_getenv (\<lambda>_. example_env) i)) [0..<11] = [0..<11]"
    by (simp add: filter_id_conv)
  then show ?thesis by (simp add: first_success_def upt_rec [of 0] ok)
qed

text \<open>An inbound connection of a verified client, a rotation, an outbound connection.\<close>

definition example_open :: net_world where
  "example_open = example_world\<lparr>verify_client := (\<lambda>pool chain. pool = [''pem''])\<rparr>"

definition example_sys :: "sys_event list" where
  "example_sys =
     [Inbound example_open example_peer, Rotate (Iterate 0), Rotate TimerFires, Rotate (TokenReturns (Inr ''t1'')),
      Rotate (FetchReturns (Inr example_result)),
      Outbound example_open (Inr 3) (\<lambda>_ _. Inr (sockaddr_in [10, 0, 0, 7] 8080))]"

lemma example_really_fetched: "really_fetched (\<lambda>pem. [pem]) (\<lambda>der key. True) example_env es"
  if "es = example_sys"
  using example_fetch unfolding really_fetched_def that
  by (auto simp: example_env_def example_sys_def)

lemma example_interleave:
  "\<exists>s' calls m. interleave example_parse (st_args example_start) (st_rotation example_start) example_sys =
     Some (s', calls, [AcceptIn (Inr (example_open, p_certManager (st_proxy example_start), example_peer)),
       AcceptOut (Inr (example_open, m, Inr 3, (\<lambda>_ _. Inr (sockaddr_in [10, 0, 0, 7] 8080))))]) \<and>
     CurrentCert m = Some (IdCertificate example_result) \<and> cm s' = m"
  using example_NewProxy_main
  by (auto simp: example_start_def example_sys_def interleave.simps(2) loop_head_def token_ok_def example_parse_def
      install_def)

lemma example_choose: "choose_mode example_getenv (st_proxy example_start) = RedirectMode"
  using example_NewProxy_main by (auto simp: choose_mode_def example_start_def example_config)

lemma example_run_system:
  "\<exists>s' calls h h'. run_system example_getenv example_parse (\<lambda>_. None) None example_start example_sys [] =
     Some (s', calls, Inr ([ListenInbound RedirectMode 15006 True, ListenOutbound 15001 True,
       InboundHandler h, OutboundHandler h'], None)) \<and> list_ex reaches_out h"
proof -
  have ports: "InboundPort (p_cfg (st_proxy example_start)) = 15006" "OutboundPort (p_cfg (st_proxy example_start)) = 15001"
    using example_NewProxy_main
    by (auto simp: example_start_def example_config)
  have reach: "list_ex reaches_out (handle_inbound RedirectMode (st_proxy example_start) [] (example_open,
      p_certManager (st_proxy example_start), example_peer))"
    using example_NewProxy_main
    by (auto simp: handle_inbound_def Let_def inbound_reaches_iff example_open_def example_world_def example_config
        example_start_def GetCurrentCertificate_def example_peer_def)
  obtain s' calls m where "interleave example_parse (st_args example_start) (st_rotation example_start) example_sys =
     Some (s', calls, [AcceptIn (Inr (example_open, p_certManager (st_proxy example_start), example_peer)),
       AcceptOut (Inr (example_open, m, Inr 3, (\<lambda>_ _. Inr (sockaddr_in [10, 0, 0, 7] 8080))))])"
    using example_interleave by blast
  then show ?thesis
    using reach
    by (auto simp: run_system_def Run_def example_choose runRedirectMode_def run_intercepting_def Let_def ports
        example_getenv_def)
qed



theorem running_system_well_typed_witness:
  "\<exists>s' calls as. interleave example_parse (st_args example_start) (st_rotation example_start) example_sys =
     Some (s', calls, as) \<and> wf_rotation s'"
proof -
  from example_interleave obtain s' calls as where
    run: "interleave example_parse (st_args example_start) (st_rotation example_start) example_sys = Some (s', calls, as)"
    by blast
  from running_system_well_typed [OF example_first_success example_really_fetched [OF refl] run] run
  show ?thesis by blast
qed

end
