(* ===== verification/Pod.thy ===== *)
theory Pod
  imports Netfilter System
begin

text \<open>
  An injected pod: the init container and the sidecar with the arguments and the environment that
  \<open>SidecarInjectionWebhook.java\<close> writes into the pod, the kernel between them. The theorems
  compose the packet rules of one program with the listeners and handlers of the other.
\<close>

section \<open>What the webhook injects\<close>

record webhook_values =
  wv_serviceName :: string
  wv_trustDomain :: string
  wv_controlPlaneUrl :: string
  wv_targetGrpc :: string
  wv_podName :: string
  wv_podUID :: string
  wv_namespace :: string
  wv_serviceAccount :: string
  wv_podIP :: string

text \<open>The sidecar's environment; a variable that is not set reads as the empty string.\<close>

definition injected_env :: "webhook_values \<Rightarrow> int \<Rightarrow> environ" where
  "injected_env v appPort name =
     (case map_of
        [(''SERVICE_NAME'', wv_serviceName v),
         (''SPIFFE_TRUST_DOMAIN'', wv_trustDomain v),
         (''CONTROL_PLANE_URL'', wv_controlPlaneUrl v @ ''/api/v1/identity/issue''),
         (''TARGET_GRPC'', wv_targetGrpc v),
         (''TARGET_URL'', ''http://localhost:'' @ int_str appPort),
         (''PROXY_MODE'', ''redirect''),
         (''POD_NAME'', wv_podName v),
         (''POD_UID'', wv_podUID v),
         (''KUBERNETES_NAMESPACE'', wv_namespace v),
         (''SERVICE_ACCOUNT'', wv_serviceAccount v),
         (''CA_CERT_PATH'', ''/etc/certs/root_ca.crt''),
         (''POD_IP'', wv_podIP v)] name of
        None \<Rightarrow> []
      | Some value \<Rightarrow> value)"

text \<open>The init container's arguments, over the defaults of its flags. The sidecar runs as user 1337.\<close>

definition injected_flags :: "string \<Rightarrow> init_flags" where
  "injected_flags portAnnotation = default_flags\<lparr>f_mode := ''REDIRECT'', f_inboundPort := 15006,
     f_outboundPort := 15001, f_servicePort := portAnnotation\<rparr>"

definition sidecar_user :: int where
  "sidecar_user = 1337"

section \<open>Lemmas\<close>

lemma injected_config:
  "InboundPort (data_plane_config (injected_env v port)) = 15006"
  "OutboundPort (data_plane_config (injected_env v port)) = 15001"
  "ProxyPort (data_plane_config (injected_env v port)) = 15006"
  "TargetURL (data_plane_config (injected_env v port)) = ''http://localhost:'' @ int_str port"
  "CACertPath (data_plane_config (injected_env v port)) = ''/etc/certs/root_ca.crt''"
  by (simp_all add: data_plane_config_def Let_def data_plane_port_def CreateProxyConfig_def load_defs or_default_def
      port_from_env_def injected_env_def)

lemma injected_flags_simps [simp]:
  "f_mode (injected_flags ann) \<noteq> ''TPROXY''" "\<not> f_dryRun (injected_flags ann)"
  "f_inboundPort (injected_flags ann) = 15006" "f_outboundPort (injected_flags ann) = 15001"
  "f_proxyUID (injected_flags ann) = sidecar_user" "excluded (injected_flags ann) = []"
  by (simp_all add: injected_flags_def default_flags_def sidecar_user_def excluded_def)

lemma injected_plain: "plain_word ann \<Longrightarrow> plain_flags (injected_flags ann)"
  by (simp add: plain_flags_def) (simp add: injected_flags_def)

lemma injected_cmds: "container_cmds (injected_flags ann) = redirect_spec (injected_flags ann)"
  by (simp add: container_cmds_def)

lemma int_str_digits: "0 \<le> i \<Longrightarrow> list_all is_digit (int_str i)"
  by (simp add: int_str_def)

lemma injected_target:
  assumes "0 \<le> port"
  shows "''http://localhost:'' @ int_str port = target_text ''http'' ''localhost'' (int_str port) [] \<and>
    target_parts ''http'' ''localhost'' (int_str port) []"
  using int_str_digits [OF assms] example_target_parts by (simp add: target_parts_def target_text_def)

text \<open>Every plain connection of a handler of the running system goes to the target's host.\<close>

lemma system_dials:
  assumes "run_system getenv parse listen shutdownErr st es ds = Some (s', calls, Inr (acts, r))"
    and "InboundHandler h \<in> set acts \<or> OutboundHandler h \<in> set acts" "DialTCP a ok \<in> set h"
  shows "\<exists>w. url_Host w (TargetURL (p_cfg (st_proxy st))) = Inr a"
  using assms(2)
proof
  assume "InboundHandler h \<in> set acts"
  with system_inbound [OF assms(1)] obtain w peer m where
    "h = handle_inbound (choose_mode getenv (st_proxy st)) (st_proxy st) (getenv ''POD_IP'') (w, m, peer)" by blast
  with assms(3) dials_target(1,3) [where p = "(st_proxy st)\<lparr>p_certManager := m\<rparr>"] show ?thesis
    by (fastforce simp: handle_inbound_def Let_def split: if_splits)
next
  assume "OutboundHandler h \<in> set acts"
  with system_outbound [OF assms(1)] obtain w f sockopt m where
    "h = handle_outbound (st_proxy st) (getenv ''POD_IP'') (w, m, f, sockopt)" by blast
  with assms(3) dials_target(2) [where p = "(st_proxy st)\<lparr>p_certManager := m\<rparr>"] show ?thesis
    by (fastforce simp: handle_outbound_def)
qed

lemma listeners_opened:
  assumes "run_system getenv parse listen shutdownErr st es ds = Some (s', calls, Inr (acts, r))"
    and "listen (InboundPort (p_cfg (st_proxy st))) = None" "listen (OutboundPort (p_cfg (st_proxy st))) = None"
  shows "take 2 acts = [ListenInbound (choose_mode getenv (st_proxy st)) (InboundPort (p_cfg (st_proxy st))) True,
    ListenOutbound (OutboundPort (p_cfg (st_proxy st))) True]"
  using assms(1)
proof (rule run_system_SomeE)
  fix as
  assume "acts = fst (run_intercepting (choose_mode getenv (st_proxy st)) listen (st_proxy st) getenv as)"
  with assms(2,3) show ?thesis by (simp add: run_intercepting_def Let_def split_beta)
qed

text \<open>The packet rules of an injected pod.\<close>

lemma injected_rules:
  assumes "documented matches" "has_builtins k" "plain_word ann"
  shows "argvs (init_main (injected_flags ann) lookPath exec) =
      List.map (\<lambda>c. findIptables lookPath # tl (render c)) (container_cmds (injected_flags ann)) \<and>
    (let k' = container_runs (fs @ [injected_flags ann]) k in
      kernel_fate k' matches ''nat'' ''PREROUTING'' p = (if matches Tcp p then RedirectedTo 15006 else Passed) \<and>
      kernel_fate k' matches ''nat'' ''OUTPUT'' p =
        (if matches Tcp p \<and> \<not> matches (TcpPort ''9090'') p \<and> \<not> matches (OwnedBy sidecar_user) p \<and>
            \<not> matches Established p
         then RedirectedTo 15001 else Passed))"
  using redirect_fate [OF assms(1), of "injected_flags ann" p]
    argvs_setupIPTables [OF injected_plain [OF assms(3)], of lookPath exec]
  unfolding Let_def kernel_fate_nat [OF assms(2) injected_flags_simps(2)] argvs_init_main injected_cmds by simp

text \<open>Its sidecar: listeners and plaintext connections.\<close>

lemma injected_serves:
  assumes "listen 15006 = None" "listen 15001 = None" "0 \<le> port"
    and "first_success (attempts_of (injected_env v port) envs) = Some (n, st)"
    and "run_system (injected_env v port) parse listen shutdownErr st es ds = Some (s', calls, Inr (acts, r))"
  shows "take 2 acts = [ListenInbound RedirectMode 15006 True, ListenOutbound 15001 True] \<and>
    (\<forall>h a ok. InboundHandler h \<in> set acts \<or> OutboundHandler h \<in> set acts \<longrightarrow> DialTCP a ok \<in> set h \<longrightarrow>
       a = ''localhost:'' @ int_str port)"
proof -
  note cfg = started_proxy(1) [OF assms(4)]
  have mode: "choose_mode (injected_env v port) (st_proxy st) = RedirectMode"
    by (simp add: choose_mode_def cfg injected_config)
  have "take 2 acts = [ListenInbound RedirectMode 15006 True, ListenOutbound 15001 True]"
    using listeners_opened [OF assms(5)] assms(1,2) by (simp add: cfg injected_config mode)
  moreover have "a = ''localhost:'' @ int_str port"
    if "InboundHandler h \<in> set acts \<or> OutboundHandler h \<in> set acts" "DialTCP a ok \<in> set h" for h a ok
    using system_dials [OF assms(5) that] url_Host_target [of "''http''" "''localhost''" "int_str port" "[]"]
      injected_target [OF assms(3)] by (auto simp: cfg injected_config)
  ultimately show ?thesis by blast
qed

section \<open>Properties\<close>

text \<open>
  Both halves of an injected pod meet. The init container executes its structured rules and nothing
  else, and whatever packet rules were there before, after it has run every TCP packet that arrives is sent to port 15006, where the sidecar has its mutual TLS
  listener, and every new TCP packet the application sends (but for port 9090) to port 15001,
  where the sidecar has its outbound listener; the sidecar's own packets pass. And whatever it
  receives, the only plaintext connections the sidecar opens are to the application's port on
  \<open>localhost\<close>.
\<close>

theorem injected_pod_intercepts:
  assumes "documented matches" "has_builtins k" "plain_word ann" "listen 15006 = None" "listen 15001 = None" "0 \<le> port"
    and "first_success (attempts_of (injected_env v port) envs) = Some (n, st)"
    and "run_system (injected_env v port) parse listen shutdownErr st es ds = Some (s', calls, Inr (acts, r))"
  shows "argvs (init_main (injected_flags ann) lookPath exec) =
      List.map (\<lambda>c. findIptables lookPath # tl (render c)) (container_cmds (injected_flags ann)) \<and>
    (let k' = container_runs (fs @ [injected_flags ann]) k in
      kernel_fate k' matches ''nat'' ''PREROUTING'' p = (if matches Tcp p then RedirectedTo 15006 else Passed) \<and>
      kernel_fate k' matches ''nat'' ''OUTPUT'' p =
        (if matches Tcp p \<and> \<not> matches (TcpPort ''9090'') p \<and> \<not> matches (OwnedBy sidecar_user) p \<and>
            \<not> matches Established p
         then RedirectedTo 15001 else Passed)) \<and>
    take 2 acts = [ListenInbound RedirectMode 15006 True, ListenOutbound 15001 True] \<and>
    (\<forall>h a ok. InboundHandler h \<in> set acts \<or> OutboundHandler h \<in> set acts \<longrightarrow> DialTCP a ok \<in> set h \<longrightarrow>
       a = ''localhost:'' @ int_str port)"
  using injected_rules [OF assms(1-3), of lookPath exec fs p] injected_serves [OF assms(4-8)]
  by (elim conjE, intro conjI) assumption+

section \<open>A concrete pod\<close>

definition example_values :: webhook_values where
  "example_values = \<lparr>wv_serviceName = ''cart'', wv_trustDomain = ''td'', wv_controlPlaneUrl = ''http://cp:8081'',
     wv_targetGrpc = ''cp:9090'', wv_podName = ''cart-0'', wv_podUID = ''u0'', wv_namespace = ''shop'',
     wv_serviceAccount = ''cart'', wv_podIP = ''10.0.0.7''\<rparr>"

abbreviation example_pod_env :: environ where
  "example_pod_env \<equiv> injected_env example_values 8080"

definition example_pod_start :: started where
  "example_pod_start = projr (snd (NewProxy example_env (data_plane_config example_pod_env)))"

lemma example_pod_first_success:
  "first_success (attempts_of example_pod_env (\<lambda>_. example_env)) = Some (0, example_pod_start)"
proof -
  have "TrustedDomain (data_plane_config example_pod_env) = ''td''"
    by (simp add: data_plane_config_def Let_def CreateProxyConfig_def load_defs or_default_def injected_env_def
        example_values_def)
  then have "\<exists>st. snd (NewProxy example_env (data_plane_config example_pod_env)) = Inr st"
    by (simp add: NewProxy_def Let_def example_env_def ParseJWT_def GetSpiffeId_def Fetch_def X509KeyPair_def)
  then have ok: "attempts_of example_pod_env (\<lambda>_. example_env) i = Inr example_pod_start" for i
    by (auto simp: attempts_of_def example_pod_start_def)
  then have "filter (\<lambda>i. \<not> isl (attempts_of example_pod_env (\<lambda>_. example_env) i)) [0..<11] = [0..<11]"
    by (simp add: filter_id_conv)
  then show ?thesis by (simp add: first_success_def upt_rec [of 0] ok)
qed

theorem injected_pod_intercepts_witness:
  "kernel_fate (container_runs [default_flags, injected_flags ''8080''] fresh_kernel) example_matches ''nat'' ''OUTPUT''
     (''80'', 1337) = Passed \<and>
   (\<exists>s' calls acts r. run_system example_pod_env example_parse (\<lambda>_. None) None example_pod_start [] [] =
      Some (s', calls, Inr (acts, r)) \<and> take 2 acts = [ListenInbound RedirectMode 15006 True, ListenOutbound 15001 True])"
proof -
  have "choose_mode example_pod_env (st_proxy example_pod_start) = RedirectMode"
    using started_proxy(1) [OF example_pod_first_success] by (simp add: choose_mode_def injected_config)
  then obtain s' calls acts r where run: "run_system example_pod_env example_parse (\<lambda>_. None) None example_pod_start [] [] =
      Some (s', calls, Inr (acts, r))"
    by (simp add: run_system_def Run_def runRedirectMode_def)
      (cases "run_intercepting RedirectMode (\<lambda>_. None) (st_proxy example_pod_start) example_pod_env []", blast)
  have ann: "plain_word ''8080''" by (simp add: printable_def)
  from injected_pod_intercepts [OF example_documented fresh_kernel_ok(1) ann _ _ _ example_pod_first_success run,
      of "\<lambda>_. True" "\<lambda>_. True" "[default_flags]" "(''80'', 1337)"] run
  show ?thesis by (auto simp: Let_def sidecar_user_def simp del: container_runs_snoc)
qed

end
