(* ===== verification/Cluster.thy ===== *)
theory Cluster
  imports Pod Mesh
begin

text \<open>
  Two injected pods, each with the packet rules of its init container and a sidecar whose rotation goes on
  while it serves: how a request of the application in pod \<open>A\<close> reaches the application in pod \<open>B\<close>. The
  network between them is the destination the kernel of \<open>A\<close> reports, and the TLS server that answers
  there: the sidecar of \<open>B\<close> with the certificate it holds.
\<close>

section \<open>A running pod\<close>

text \<open>The sidecar of an injected pod has started, and its certificates come from the real fetcher.\<close>

definition pod_runs ::
  "(string \<Rightarrow> string list) \<Rightarrow> (string \<Rightarrow> string \<Rightarrow> bool) \<Rightarrow> webhook_values \<Rightarrow> int \<Rightarrow> (nat \<Rightarrow> start_env) \<Rightarrow> started \<Rightarrow>
   sys_event list \<Rightarrow> bool" where
  "pod_runs blocks fits v port envs st es \<longleftrightarrow> 0 \<le> port \<and>
     (case first_success (attempts_of (injected_env v port) envs) of
        None \<Rightarrow> False
      | Some (n, st') \<Rightarrow> st' = st \<and> really_fetched blocks fits (envs n) es)"

lemma pod_runsE:
  assumes "pod_runs blocks fits v port envs st es"
  obtains n where "first_success (attempts_of (injected_env v port) envs) = Some (n, st)"
    "really_fetched blocks fits (envs n) es" "0 \<le> port"
  using assms by (auto simp: pod_runs_def split: option.splits)

text \<open>The handlers of the two connections.\<close>

definition caller_handler ::
  "webhook_values \<Rightarrow> int \<Rightarrow> started \<Rightarrow> net_world \<times> CertManager \<times> (string, int) result \<times> (int \<Rightarrow> int \<Rightarrow> (string, bytes) result) \<Rightarrow>
   net_action list" where
  "caller_handler v port st x = handle_outbound (st_proxy st) (injected_env v port ''POD_IP'') x"

definition callee_handler :: "webhook_values \<Rightarrow> int \<Rightarrow> started \<Rightarrow> net_world \<times> CertManager \<times> tls_peer \<Rightarrow> net_action list" where
  "callee_handler v port st x =
     handle_inbound (choose_mode (injected_env v port) (st_proxy st)) (st_proxy st) (injected_env v port ''POD_IP'') x"

lemma injected_mode:
  assumes "pod_runs blocks fits v port envs st es"
  shows "choose_mode (injected_env v port) (st_proxy st) = RedirectMode"
  using assms by (rule pod_runsE) (simp add: choose_mode_def started_proxy(1) injected_config)

lemma injected_url:
  assumes "pod_runs blocks fits v port envs st es"
  shows "url_Host w (TargetURL (p_cfg (st_proxy st))) = Inr (''localhost:'' @ int_str port)"
  using assms
proof (rule pod_runsE)
  fix n
  assume "first_success (attempts_of (injected_env v port) envs) = Some (n, st)" "0 \<le> port"
  then show ?thesis
    using url_Host_target [of "''http''" "''localhost''" "int_str port" "[]" w] injected_target [of port]
    by (simp add: started_proxy(1) injected_config)
qed

lemma met_cert:
  assumes "pod_runs blocks fits v port envs st es" "met_by parse (st_args st) (st_rotation st) es e m"
  shows "\<exists>cert der ders. CurrentCert m = Some cert \<and> usable_cert cert \<and> Certificate cert = Some (der # ders)"
  using assms(1)
proof (rule pod_runsE)
  fix n
  assume "first_success (attempts_of (injected_env v port) envs) = Some (n, st)" "really_fetched blocks fits (envs n) es"
  from met_manager [OF this assms(2)] obtain cert where "CurrentCert m = Some cert" "usable_cert cert"
    by (auto simp: wf_manager_def)
  then show ?thesis by (auto simp: usable_cert_def split: option.splits list.splits)
qed

section \<open>Lemmas\<close>

text \<open>What the sidecar of the caller does with a redirected connection to another pod.\<close>

lemma caller_relays:
  assumes "length ip = 4" "length pod = 4" "ip \<noteq> pod" "wv_podIP v = ip4_str pod"
    and "sockopt fd SO_ORIGINAL_DST = Inr (sockaddr_in ip port)" "CurrentCert m = Some cert"
    and "tls_server w (addr_str \<lparr>IP = ip, Port = uint port\<rparr>) = Some (presented cparse peer)" "usable_cert peer"
    and "client_stream w = [Inr req]"
  shows "relayed (caller_handler v p st (w, m, Inr fd, sockopt)) = [rewrite_req req]"
proof -
  have "GetOriginalDest (Inr fd) sockopt = Inr \<lparr>IP = ip, Port = uint port\<rparr>"
    using assms(1,5) by (rule GetOriginalDest_sockaddr)
  moreover have "\<not> is_pod (ip4_str pod) \<lparr>IP = ip, Port = uint port\<rparr>"
    using is_pod_ip4 [OF assms(1,2), of "uint port"] assms(3) by simp
  moreover have "peer_chain (presented cparse peer) \<noteq> []" "VersionTLS13 \<le> peer_version (presented cparse peer)"
    using assms(8) by (auto simp: presented_def usable_cert_def split: option.splits list.splits)
  then have "relayed (forwardOutboundPlain w ((st_proxy st)\<lparr>p_certManager := m\<rparr>) \<lparr>IP = ip, Port = uint port\<rparr>) = [rewrite_req req]"
    using assms(6,7,9) by (intro forwardOutboundPlain_relayed) (auto simp: GetCurrentCertificate_def)
  ultimately show ?thesis
    using assms(4)
    by (simp add: caller_handler_def handle_outbound_def handleOutboundConnection_def injected_env_def)
qed

text \<open>What the sidecar of the callee does with a connection of a verified client.\<close>

lemma callee_relays:
  assumes "pod_runs blocks fits v port envs st es" "CurrentCert m = Some own" "Certificate cert = Some (der # ders)"
    and "verify_client w (p_caCertPool (st_proxy st)) (List.map cparse (der # ders))"
    and "app_dial w (''localhost:'' @ int_str port)" "client_stream w = [Inr req]"
  shows "relayed (callee_handler v port st (w, m, presented cparse cert)) = [rewrite_req req] \<and>
    identities (callee_handler v port st (w, m, presented cparse cert)) = [ExtractIdentity (cparse der)]"
proof -
  let ?q = "(st_proxy st)\<lparr>p_certManager := m\<rparr>"
  have "tls_Handshake w ?q (GetInboundTLSConfig ?q) (presented cparse cert) = Some (cparse der # List.map cparse ders)"
    using assms(2-4) by (simp add: inbound_handshake presented_def GetCurrentCertificate_def)
  moreover have "url_Host w (TargetURL (p_cfg ?q)) = Inr (''localhost:'' @ int_str port)"
    using injected_url [OF assms(1)] by simp
  ultimately show ?thesis
    using handleRedirected_relayed [of w ?q "presented cparse cert"] assms(5,6) injected_mode [OF assms(1)]
    by (simp add: callee_handler_def handle_inbound_def Let_def)
qed

section \<open>Properties\<close>


section \<open>Two concrete pods\<close>

text \<open>Both pods run the sidecar of \<open>Pod\<close>; the application in \<open>10.0.0.7\<close> calls \<open>10.0.0.8\<close>.\<close>

definition held_cert :: tls_cert where
  "held_cert = \<lparr>Certificate = Some [''der0''], PrivateKey = ''key0''\<rparr>"

definition cluster_wA :: net_world where
  "cluster_wA = example_world\<lparr>tls_server := (\<lambda>_. Some (presented example_parse_cert held_cert))\<rparr>"

definition cluster_wB :: net_world where
  "cluster_wB = example_world\<lparr>verify_client := (\<lambda>pool chain. pool = [''pem''])\<rparr>"

definition cluster_sockopt :: "int \<Rightarrow> int \<Rightarrow> (string, bytes) result" where
  "cluster_sockopt fd opt = Inr (sockaddr_in [10, 0, 0, 8] 80)"

lemma started_manager:
  assumes "first_success (attempts_of getenv envs) = Some (n, st)"
  shows "\<exists>token spiffeId r. fetchCert (envs n) token spiffeId = Inr r \<and> cm (st_rotation st) = new_manager r"
proof -
  from first_success_started [OF assms] obtain token spiffeId r where
    "fetchCert (envs n) token spiffeId = Inr r" "cm (st_rotation st) = new_manager r"
    by (auto simp: NewProxy_Inr_iff)
  then show ?thesis by (intro exI conjI)
qed

lemma example_pod_started:
  "CurrentCert (cm (st_rotation example_pod_start)) = Some held_cert"
  "p_caCertPool (st_proxy example_pod_start) = [''pem'']"
proof -
  from started_manager [OF example_pod_first_success] obtain token spiffeId r where
    r: "fetchCert example_env token spiffeId = Inr r" and st: "cm (st_rotation example_pod_start) = new_manager r"
    by blast
  from r have "IdCertificate (r :: IdentityResult) = held_cert"
    by (auto simp: example_env_def Fetch_def X509KeyPair_def held_cert_def)
  then show "CurrentCert (cm (st_rotation example_pod_start)) = Some held_cert"
    unfolding st by (simp add: new_manager_def)
  from started_proxy(4) [OF example_pod_first_success]
  show "p_caCertPool (st_proxy example_pod_start) = [''pem'']"
    by (simp add: example_env_def)
qed

lemma example_pod_runs:
  assumes "rot_events es = []"
  shows "pod_runs (\<lambda>pem. [pem]) (\<lambda>der key. True) example_values 8080 (\<lambda>_. example_env) example_pod_start es"
proof -
  have "\<forall>r. Rotate (FetchReturns (Inr r)) \<notin> set es"
    using assms set_rot_events [of _ es] by auto
  then have "really_fetched (\<lambda>pem. [pem]) (\<lambda>der key. True) example_env es"
    by (auto simp: really_fetched_def example_env_def)
  then show ?thesis
    by (simp add: pod_runs_def example_pod_first_success)
qed

lemma met_by_first: "met_by parse a s [e] e (cm s)"
  unfolding met_by_def by (intro exI [of _ "[]"]) simp

lemma example_documented_packets:
  "example_matches Tcp (''80'', 1000)" "\<not> example_matches (TcpPort ''9090'') (''80'', 1000)"
  "\<not> example_matches (OwnedBy sidecar_user) (''80'', 1000)" "\<not> example_matches Established (''80'', 1000)"
  "example_matches (OwnedBy sidecar_user) (''80'', 1337)" "example_matches Tcp (''80'', 1337)"
  by (simp_all add: sidecar_user_def)


end
