(* ===== verification/SharedSystem.thy ===== *)
theory SharedSystem
  imports SharedCert System
begin

text \<open>
  The running data plane on shared memory: the connections of \<open>System\<close> are the calls of \<open>GetCurrentCertificate\<close> in
  \<open>SharedCert\<close>, in the order in which they return. What \<open>System\<close> shows of atomic steps then holds for every interleaving of
  memory accesses.
\<close>

section \<open>Connections of a run of the threads\<close>

fun connection :: "sys_event \<Rightarrow> bool" where
  "connection (Inbound w peer) = True"
| "connection (Outbound w f sockopt) = True"
| "connection _ = False"

text \<open>The certificates that calls have returned, and the events of the system when the calls serve these connections.\<close>

fun loaded :: "sh_label list \<Rightarrow> tls_cert option list" where
  "loaded [] = []"
| "loaded (VLoad i c # ls) = c # loaded ls"
| "loaded (_ # ls) = loaded ls"

fun sys_events :: "sh_label list \<Rightarrow> sys_event list \<Rightarrow> sys_event list" where
  "sys_events [] conns = []"
| "sys_events (VRot e cs # ls) conns = Rotate e # sys_events ls conns"
| "sys_events (VLoad i c # ls) [] = sys_events ls []"
| "sys_events (VLoad i c # ls) (x # conns) = x # sys_events ls conns"
| "sys_events (_ # ls) conns = sys_events ls conns"

fun served :: "accept_event \<Rightarrow> tls_cert option" where
  "served (AcceptIn (Inr (w, m, peer))) = GetCurrentCertificate m"
| "served (AcceptOut (Inr (w, m, f, sockopt))) = GetCurrentCertificate m"
| "served _ = None"

fun accepted_connection :: "accept_event \<Rightarrow> bool" where
  "accepted_connection (AcceptIn x) = (\<not> isl x)"
| "accepted_connection (AcceptOut x) = (\<not> isl x)"

section \<open>Lemmas\<close>

lemma connection_step:
  assumes "connection x"
  shows "\<exists>acc. sys_step parse a r x = Some (r, [], [acc]) \<and> served acc = GetCurrentCertificate (cm r) \<and> accepted_connection acc"
  using assms by (cases x) auto

lemma shared_run_interleaves:
  assumes "shared_run parse a s ls s'" "shared_inv s" "list_all connection conns" "length (loaded ls) = length conns"
  shows "\<exists>accs. interleave parse a (rotation_of s) (sys_events ls conns) = Some (rotation_of s', call_labels ls, accs) \<and>
    List.map served accs = loaded ls \<and> list_all accepted_connection accs"
  using assms
proof (induction arbitrary: conns rule: shared_run.induct)
  case (Nil s)
  then show ?case by simp
next
  case (Cons s l s1 ls s2)
  note label = shared_step_label [OF Cons.hyps(1) Cons.prems(1)]
  note IH = Cons.IH [OF shared_step_inv [OF Cons.hyps(1) Cons.prems(1)]]
  show ?case
  proof (cases l)
    case (VRot e cs)
    with IH [OF Cons.prems(2)] Cons.prems(3) obtain accs where
      "interleave parse a (rotation_of s1) (sys_events ls conns) = Some (rotation_of s2, call_labels ls, accs)"
      "List.map served accs = loaded ls" "list_all accepted_connection accs" by auto
    with VRot label show ?thesis by (intro exI [of _ accs]) (simp add: interleave_Cons_iff)
  next
    case (VLoad i c)
    with Cons.prems(3) obtain x conns' where conns: "conns = x # conns'" by (cases conns) simp_all
    with VLoad IH [of conns'] Cons.prems(2,3) obtain accs where accs:
      "interleave parse a (rotation_of s1) (sys_events ls conns') = Some (rotation_of s2, call_labels ls, accs)"
      "List.map served accs = loaded ls" "list_all accepted_connection accs" by auto
    from connection_step [of x parse a "rotation_of s"] Cons.prems(2) conns obtain acc where
      "sys_step parse a (rotation_of s) x = Some (rotation_of s, [], [acc])" "served acc = GetCurrentCertificate (cm (rotation_of s))"
      "accepted_connection acc" by auto
    with VLoad label accs conns show ?thesis by (intro exI [of _ "acc # accs"]) (simp add: interleave_Cons_iff)
  qed (use label IH Cons.prems in auto)
qed

text \<open>Every connection a run of the system accepts is served with a usable certificate.\<close>

lemma accepted_usable:
  assumes "first_success (attempts_of getenv envs) = Some (n, st)" "really_fetched blocks fits (envs n) es"
    and "interleave parse (st_args st) (st_rotation st) es = Some (s', calls, accs)" "acc \<in> set accs" "accepted_connection acc"
  shows "\<exists>cert. served acc = Some cert \<and> usable_cert cert"
proof -
  have "\<exists>cert. GetCurrentCertificate m = Some cert \<and> usable_cert cert"
    if "met_by parse (st_args st) (st_rotation st) es e m" for e m
    using met_manager [OF assms(1,2) that] by (auto simp: wf_manager_def GetCurrentCertificate_def)
  with accepted_from [OF assms(3)] assms(4,5) show ?thesis
    by (cases acc rule: served.cases) fastforce+
qed

section \<open>Properties\<close>

text \<open>
  C13: The data plane works on shared memory as it does in atomic steps. Let \<open>main\<close> have started a proxy, the goroutine and
  \<open>k\<close> handlers run as threads in any interleaving of their memory accesses, and the returned calls serve the
  connections \<open>conns\<close>: then these connections and the events of the rotation are a run of the system with the same
  calls to the outside, each handler works with exactly the certificate its call has returned, and this is always a usable one.
\<close>

theorem shared_memory_serves:
  assumes "first_success (attempts_of getenv envs) = Some (n, st)"
    and "shared_run parse (st_args st) (start_shared (st_rotation st) k) ls s"
    and "list_all connection conns" "length (loaded ls) = length conns"
    and "really_fetched blocks fits (envs n) (sys_events ls conns)"
  shows "\<exists>accs. interleave parse (st_args st) (st_rotation st) (sys_events ls conns) =
      Some (rotation_of s, call_labels ls, accs) \<and> List.map served accs = loaded ls \<and>
    (\<forall>c \<in> set (loaded ls). \<exists>cert. c = Some cert \<and> usable_cert cert)"
proof -
  have "shared_inv (start_shared (st_rotation st) k)"
    using started_proxy(3) [OF assms(1)] by (simp add: shared_inv_start)
  from shared_run_interleaves [OF assms(2) this assms(3,4)] obtain accs where accs:
    "interleave parse (st_args st) (st_rotation st) (sys_events ls conns) = Some (rotation_of s, call_labels ls, accs)"
    "List.map served accs = loaded ls" "list_all accepted_connection accs" by (auto simp: rotation_of_start)
  have "\<exists>cert. c = Some cert \<and> usable_cert cert" if c: "c \<in> set (loaded ls)" for c
  proof -
    from c accs(2) obtain acc where "acc \<in> set accs" "c = served acc" by (metis imageE set_map)
    with accepted_usable [OF assms(1,5) accs(1)] accs(3) show ?thesis by (simp add: list_all_iff)
  qed
  with accs show ?thesis by blast
qed

section \<open>A concrete run\<close>

text \<open>One handler takes the certificate before the goroutine has done anything.\<close>

definition example_load_labels :: "sh_label list" where
  "example_load_labels = [LoadLocks 0, LoadReads 0, VLoad 0 (CurrentCert (cm (st_rotation example_start)))]"

lemma example_load_run:
  "\<exists>s. shared_run example_parse (st_args example_start) (start_shared (st_rotation example_start) 1) example_load_labels s"
proof -
  let ?a = "st_args example_start" and ?s = "start_shared (st_rotation example_start) 1"
  let ?c = "CurrentCert (cm (st_rotation example_start))"
  let ?t = "?s\<lparr>sh_mutex := (sh_mutex ?s)\<lparr>mx_readers := 1\<rparr>, sh_loads := [LLocked]\<rparr>"
  let ?u = "?t\<lparr>sh_loads := [LLoaded ?c]\<rparr>"
  have "shared_step example_parse ?a ?s (LoadLocks 0) ?t"
    using shared_step.LoadLock [of 0 ?s "(sh_mutex ?s)\<lparr>mx_readers := 1\<rparr>" example_parse ?a]
    by (simp add: start_shared_def rw_RLock_def)
  moreover have "shared_step example_parse ?a ?t (LoadReads 0) ?u"
    using shared_step.LoadCert [of 0 ?t example_parse ?a] by (simp add: start_shared_def)
  moreover have "\<exists>x. shared_step example_parse ?a ?u (VLoad 0 ?c) x"
    using shared_step.LoadReturn [of 0 ?u ?c _ example_parse ?a] by (auto simp: rw_RUnlock_def)
  ultimately show ?thesis
    unfolding example_load_labels_def by (meson shared_run.Cons shared_run.Nil)
qed

theorem shared_memory_serves_witness:
  "\<exists>cert. CurrentCert (cm (st_rotation example_start)) = Some cert \<and> usable_cert cert"
proof -
  let ?conns = "[Inbound example_open example_peer]"
  from example_load_run obtain s where run: "shared_run example_parse (st_args example_start)
      (start_shared (st_rotation example_start) 1) example_load_labels s" by blast
  have "really_fetched (\<lambda>pem. [pem]) (\<lambda>der key. True) example_env (sys_events example_load_labels ?conns)"
    by (auto simp: really_fetched_def example_env_def example_load_labels_def)
  from shared_memory_serves [OF example_first_success run _ _ this] show ?thesis
    by (auto simp: example_load_labels_def)
qed

end
