(* ===== verification/JavaLib.thy ===== *)
theory JavaLib
  imports GoLib
begin

text \<open>
  What the control plane uses of Java's library: \<open>String.split\<close>, \<open>isBlank\<close>, \<open>Integer.parseInt\<close>, the basic
  \<open>Base64.Decoder\<close>, and Jackson's tree of a JSON text. Strings are byte strings as elsewhere;
  what is read here is ASCII. The lemmas say what the basic decoder makes of a base64url text.
\<close>

section \<open>Exceptions\<close>

text \<open>
  A thrown exception is its message, \<open>None\<close> when \<open>getMessage\<close> is null. The virtual machine
  gives the exception of a null dereference a message; \<open>Objects.requireNonNull\<close> does not. The wording of the library's
  messages is abbreviated.
\<close>

type_synonym 'a java = "string option + 'a"

definition null_dereference :: "string option" where
  "null_dereference = Some ''null dereference''"

definition deref :: "'a option \<Rightarrow> 'a java" where
  "deref x = (case x of None \<Rightarrow> Inl null_dereference | Some v \<Rightarrow> Inr v)"

lemma deref_Inr_iff [simp]: "deref x = Inr v \<longleftrightarrow> x = Some v"
  by (auto simp: deref_def split: option.splits)

lemma deref_simps [simp]: "deref None = Inl null_dereference" "deref (Some v) = Inr v"
  by (simp_all add: deref_def)

text \<open>String concatenation writes a null reference as \<open>null\<close>.\<close>

definition or_null :: "string option \<Rightarrow> string" where
  "or_null s = (case s of None \<Rightarrow> ''null'' | Some t \<Rightarrow> t)"

lemma or_null_Some [simp]: "or_null (Some t) = t"
  by (simp add: or_null_def)

text \<open>A reference with a fallback for null.\<close>

definition known :: "string \<Rightarrow> string option \<Rightarrow> string" where
  "known fallback s = (case s of None \<Rightarrow> fallback | Some t \<Rightarrow> t)"

section \<open>Strings\<close>

text \<open>\<open>split\<close> with a one-character pattern: without it the whole string, otherwise no trailing empty strings.\<close>

definition java_split :: "char \<Rightarrow> string \<Rightarrow> string list" where
  "java_split c s =
     (if c \<notin> set s then [s] else rev (dropWhile (\<lambda>w. w = []) (rev (split_seq c s))))"

text \<open>\<open>Character.isWhitespace\<close> on ASCII.\<close>

definition java_space :: "char \<Rightarrow> bool" where
  "java_space c \<longleftrightarrow> c = CHR '' '' \<or> (9::nat) \<le> of_char c \<and> of_char c \<le> (13::nat) \<or>
     (28::nat) \<le> of_char c \<and> of_char c \<le> (31::nat)"

definition isBlank :: "string \<Rightarrow> bool" where
  "isBlank s \<longleftrightarrow> list_all java_space s"

text \<open>\<open>trim\<close> drops spaces and control characters at both ends.\<close>

definition java_trim :: "string \<Rightarrow> string" where
  "java_trim s = rev (dropWhile (\<lambda>c. of_char c \<le> (32::nat)) (rev (dropWhile (\<lambda>c. of_char c \<le> (32::nat)) s)))"

text \<open>\<open>Integer.parseInt\<close>: an optional sign, decimal digits, 32 bits.\<close>

definition parseInt :: "string \<Rightarrow> int option" where
  "parseInt s =
     (let neg = HasPrefix s ''-'';
          ds = (if neg \<or> HasPrefix s ''+'' then tl s else s);
          v = (if neg then - int (dec_val ds) else int (dec_val ds))
      in if ds \<noteq> [] \<and> list_all is_digit ds \<and> - (2 ^ 31) \<le> v \<and> v < 2 ^ 31 then Some v else None)"

lemma java_split_single [simp]: "c \<notin> set s \<Longrightarrow> java_split c s = [s]"
  by (simp add: java_split_def)

text \<open>Nothing is left of a string that is all separators.\<close>

lemma split_seq_all_empty: "list_all (\<lambda>w. w = []) (split_seq c s) \<longleftrightarrow> set s \<subseteq> {c}"
  by (induction s) (auto split: list.splits)

lemma java_split_Nil: "java_split c s = [] \<longleftrightarrow> s \<noteq> [] \<and> set s \<subseteq> {c}"
  using split_seq_all_empty [of c s] by (auto simp: java_split_def dropWhile_eq_Nil_conv list_all_iff)

lemma java_split_join:
  assumes "ws \<noteq> []" "\<forall>w \<in> set ws. c \<notin> set w" "last ws \<noteq> []"
  shows "java_split c (join [c] ws) = ws"
proof -
  have split: "split_seq c (join [c] ws) = ws" using assms(1,2) by (intro split_seq_join) auto
  show ?thesis
  proof (cases "c \<in> set (join [c] ws)")
    case True
    have "rev (dropWhile (\<lambda>w. w = []) (rev ws)) = ws"
      using assms(1,3) by (cases ws rule: rev_cases) simp_all
    with True split show ?thesis by (simp add: java_split_def)
  next
    case False
    with split split_seq_word [of c "join [c] ws"] show ?thesis by (simp add: java_split_def)
  qed
qed

lemma parseInt_digits:
  assumes "ds \<noteq> []" "list_all is_digit ds" "dec_val ds < 2 ^ 31"
  shows "parseInt ds = Some (int (dec_val ds))"
proof -
  from assms(1,2) have "\<not> HasPrefix ds ''-''" "\<not> HasPrefix ds ''+''"
    by (cases ds; auto simp: HasPrefix_one)+
  with assms show ?thesis by (simp add: parseInt_def Let_def)
qed

section \<open>Base64\<close>

text \<open>The 6-bit groups of a byte string, and their encoding in the base64url alphabet of JSON Web Tokens.\<close>

fun sextets :: "string \<Rightarrow> nat list" where
  "sextets [] = []"
| "sextets [a] = [of_char a div 4, (of_char a mod 4) * 16]"
| "sextets [a, b] = [of_char a div 4, (of_char a mod 4) * 16 + of_char b div 16, (of_char b mod 16) * 4]"
| "sextets (a # b # c # s) =
     of_char a div 4 # ((of_char a mod 4) * 16 + of_char b div 16) #
     ((of_char b mod 16) * 4 + of_char c div 64) # of_char c mod 64 # sextets s"

definition url_char :: "nat \<Rightarrow> char" where
  "url_char v = (if v < 26 then char_of (65 + v) else if v < 52 then char_of (71 + v)
     else if v < 62 then char_of (v - 4) else if v = 62 then CHR ''-'' else CHR ''_'')"

definition b64url_encode :: "string \<Rightarrow> string" where
  "b64url_encode s = map url_char (sextets s)"

text \<open>\<open>Base64.getDecoder\<close> knows the other alphabet, with \<open>+\<close> and \<open>/\<close>. Padding may be absent, but not wrong.\<close>

definition b64_val :: "char \<Rightarrow> nat option" where
  "b64_val c =
     (let n = of_char c :: nat in
      if 65 \<le> n \<and> n \<le> 90 then Some (n - 65) else if 97 \<le> n \<and> n \<le> 122 then Some (n - 71)
      else if 48 \<le> n \<and> n \<le> 57 then Some (n + 4) else if n = 43 then Some 62 else if n = 47 then Some 63 else None)"

definition byte1 :: "nat \<Rightarrow> nat \<Rightarrow> char" where
  "byte1 v w = char_of (v * 4 + w div 16)"

definition byte2 :: "nat \<Rightarrow> nat \<Rightarrow> char" where
  "byte2 w x = char_of ((w mod 16) * 16 + x div 4)"

definition byte3 :: "nat \<Rightarrow> nat \<Rightarrow> char" where
  "byte3 x y = char_of ((x mod 4) * 64 + y)"

fun b64_decode :: "string \<Rightarrow> string option" where
  "b64_decode [] = Some []"
| "b64_decode [a] = None"
| "b64_decode [a, b] =
     (case (b64_val a, b64_val b) of (Some v, Some w) \<Rightarrow> Some [byte1 v w] | _ \<Rightarrow> None)"
| "b64_decode [a, b, c] =
     (case (b64_val a, b64_val b, b64_val c) of
        (Some v, Some w, Some x) \<Rightarrow> Some [byte1 v w, byte2 w x] | _ \<Rightarrow> None)"
| "b64_decode (a # b # c # d # s) =
     (case (b64_val a, b64_val b) of
        (Some v, Some w) \<Rightarrow>
          if c = CHR ''='' then if d = CHR ''='' \<and> s = [] then Some [byte1 v w] else None
          else (case b64_val c of
              None \<Rightarrow> None
            | Some x \<Rightarrow>
                if d = CHR ''='' then if s = [] then Some [byte1 v w, byte2 w x] else None
                else (case b64_val d of
                    None \<Rightarrow> None
                  | Some y \<Rightarrow> map_option (\<lambda>r. byte1 v w # byte2 w x # byte3 x y # r) (b64_decode s)))
      | _ \<Rightarrow> None)"

lemma b64_val_url_char:
  assumes "v < 64"
  shows "b64_val (url_char v) = (if v < 62 then Some v else None)" "url_char v \<noteq> CHR ''=''"
proof -
  consider "v < 26" | "26 \<le> v" "v < 52" | "52 \<le> v" "v < 62" | "v = 62" | "v = 63"
    using assms by linarith
  then show "b64_val (url_char v) = (if v < 62 then Some v else None)"
    by cases (auto simp: b64_val_def url_char_def Let_def)
  then have "url_char v = CHR ''='' \<Longrightarrow> 62 \<le> v" by (auto simp: b64_val_def split: if_splits)
  then show "url_char v \<noteq> CHR ''=''" using assms by (auto simp: url_char_def split: if_splits)
qed

lemma char_of_of_char: "n = of_char c \<Longrightarrow> char_of (n :: nat) = c"
  by simp

text \<open>The decoder's bytes are those the groups came from.\<close>

lemma byte_of_groups:
  "k < 16 \<Longrightarrow> byte1 (of_char a div 4) ((of_char a mod 4) * 16 + k) = a"
  "k < 4 \<Longrightarrow> byte2 (m * 16 + of_char b div 16) ((of_char b mod 16) * 4 + k) = b"
  "byte3 (m * 4 + of_char c div 64) (of_char c mod 64) = c"
proof -
  have "(n div 4) * 4 + (n mod 4 * 16 + k) div 16 = n" if "k < 16" for n k :: nat using that by simp
  then show "k < 16 \<Longrightarrow> byte1 (of_char a div 4) ((of_char a mod 4) * 16 + k) = a"
    unfolding byte1_def by (intro char_of_of_char)
  have "(m * 16 + n div 16) mod 16 * 16 + (n mod 16 * 4 + k) div 4 = n" if "k < 4" "n < 256" for m n k :: nat
    using that by simp
  then show "k < 4 \<Longrightarrow> byte2 (m * 16 + of_char b div 16) ((of_char b mod 16) * 4 + k) = b"
    unfolding byte2_def by (intro char_of_of_char) (simp only: nat_of_char_less_256)
  have "(m * 4 + n div 64) mod 4 * 64 + n mod 64 = n" if "n < 256" for m n :: nat using that by simp
  then show "byte3 (m * 4 + of_char c div 64) (of_char c mod 64) = c"
    unfolding byte3_def by (intro char_of_of_char) (simp only: nat_of_char_less_256)
qed

lemma group_bounds:
  "of_char a div 4 < (64 :: nat)" "of_char b div 16 < (16 :: nat)" "of_char c div 64 < (4 :: nat)"
  "of_char a mod 4 * 16 + of_char b div 16 < (64 :: nat)" "of_char b mod 16 * 4 + of_char c div 64 < (64 :: nat)"
  "of_char a mod 4 * 16 < (62 :: nat)" "of_char b mod 16 * 4 < (62 :: nat)"
proof -
  have n: "of_char x < (256 :: nat)" for x by simp
  show "of_char a div 4 < (64 :: nat)" "of_char b div 16 < (16 :: nat)" "of_char c div 64 < (4 :: nat)"
    using n [of a] n [of b] n [of c] by (simp_all only: div_less_iff_less_mult)
  moreover have "of_char a mod 4 < (4 :: nat)" "of_char b mod 16 < (16 :: nat)" by simp_all
  ultimately show "of_char a mod 4 * 16 + of_char b div 16 < (64 :: nat)" "of_char b mod 16 * 4 + of_char c div 64 < (64 :: nat)"
    "of_char a mod 4 * 16 < (62 :: nat)" "of_char b mod 16 * 4 < (62 :: nat)"
    by linarith+
qed

lemma sextets_less: "v \<in> set (sextets s) \<Longrightarrow> v < 64"
proof (induction s rule: sextets.induct)
  case (2 a)
  then show ?case using group_bounds(1,6) [of a] by auto
next
  case (3 a b)
  then show ?case using group_bounds(1) [of a] group_bounds(4) [of a b] group_bounds(7) [of b] by auto
next
  case (4 a b c s)
  then show ?case using group_bounds(1) [of a] group_bounds(4) [of a b] group_bounds(5) [of b c] by auto
qed simp

text \<open>
  The basic decoder reads a base64url text back, except that it refuses it when a group is 62 or 63, which the
  two alphabets write differently.
\<close>

lemma b64_decode_encode:
  "b64_decode (b64url_encode s) = (if list_all (\<lambda>v. v < 62) (sextets s) then Some s else None)"
proof (induction s rule: sextets.induct)
  case 1
  then show ?case by (simp add: b64url_encode_def)
next
  case (2 a)
  then show ?case
    using byte_of_groups(1) [of 0 a] group_bounds(6) [of a]
    by (simp add: b64url_encode_def b64_val_url_char group_bounds(1))
next
  case (3 a b)
  then show ?case
    using byte_of_groups(1) [of "of_char b div 16" a] byte_of_groups(2) [of 0 "of_char a mod 4" b]
      group_bounds(7) [of b]
    by (simp add: b64url_encode_def b64_val_url_char group_bounds(1-5))
next
  case (4 a b c s)
  then show ?case
    using byte_of_groups(1) [of "of_char b div 16" a] byte_of_groups(2) [of "of_char c div 64" "of_char a mod 4" b]
      byte_of_groups(3) [of "of_char b mod 16" c]
    by (simp add: b64url_encode_def b64_val_url_char group_bounds)
qed

text \<open>Seven-bit text has such groups only where a byte is one of four: \<open>>\<close>, \<open>?\<close>, \<open>~\<close> and \<open>DEL\<close>.\<close>

definition token_text :: "string \<Rightarrow> bool" where
  "token_text s \<longleftrightarrow> list_all (\<lambda>c. of_char c < (128 :: nat) \<and> of_char c mod 64 < (62 :: nat)) s"

lemma token_text_groups:
  "token_text s \<Longrightarrow> list_all (\<lambda>v. v < 62) (sextets s)"
proof (induction s rule: sextets.induct)
  have "n div 4 < 62" "m mod 4 * 16 + n div 16 < 62" "m mod 16 * 4 + n div 64 < 62" "m mod 4 * 16 < 62" "m mod 16 * 4 < 62"
    if "n < 128" for m n :: nat
  proof -
    from that have "n div 4 < 32" "n div 16 < 8" "n div 64 < 2" by simp_all
    moreover have "m mod 4 < 4" "m mod 16 < 16" by simp_all
    ultimately show "n div 4 < 62" "m mod 4 * 16 + n div 16 < 62" "m mod 16 * 4 + n div 64 < 62" "m mod 4 * 16 < 62"
      "m mod 16 * 4 < 62" by linarith+
  qed
  note less = this
  {
    case (4 a b c s)
    then show ?case by (auto simp: token_text_def intro: less)
  next
    case (3 a b)
    then show ?case by (auto simp: token_text_def intro: less)
  next
    case (2 a)
    then show ?case by (auto simp: token_text_def intro: less)
  }
qed simp

text \<open>\<open>Base64.getEncoder\<close> writes the basic alphabet with padding; its decoder reads every byte string back.\<close>

definition std_char :: "nat \<Rightarrow> char" where
  "std_char v = (if v = 62 then CHR ''+'' else if v = 63 then CHR ''/'' else url_char v)"

definition b64_encode :: "string \<Rightarrow> string" where
  "b64_encode s = List.map std_char (sextets s) @ replicate ((3 - length s mod 3) mod 3) CHR ''=''"

lemma b64_val_std_char: "v < 64 \<Longrightarrow> b64_val (std_char v) = Some v" "v < 64 \<Longrightarrow> std_char v \<noteq> CHR ''=''"
proof -
  assume v: "v < 64"
  then consider "v < 62" | "v = 62" | "v = 63" by linarith
  then have "b64_val (std_char v) = Some v \<and> std_char v \<noteq> CHR ''=''"
    using b64_val_url_char [OF v] by cases (simp_all add: std_char_def b64_val_def)
  then show "b64_val (std_char v) = Some v" "std_char v \<noteq> CHR ''=''" by simp_all
qed

lemma b64_encode_short:
  "b64_encode [a] = List.map std_char (sextets [a]) @ ''==''" "b64_encode [a, b] = List.map std_char (sextets [a, b]) @ ''=''"
  by (simp_all add: b64_encode_def numeral_2_eq_2)

lemma b64_decode_basic: "b64_decode (b64_encode s) = Some s"
proof (induction s rule: sextets.induct)
  case 1
  then show ?case by (simp add: b64_encode_def)
next
  case (2 a)
  then show ?case
    using byte_of_groups(1) [of 0 a] group_bounds(6) [of a]
    by (simp add: b64_encode_short b64_val_std_char group_bounds(1))
next
  case (3 a b)
  then show ?case
    using byte_of_groups(1) [of "of_char b div 16" a] byte_of_groups(2) [of 0 "of_char a mod 4" b]
      group_bounds(7) [of b]
    by (simp add: b64_encode_short b64_val_std_char group_bounds(1-5))
next
  case (4 a b c s)
  have "(3 - length (a # b # c # s) mod 3) mod 3 = (3 - length s mod 3) mod 3"
    by (simp add: mod_Suc)
  with 4 show ?case
    using byte_of_groups(1) [of "of_char b div 16" a] byte_of_groups(2) [of "of_char c div 64" "of_char a mod 4" b]
      byte_of_groups(3) [of "of_char b mod 16" c]
    by (simp add: b64_encode_def b64_val_std_char group_bounds)
qed

section \<open>JSON trees\<close>

text \<open>
  Jackson's \<open>JsonNode\<close>: an object, an array, a text, or another value with what \<open>asText\<close> prints for it. \<open>get\<close> is null
  on everything that is no object; \<open>asText\<close> of a container is empty.
\<close>

datatype jnode = JObject "(string \<times> jnode) list" | JArray "jnode list" | JText string | JOther string

fun jget :: "jnode \<Rightarrow> string \<Rightarrow> jnode option" where
  "jget (JObject fs) k = map_of fs k"
| "jget _ k = None"

fun asText :: "jnode \<Rightarrow> string" where
  "asText (JText s) = s"
| "asText (JOther s) = s"
| "asText _ = []"

end
