(* ===== verification/ControlPlane.thy ===== *)
theory ControlPlane
  imports JavaLib Identity
begin

text \<open>
  The control plane's identity service (Java, under \<open>control-plane/src/main/java/sentinel_zt\<close>): the gRPC
  interceptor that checks the caller's token, the service that compares the caller with the name it
  asks for, and the request to Vault. The interceptor passes the identity on in two ways, in the call's
  gRPC context and in the logging context \<open>MDC\<close> of its thread, and Vault's \<open>alt_names\<close> are taken from the
  second; so a call is two events here, each on some thread. It writes the logging context through JBoss Logging
  and the service reads it through SLF4J, which are one and the same under the logback backend of
  the build. The Kubernetes API, Vault and Jackson's parser are parameters.
\<close>

section \<open>The Kubernetes token review\<close>

text \<open>The answer's status; \<open>getAuthenticated\<close>, \<open>getUser\<close> and \<open>getUsername\<close> may be null.\<close>

record review_status =
  rs_authenticated :: "bool option"
  rs_user :: "string option option"

text \<open>\<open>kube audiences token\<close>; the audiences may be left out.\<close>

type_synonym kube = "string list option \<Rightarrow> string \<Rightarrow> review_status option java"

text \<open>
  The calls of \<open>AuditService\<close>, and the event each writes; a reference that may be null is an option, and every event
  has a \<open>timestamp\<close> besides. \<open>Map.of\<close> takes no null value: hence the fallbacks.
\<close>

datatype audit =
    AuditToken "string option" bool string
  | AuditAuthentication "string option" bool "string option"
  | AuditUnauthorized string string "string option"
  | AuditIssued string "string option" string
  | AuditSecurity string "(string \<times> string) list"

definition bool_str :: "bool \<Rightarrow> string" where
  "bool_str b = (if b then ''true'' else ''false'')"

fun audit_event :: "audit \<Rightarrow> string \<times> (string \<times> string) list" where
  "audit_event (AuditToken subject success reason) =
     (''TOKEN_VALIDATION'', [(''tokenSubject'', known ''unknown'' subject), (''success'', bool_str success), (''reason'', reason)])"
| "audit_event (AuditAuthentication account success reason) =
     (''AUTHENTICATION_ATTEMPT'', [(''serviceAccount'', known ''unknown'' account), (''success'', bool_str success),
        (''failureReason'', known ''none'' reason)])"
| "audit_event (AuditUnauthorized endpoint ip agent) =
     (''UNAUTHORIZED_ACCESS'', [(''endpoint'', endpoint), (''clientIp'', ip), (''userAgent'', known ''unknown'' agent)])"
| "audit_event (AuditIssued name serial requestedBy) =
     (''CERTIFICATE_ISSUED'', [(''serviceName'', name), (''serialNumber'', known ''unknown'' serial), (''requestedBy'', requestedBy)])"
| "audit_event (AuditSecurity event details) = (event, details)"

definition validateToken :: "kube \<Rightarrow> string \<Rightarrow> bool \<times> audit list" where
  "validateToken kube token =
     (let failed = \<lambda>e. (False, [AuditToken (Some ''unknown'') False (''error: '' @ or_null e)]) in
      case kube (Some [''api'']) token of
        Inl e \<Rightarrow> failed e
      | Inr None \<Rightarrow> (False, [AuditToken (Some ''unknown'') False ''not_authenticated''])
      | Inr (Some st) \<Rightarrow>
          (case (rs_authenticated st, rs_user st) of
             (Some ok, Some username) \<Rightarrow>
               (ok, [AuditToken username ok (if ok then ''success'' else ''not_authenticated'')])
           | _ \<Rightarrow> failed null_dereference))"

text \<open>This review names no audience.\<close>

definition getServiceAccountName :: "kube \<Rightarrow> string \<Rightarrow> string option" where
  "getServiceAccountName kube token =
     (case kube None token of
        Inr (Some st) \<Rightarrow> (case rs_user st of Some username \<Rightarrow> username | None \<Rightarrow> Some ''unknown'')
      | _ \<Rightarrow> Some ''unknown'')"

section \<open>The identity in a token\<close>

record SpiffeIdentity =
  si_namespace :: string
  si_serviceAccount :: string
  si_spiffeId :: string
  si_podUid :: "string option"
  si_podName :: "string option"

definition jfield :: "jnode \<Rightarrow> string \<Rightarrow> jnode java" where
  "jfield n k = deref (jget n k)"

definition getSpiffeIdentity ::
  "(string \<Rightarrow> jnode java) \<Rightarrow> string \<Rightarrow> string \<Rightarrow> SpiffeIdentity option java" where
  "getSpiffeIdentity readTree trustDomain token =
     (let parts = java_split CHR ''.'' token in
      if length parts \<noteq> 3 then Inr None
      else case b64_decode (parts ! 1) of
        None \<Rightarrow> Inl (Some ''illegal base64'')
      | Some payload \<Rightarrow>
          bind_result (readTree payload) (\<lambda>root.
          bind_result (jfield root ''kubernetes.io'') (\<lambda>kubernetes.
          bind_result (map_sum id asText (jfield kubernetes ''namespace'')) (\<lambda>namespace.
          bind_result (jfield kubernetes ''serviceaccount'') (\<lambda>account.
          bind_result (map_sum id asText (jfield account ''name'')) (\<lambda>serviceAccount.
            let pod = \<lambda>k. (case jget kubernetes ''pod'' of
                  None \<Rightarrow> None | Some podNode \<Rightarrow> map_option asText (jget podNode k))
            in Inr (Some \<lparr>si_namespace = namespace, si_serviceAccount = serviceAccount,
                 si_spiffeId = ''spiffe://'' @ trustDomain @ ''/ns/'' @ namespace @ ''/sa/'' @ serviceAccount,
                 si_podUid = pod ''uid'', si_podName = pod ''name''\<rparr>)))))))"

section \<open>The interceptor\<close>

text \<open>The gRPC context of a call, and what the interceptor makes of the call.\<close>

record grpc_context =
  gc_identity :: string
  gc_podUid :: "string option"
  gc_podName :: "string option"

datatype intercepted = Closed string | Authorized grpc_context

type_synonym mdc = "string \<Rightarrow> string option"

definition bearer :: "string \<Rightarrow> string" where
  "bearer token = (if HasPrefix token ''Bearer '' then drop 7 token else token)"

text \<open>
  \<open>interceptCall\<close>, with the entries it puts into its thread's logging context. \<open>peer\<close> is the address of the
  connection with the random trace id. The status of a closed call is \<open>UNAUTHENTICATED\<close>; every exception closes the call.
\<close>

record grpc_peer =
  gp_address :: string
  gp_uuid :: string

definition interceptCall ::
  "(string \<Rightarrow> jnode java) \<Rightarrow> string \<Rightarrow> string \<Rightarrow> kube \<Rightarrow> grpc_peer \<Rightarrow> string option \<Rightarrow>
   intercepted \<times> (string \<times> string) list \<times> audit list" where
  "interceptCall readTree trustDomain method kube peer metadata =
     (case metadata of
        None \<Rightarrow> (Closed ''Missing token'', [], [AuditUnauthorized method (gp_address peer) (Some ''gRPC'')])
      | Some header \<Rightarrow>
          if isBlank header then (Closed ''Missing token'', [], [AuditUnauthorized method (gp_address peer) (Some ''gRPC'')])
          else
            let token = bearer header;
                (ok, log) = validateToken kube token;
                failed = \<lambda>e. (Closed ''Validation error'', [],
                  log @ [AuditAuthentication (Some ''unknown'') False (Some (''validation_error: '' @ or_null e))])
            in if \<not> ok then
                 (Closed ''Invalid token'', [], log @ [AuditAuthentication (Some ''unknown'') False (Some ''invalid token'')])
               else (case getSpiffeIdentity readTree trustDomain token of
                   Inl e \<Rightarrow> failed e
                 | Inr None \<Rightarrow> failed null_dereference
                 | Inr (Some si) \<Rightarrow>
                     (Authorized \<lparr>gc_identity = si_spiffeId si, gc_podUid = si_podUid si, gc_podName = si_podName si\<rparr>,
                      [(''serviceIdentity'', si_spiffeId si),
                       (''podUid'', case si_podUid si of Some u \<Rightarrow> u | None \<Rightarrow> ''unknown''),
                       (''podName'', case si_podName si of Some n \<Rightarrow> n | None \<Rightarrow> ''unknown''),
                       (''traceId'', gp_uuid peer)],
                      log @ [AuditAuthentication (Some (si_spiffeId si)) True None])))"

section \<open>Vault\<close>

text \<open>
  \<open>vault common_name alt_names\<close> is the data of the answer to a write of these names with a \<open>ttl\<close> of six minutes,
  or the exception of the write. Values of the data may be missing.
\<close>

type_synonym vault = "string \<Rightarrow> string \<Rightarrow> (string \<Rightarrow> string option) option java"

record IdentityResponse =
  ir_certificate :: "string option"
  ir_privateKey :: "string option"
  ir_issuingCa :: "string option"
  ir_serialNumber :: "string option"
  ir_podUid :: "string option"

definition last_component :: "string \<Rightarrow> string option" where
  "last_component identity =
     (let parts = java_split CHR ''/'' identity in if parts = [] then None else Some (last parts))"

datatype cp_effect = VaultWrite string string | Audit audit

text \<open>
  \<open>issueCertificate\<close>: \<open>Map.of\<close> refuses null values, before the \<open>try\<close> for the names and inside the handler
  of the exception for its message.
\<close>

definition issueCertificate ::
  "vault \<Rightarrow> string option \<Rightarrow> string \<Rightarrow> IdentityResponse option java \<times> cp_effect list" where
  "issueCertificate vault serviceIdentity serviceName =
     (case (last_component serviceName, serviceIdentity) of
        (Some name, Some identity) \<Rightarrow>
          let failed = \<lambda>e. (case e of
                None \<Rightarrow> (Inl None, [VaultWrite name identity])
              | Some message \<Rightarrow>
                  (Inr None, [VaultWrite name identity, Audit (AuditSecurity ''CERTIFICATE_ISSUANCE_FAILED''
                     [(''serviceName'', serviceName), (''error'', message)])]))
          in (case vault name identity of
                Inl e \<Rightarrow> failed e
              | Inr None \<Rightarrow> failed null_dereference
              | Inr (Some d) \<Rightarrow>
                  (Inr (Some \<lparr>ir_certificate = d ''certificate'', ir_privateKey = d ''private_key'',
                     ir_issuingCa = d ''issuing_ca'', ir_serialNumber = d ''serial_number'', ir_podUid = None\<rparr>),
                   [VaultWrite name identity, Audit (AuditIssued serviceName (d ''serial_number'') identity)]))
      | _ \<Rightarrow> (Inl None, []))"

section \<open>The gRPC service\<close>

datatype grpc_status = PermissionDenied | Internal | Unknown

text \<open>
  \<open>getCertificate\<close>: \<open>ctx\<close> is the call's context, \<open>m\<close> the logging context of the thread it runs on. The
  builder of the response refuses null fields; an exception that leaves the method is \<open>UNKNOWN\<close> to the caller.
\<close>

definition getCertificate ::
  "vault \<Rightarrow> mdc \<Rightarrow> grpc_context \<Rightarrow> string \<Rightarrow> (grpc_status, CertificateResponse) result \<times> cp_effect list" where
  "getCertificate vault m ctx serviceName =
     (if gc_identity ctx \<noteq> serviceName then (Inl PermissionDenied, [])
      else
        let (issued, effects) = issueCertificate vault (m ''serviceIdentity'') serviceName
        in (case issued of
              Inl _ \<Rightarrow> Inl Unknown
            | Inr None \<Rightarrow> Inl Internal
            | Inr (Some r) \<Rightarrow>
                (case (ir_certificate r, ir_privateKey r, ir_issuingCa r, ir_serialNumber r) of
                   (Some c, Some k, Some ca, Some n) \<Rightarrow>
                     Inr \<lparr>resp_certificate = c, resp_private_key = k, resp_issuing_ca = ca, resp_serial_number = n,
                       resp_pod_uid = (case gc_podUid ctx of Some u \<Rightarrow> u | None \<Rightarrow> [])\<rparr>
                 | _ \<Rightarrow> Inl Internal), effects))"

section \<open>The server\<close>

text \<open>
  The logging context of every thread of the server, which nothing clears, and the contexts of the calls
  that the interceptor has let through. The interceptor and the method of a call run on threads of a
  pool, the method later and perhaps on another thread.
\<close>

record cp_state =
  cp_mdc :: "nat \<Rightarrow> mdc"
  cp_calls :: "nat \<Rightarrow> grpc_context option"

datatype cp_event =
    Intercept nat nat kube grpc_peer "string option"
  | Handle nat nat vault string

datatype cp_output =
    Unauthenticated nat string
  | Replied nat "(grpc_status, CertificateResponse) result"
  | Effect nat cp_effect

definition get_certificate :: string where
  "get_certificate = ''sentinel_zt.CertificateIssuerService/getCertificate''"

fun cp_step ::
  "(string \<Rightarrow> jnode java) \<Rightarrow> string \<Rightarrow> cp_state \<Rightarrow> cp_event \<Rightarrow> (cp_state \<times> cp_output list) option" where
  "cp_step readTree trustDomain s (Intercept c t kube peer metadata) =
     (let (r, puts, log) = interceptCall readTree trustDomain get_certificate kube peer metadata;
          effects = map (\<lambda>a. Effect c (Audit a)) log
      in case r of
           Closed description \<Rightarrow> Some (s, effects @ [Unauthenticated c description])
         | Authorized ctx \<Rightarrow>
             Some (s\<lparr>cp_mdc := (cp_mdc s)(t := cp_mdc s t ++ map_of puts), cp_calls := (cp_calls s)(c \<mapsto> ctx)\<rparr>, effects))"
| "cp_step readTree trustDomain s (Handle c t vault serviceName) =
     (case cp_calls s c of
        None \<Rightarrow> None
      | Some ctx \<Rightarrow>
          let (reply, effects) = getCertificate vault (cp_mdc s t) ctx serviceName
          in Some (s\<lparr>cp_calls := (cp_calls s)(c := None)\<rparr>, map (Effect c) effects @ [Replied c reply]))"

fun cp_run ::
  "(string \<Rightarrow> jnode java) \<Rightarrow> string \<Rightarrow> cp_state \<Rightarrow> cp_event list \<Rightarrow> (cp_state \<times> cp_output list) option" where
  "cp_run readTree trustDomain s [] = Some (s, [])"
| "cp_run readTree trustDomain s (e # es) =
     (case cp_step readTree trustDomain s e of
        None \<Rightarrow> None
      | Some (s1, o1) \<Rightarrow> map_option (\<lambda>(s2, o2). (s2, o1 @ o2)) (cp_run readTree trustDomain s1 es))"

definition cp_start :: cp_state where
  "cp_start = \<lparr>cp_mdc = (\<lambda>t. Map.empty), cp_calls = Map.empty\<rparr>"

section \<open>Lemmas\<close>

lemma last_component_append:
  assumes "CHR ''/'' \<notin> set w" "w \<noteq> []"
  shows "last_component (p @ CHR ''/'' # w) = Some w"
proof -
  have app: "split_seq c (p @ c # w) = split_seq c p @ split_seq c w" for c
    by (induction p) (auto split: list.split)
  have "rev (split_seq CHR ''/'' (p @ CHR ''/'' # w)) = w # rev (split_seq CHR ''/'' p)"
    using assms(1) by (simp add: app)
  with assms(2) have "java_split CHR ''/'' (p @ CHR ''/'' # w) = split_seq CHR ''/'' p @ [w]"
    by (simp add: java_split_def)
  then show ?thesis by (simp add: last_component_def Let_def)
qed

text \<open>The token in a header is accepted, and names this identity.\<close>

definition accepted ::
  "(string \<Rightarrow> jnode java) \<Rightarrow> string \<Rightarrow> kube \<Rightarrow> string \<Rightarrow> SpiffeIdentity \<Rightarrow> bool" where
  "accepted readTree trustDomain kube header si \<longleftrightarrow> \<not> isBlank header \<and> fst (validateToken kube (bearer header)) \<and>
     getSpiffeIdentity readTree trustDomain (bearer header) = Inr (Some si)"

definition ctx_of :: "SpiffeIdentity \<Rightarrow> grpc_context" where
  "ctx_of si = \<lparr>gc_identity = si_spiffeId si, gc_podUid = si_podUid si, gc_podName = si_podName si\<rparr>"

lemma ctx_of_simps [simp]: "gc_identity (ctx_of si) = si_spiffeId si" "gc_podUid (ctx_of si) = si_podUid si"
  by (simp_all add: ctx_of_def)

text \<open>The interceptor lets a call through exactly for an accepted token, and otherwise leaves no trace.\<close>

lemma interceptCall_cases:
  obtains header si puts log where "metadata = Some header" "accepted readTree trustDomain kube header si"
      "interceptCall readTree trustDomain method kube peer metadata = (Authorized (ctx_of si), puts, log)"
      "map_of puts ''serviceIdentity'' = Some (si_spiffeId si)"
    | description log where "\<And>header si. metadata = Some header \<Longrightarrow> \<not> accepted readTree trustDomain kube header si"
      "interceptCall readTree trustDomain method kube peer metadata = (Closed description, [], log)"
proof (cases "\<exists>header si. metadata = Some header \<and> accepted readTree trustDomain kube header si")
  case True
  then obtain header si where *: "metadata = Some header" "accepted readTree trustDomain kube header si" by blast
  then have "\<exists>puts log. interceptCall readTree trustDomain method kube peer metadata = (Authorized (ctx_of si), puts, log) \<and>
      map_of puts ''serviceIdentity'' = Some (si_spiffeId si)"
    by (auto simp: interceptCall_def accepted_def ctx_of_def split_beta Let_def)
  with * that(1) show ?thesis by blast
next
  case False
  then have "\<exists>description log. interceptCall readTree trustDomain method kube peer metadata = (Closed description, [], log)"
    by (auto simp: interceptCall_def accepted_def split_beta Let_def split: option.splits sum.splits)
  with False that(2) show ?thesis by blast
qed

lemma step_intercept:
  assumes "accepted readTree trustDomain kube header si"
  shows "\<exists>s' log. cp_step readTree trustDomain s (Intercept c t kube peer (Some header)) = Some (s', map (\<lambda>a. Effect c (Audit a)) log) \<and>
    cp_calls s' = (cp_calls s)(c \<mapsto> ctx_of si) \<and> cp_mdc s' t ''serviceIdentity'' = Some (si_spiffeId si) \<and>
    (\<forall>t'. t' \<noteq> t \<longrightarrow> cp_mdc s' t' = cp_mdc s t')"
  by (rule interceptCall_cases [of "Some header" readTree trustDomain kube "get_certificate" peer])
    (use assms in \<open>auto simp: accepted_def map_add_def\<close>)

lemma step_handle:
  "cp_calls s c = Some ctx \<Longrightarrow>
     cp_step readTree trustDomain s (Handle c t vault name) =
       Some (s\<lparr>cp_calls := (cp_calls s)(c := None)\<rparr>,
         map (Effect c) (snd (getCertificate vault (cp_mdc s t) ctx name)) @
         [Replied c (fst (getCertificate vault (cp_mdc s t) ctx name))])"
  by (simp add: split_beta)

lemma cp_run_Cons_iff:
  "cp_run readTree trustDomain s (e # es) = Some (s', outs) \<longleftrightarrow>
     (\<exists>s1 o1 o2. cp_step readTree trustDomain s e = Some (s1, o1) \<and> cp_run readTree trustDomain s1 es = Some (s', o2) \<and>
        outs = o1 @ o2)"
  by (auto split: option.splits)

declare cp_run.simps(2) [simp del]

lemma cp_run_append:
  "cp_run readTree trustDomain s (xs @ ys) = Some (s', outs) \<longleftrightarrow>
     (\<exists>s1 o1 o2. cp_run readTree trustDomain s xs = Some (s1, o1) \<and> cp_run readTree trustDomain s1 ys = Some (s', o2) \<and>
        outs = o1 @ o2)"
  by (induction xs arbitrary: s outs) (force simp: cp_run_Cons_iff)+

text \<open>What stands behind an open call, given the events that have happened.\<close>

definition let_in ::
  "(string \<Rightarrow> jnode java) \<Rightarrow> string \<Rightarrow> cp_event set \<Rightarrow> nat \<Rightarrow> SpiffeIdentity \<Rightarrow> bool" where
  "let_in readTree trustDomain E c si \<longleftrightarrow>
     (\<exists>t kube peer header. Intercept c t kube peer (Some header) \<in> E \<and> accepted readTree trustDomain kube header si)"

text \<open>What an effect or a reply of a call says about its caller.\<close>

fun justified ::
  "(string \<Rightarrow> jnode java) \<Rightarrow> string \<Rightarrow> cp_event set \<Rightarrow> cp_output \<Rightarrow> bool" where
  "justified readTree trustDomain E (Effect c (VaultWrite name alt)) =
     (\<exists>si t vault. let_in readTree trustDomain E c si \<and> Handle c t vault (si_spiffeId si) \<in> E \<and>
        last_component (si_spiffeId si) = Some name)"
| "justified readTree trustDomain E (Replied c (Inr resp)) =
     (\<exists>si t vault. let_in readTree trustDomain E c si \<and> Handle c t vault (si_spiffeId si) \<in> E \<and>
        resp_pod_uid resp = (case si_podUid si of Some u \<Rightarrow> u | None \<Rightarrow> []))"
| "justified readTree trustDomain E _ = True"

lemma issue_effects:
  "VaultWrite name alt \<in> set (snd (issueCertificate vault identity serviceName)) \<Longrightarrow>
     last_component serviceName = Some name \<and> identity = Some alt"
  by (auto simp: issueCertificate_def Let_def split: option.splits sum.splits)

lemma reply_pod:
  "fst (getCertificate vault m ctx name) = Inr resp \<Longrightarrow>
     resp_pod_uid resp = (case gc_podUid ctx of Some u \<Rightarrow> u | None \<Rightarrow> [])"
  by (auto simp: getCertificate_def split_beta Let_def split: if_splits option.splits sum.splits)

lemma get_identity:
  "fst (getCertificate vault m ctx name) = Inr resp \<or> e \<in> set (snd (getCertificate vault m ctx name)) \<Longrightarrow>
     gc_identity ctx = name"
  by (auto simp: getCertificate_def split: if_splits)

lemma get_effects:
  "VaultWrite n alt \<in> set (snd (getCertificate vault m ctx name)) \<Longrightarrow>
     last_component name = Some n \<and> m ''serviceIdentity'' = Some alt"
  by (auto simp: getCertificate_def split_beta Let_def dest: issue_effects split: if_splits)

definition calls_justified ::
  "(string \<Rightarrow> jnode java) \<Rightarrow> string \<Rightarrow> cp_event set \<Rightarrow> cp_state \<Rightarrow> bool" where
  "calls_justified readTree trustDomain E s \<longleftrightarrow>
     (\<forall>c ctx. cp_calls s c = Some ctx \<longrightarrow> (\<exists>si. ctx = ctx_of si \<and> let_in readTree trustDomain E c si))"

lemma cp_step_justified:
  assumes "calls_justified readTree trustDomain E s" "e \<in> E" "cp_step readTree trustDomain s e = Some (s', outs)"
  shows "calls_justified readTree trustDomain E s' \<and> (\<forall>out \<in> set outs. justified readTree trustDomain E out)"
proof (cases e)
  case (Intercept c t kube peer metadata)
  show ?thesis
  proof (rule interceptCall_cases [of metadata readTree trustDomain kube "get_certificate" peer])
    fix header si puts log
    assume m: "metadata = Some header" "accepted readTree trustDomain kube header si"
      "interceptCall readTree trustDomain get_certificate kube peer metadata = (Authorized (ctx_of si), puts, log)"
    then have "let_in readTree trustDomain E c si" using assms(2) Intercept by (auto simp: let_in_def)
    with assms m Intercept show ?thesis by (auto simp: calls_justified_def split: if_splits)
  next
    fix description log
    assume "interceptCall readTree trustDomain get_certificate kube peer metadata = (Closed description, [], log)"
    with assms Intercept show ?thesis by (auto simp: calls_justified_def)
  qed
next
  case (Handle c t vault name)
  with assms(3) obtain ctx where ctx: "cp_calls s c = Some ctx" by (auto split: option.splits)
  with assms(1) obtain si where si: "ctx = ctx_of si" "let_in readTree trustDomain E c si"
    by (auto simp: calls_justified_def)
  have handled: "Handle c t vault name \<in> E" using assms(2) Handle by simp
  have "justified readTree trustDomain E (Effect c e')" if e': "e' \<in> set (snd (getCertificate vault (cp_mdc s t) ctx name))" for e'
  proof (cases e')
    case (VaultWrite n alt)
    from e' have "gc_identity ctx = name" by (intro get_identity) (rule disjI2)
    with e' VaultWrite get_effects [of n alt vault "cp_mdc s t" ctx name] si handled show ?thesis by auto
  qed simp
  moreover have "justified readTree trustDomain E (Replied c (fst (getCertificate vault (cp_mdc s t) ctx name)))"
  proof (cases "fst (getCertificate vault (cp_mdc s t) ctx name)")
    case (Inr resp)
    then have "gc_identity ctx = name" by (intro get_identity) (rule disjI1)
    with Inr reply_pod [OF Inr] si handled show ?thesis by auto
  qed simp
  ultimately show ?thesis
    using assms(1,3) step_handle [where c = c and t = t and vault = vault and name = name, OF ctx] Handle
    by (auto simp: calls_justified_def)
qed

lemma cp_run_justified:
  "cp_run readTree trustDomain s es = Some (s', outs) \<Longrightarrow> calls_justified readTree trustDomain E s \<Longrightarrow> set es \<subseteq> E \<Longrightarrow>
     (\<forall>out \<in> set outs. justified readTree trustDomain E out)"
proof (induction es arbitrary: s outs)
  case Nil
  then show ?case by simp
next
  case (Cons e es)
  from Cons.prems(1) obtain s1 o1 o2 where step: "cp_step readTree trustDomain s e = Some (s1, o1)"
    and run: "cp_run readTree trustDomain s1 es = Some (s', o2)" and outs: "outs = o1 @ o2"
    unfolding cp_run_Cons_iff by blast
  from cp_step_justified [OF Cons.prems(2) _ step] Cons.prems(3) Cons.IH [OF run] show ?case
    by (auto simp: outs)
qed

text \<open>Events that leave a call and a thread's logging context alone.\<close>

fun apart :: "nat \<Rightarrow> nat \<Rightarrow> cp_event \<Rightarrow> bool" where
  "apart c t (Intercept c' t' kube peer metadata) = (c' \<noteq> c \<and> t' \<noteq> t)"
| "apart c t (Handle c' t' vault name) = (c' \<noteq> c)"

lemma cp_step_apart:
  assumes "cp_step readTree trustDomain s e = Some (s', outs)" "apart c t e"
  shows "cp_calls s' c = cp_calls s c \<and> cp_mdc s' t = cp_mdc s t"
  using assms by (cases e) (auto simp: split_beta Let_def split: intercepted.splits option.splits)

lemma cp_run_apart:
  "cp_run readTree trustDomain s es = Some (s', outs) \<Longrightarrow> list_all (apart c t) es \<Longrightarrow>
     cp_calls s' c = cp_calls s c \<and> cp_mdc s' t = cp_mdc s t"
proof (induction es arbitrary: s outs)
  case Nil
  then show ?case by simp
next
  case (Cons e es)
  then show ?case
    unfolding cp_run_Cons_iff by (auto dest!: cp_step_apart)
qed

section \<open>Properties\<close>

text \<open>
  C6: Certificates go to their owners only. In every run of the server, over all threads and all answers of
  Kubernetes and Vault: when Vault is asked for a certificate on behalf of a call, the token of this call has
  been accepted by a review for the audience \<open>api\<close>, the call has asked for exactly the SPIFFE id in this token,
  and the common name is the last component of it; and the pod uid in a reply is the token's.
\<close>

theorem certificates_only_to_their_owner:
  assumes "cp_run readTree trustDomain cp_start es = Some (s, outs)"
  shows "(Effect c (VaultWrite name alt) \<in> set outs \<longrightarrow>
      (\<exists>t kube peer header si t' vault. Intercept c t kube peer (Some header) \<in> set es \<and>
         accepted readTree trustDomain kube header si \<and> Handle c t' vault (si_spiffeId si) \<in> set es \<and>
         last_component (si_spiffeId si) = Some name)) \<and>
    (Replied c (Inr resp) \<in> set outs \<longrightarrow>
      (\<exists>t kube peer header si t' vault. Intercept c t kube peer (Some header) \<in> set es \<and>
         accepted readTree trustDomain kube header si \<and> Handle c t' vault (si_spiffeId si) \<in> set es \<and>
         resp_pod_uid resp = (case si_podUid si of Some u \<Rightarrow> u | None \<Rightarrow> [])))"
proof -
  have "calls_justified readTree trustDomain (set es) cp_start" by (simp add: calls_justified_def cp_start_def)
  from cp_run_justified [OF assms this] have "\<forall>out \<in> set outs. justified readTree trustDomain (set es) out" by simp
  then show ?thesis
    unfolding let_in_def [abs_def] by (fastforce simp: let_in_def)
qed

text \<open>
  A call whose two halves run on one thread, with nothing else on this thread in between, is answered as if the
  thread's logging context held its own identity: the certificate carries the caller's SPIFFE id.
\<close>

theorem same_thread_names_caller:
  assumes "accepted readTree trustDomain kube header si" "list_all (apart c t) mid"
    and "cp_run readTree trustDomain s (pre @ Intercept c t kube peer (Some header) # mid @ [Handle c t vault (si_spiffeId si)]) =
      Some (s', outs)"
  shows "\<exists>before m. m ''serviceIdentity'' = Some (si_spiffeId si) \<and>
    outs = before @ map (Effect c) (snd (getCertificate vault m (ctx_of si) (si_spiffeId si))) @
      [Replied c (fst (getCertificate vault m (ctx_of si) (si_spiffeId si)))]"
proof -
  let ?e = "Intercept c t kube peer (Some header)" and ?h = "Handle c t vault (si_spiffeId si)"
  from assms(3) have "cp_run readTree trustDomain s (pre @ (?e # mid) @ [?h]) = Some (s', outs)" by simp
  then obtain s1 o1 s3 o3 oh where mid: "cp_run readTree trustDomain s1 (?e # mid) = Some (s3, o3)"
    and last: "cp_run readTree trustDomain s3 [?h] = Some (s', oh)" and outs: "outs = o1 @ o3 @ oh"
    unfolding cp_run_append by blast
  from mid obtain s2 oe om where step: "cp_step readTree trustDomain s1 ?e = Some (s2, oe)"
    and rest: "cp_run readTree trustDomain s2 mid = Some (s3, om)"
    unfolding cp_run_Cons_iff by blast
  from step_intercept [OF assms(1), of s1 c t peer] step
  have "cp_calls s2 c = Some (ctx_of si)" "cp_mdc s2 t ''serviceIdentity'' = Some (si_spiffeId si)" by auto
  with cp_run_apart [OF rest assms(2)] have ctx: "cp_calls s3 c = Some (ctx_of si)"
    and m: "cp_mdc s3 t ''serviceIdentity'' = Some (si_spiffeId si)" by simp_all
  from last step_handle [where c = c and t = t and vault = vault and name = "si_spiffeId si", OF ctx]
  have "oh = map (Effect c) (snd (getCertificate vault (cp_mdc s3 t) (ctx_of si) (si_spiffeId si))) @
      [Replied c (fst (getCertificate vault (cp_mdc s3 t) (ctx_of si) (si_spiffeId si)))]"
    unfolding cp_run_Cons_iff by simp
  with outs m show ?thesis by (intro exI [of _ "o1 @ o3"] exI [of _ "cp_mdc s3 t"]) simp
qed

text \<open>
  But the logging context is the thread's, not the call's. When the method of caller \<open>B\<close> runs on the thread on
  which \<open>A\<close>'s call was let in, Vault is asked for a certificate that carries \<open>A\<close>'s SPIFFE id as alternative
  name, and \<open>B\<close> gets it with its key; on a thread that has let in no call it gets the error \<open>UNKNOWN\<close>.
\<close>

theorem certificate_with_foreign_identity:
  assumes "accepted readTree trustDomain kA headerA A" "accepted readTree trustDomain kB headerB B"
    and "last_component (si_spiffeId B) = Some name" "t1 \<noteq> t2" "a \<noteq> b"
    and "vault name (si_spiffeId A) = Inr (Some d)"
      "d ''certificate'' = Some cert" "d ''private_key'' = Some key" "d ''issuing_ca'' = Some ca" "d ''serial_number'' = Some n"
  shows "(\<exists>s outs resp. cp_run readTree trustDomain cp_start
        [Intercept b t1 kB uB (Some headerB), Intercept a t2 kA uA (Some headerA), Handle b t2 vault (si_spiffeId B)] = Some (s, outs) \<and>
      Effect b (VaultWrite name (si_spiffeId A)) \<in> set outs \<and> Replied b (Inr resp) \<in> set outs \<and>
      resp_certificate resp = cert \<and> resp_private_key resp = key) \<and>
    (\<exists>s outs. cp_run readTree trustDomain cp_start
        [Intercept b t1 kB uB (Some headerB), Handle b t2 vault (si_spiffeId B)] = Some (s, outs) \<and>
      Replied b (Inl Unknown) \<in> set outs)"
proof -
  from step_intercept [OF assms(2), of cp_start b t1 uB] obtain s1 l1 where
    s1: "cp_step readTree trustDomain cp_start (Intercept b t1 kB uB (Some headerB)) = Some (s1, map (\<lambda>x. Effect b (Audit x)) l1)"
    "cp_calls s1 b = Some (ctx_of B)" "cp_mdc s1 t2 = Map.empty"
    using assms(4) by (auto simp: cp_start_def)
  from step_intercept [OF assms(1), of s1 a t2 uA] obtain s2 l2 where
    s2: "cp_step readTree trustDomain s1 (Intercept a t2 kA uA (Some headerA)) = Some (s2, map (\<lambda>x. Effect a (Audit x)) l2)"
    "cp_calls s2 b = Some (ctx_of B)" "cp_mdc s2 t2 ''serviceIdentity'' = Some (si_spiffeId A)"
    using s1(2) assms(5) by auto
  note h1 = step_handle [where c = b and t = t2 and vault = vault and name = "si_spiffeId B", OF s1(2)]
  note h2 = step_handle [where c = b and t = t2 and vault = vault and name = "si_spiffeId B", OF s2(2)]
  have get1: "getCertificate vault (cp_mdc s1 t2) (ctx_of B) (si_spiffeId B) = (Inl Unknown, [])"
    using assms(3) s1(3) by (simp add: getCertificate_def issueCertificate_def)
  have get2: "\<exists>resp es. getCertificate vault (cp_mdc s2 t2) (ctx_of B) (si_spiffeId B) = (Inr resp, VaultWrite name (si_spiffeId A) # es) \<and>
      resp_certificate resp = cert \<and> resp_private_key resp = key"
    using assms(3,6-10) s2(3) by (simp add: getCertificate_def issueCertificate_def)
  from h1 h2 get1 get2 s1(1) s2(1) show ?thesis
    unfolding cp_run_Cons_iff by (fastforce simp del: cp_step.simps)
qed

section \<open>Two concrete callers\<close>

text \<open>In this API the payload of a token is just the name of its service account.\<close>

definition example_tree :: "string \<Rightarrow> jnode java" where
  "example_tree payload = Inr (JObject [(''kubernetes.io'', JObject
     [(''namespace'', JText ''shop''), (''serviceaccount'', JObject [(''name'', JText payload)]),
      (''pod'', JObject [(''uid'', JText ''u0'')])])])"

definition example_kube :: kube where
  "example_kube audiences token =
     Inr (Some \<lparr>rs_authenticated = Some True, rs_user = Some (Some ''system:serviceaccount:shop:cart'')\<rparr>)"

definition example_vault :: vault where
  "example_vault name alt = Inr (Some (\<lambda>k. Some (k @ '':'' @ name)))"

definition example_grpc_peer :: grpc_peer where
  "example_grpc_peer = \<lparr>gp_address = ''10.0.0.7:40000'', gp_uuid = ''trace''\<rparr>"

definition example_header :: "string \<Rightarrow> string" where
  "example_header account = ''Bearer h.'' @ b64url_encode account @ ''.s''"

definition example_identity :: "string \<Rightarrow> SpiffeIdentity" where
  "example_identity account = \<lparr>si_namespace = ''shop'', si_serviceAccount = account,
     si_spiffeId = ''spiffe://td/ns/shop/sa/'' @ account, si_podUid = Some ''u0'', si_podName = None\<rparr>"

lemma example_accepted:
  "accepted example_tree ''td'' example_kube (example_header ''cart'') (example_identity ''cart'')"
  "accepted example_tree ''td'' example_kube (example_header ''web'') (example_identity ''web'')"
  by code_simp+

lemma example_names:
  "last_component (si_spiffeId (example_identity ''cart'')) = Some ''cart''"
  "last_component (si_spiffeId (example_identity ''web'')) = Some ''web''"
  by code_simp+

definition example_calls_run :: "cp_event list" where
  "example_calls_run =
     [Intercept 2 1 example_kube example_grpc_peer (Some (example_header ''web'')),
      Intercept 1 0 example_kube example_grpc_peer (Some (example_header ''cart'')),
      Handle 1 0 example_vault (si_spiffeId (example_identity ''cart''))]"

theorem certificate_with_foreign_identity_witness:
  "\<exists>s outs resp. cp_run example_tree ''td'' cp_start
     [Intercept 2 1 example_kube example_grpc_peer (Some (example_header ''web'')), Intercept 1 0 example_kube example_grpc_peer (Some (example_header ''cart'')),
      Handle 2 0 example_vault (si_spiffeId (example_identity ''web''))] = Some (s, outs) \<and>
     Effect 2 (VaultWrite ''web'' (si_spiffeId (example_identity ''cart''))) \<in> set outs \<and> Replied 2 (Inr resp) \<in> set outs"
  using certificate_with_foreign_identity [OF example_accepted(1) example_accepted(2) example_names(2), of 1 0 1 2 example_vault
      "\<lambda>k. Some (k @ '':web'')" "''certificate:web''" "''private_key:web''" "''issuing_ca:web''" "''serial_number:web''" "example_grpc_peer" "example_grpc_peer"]
  by (auto simp: example_vault_def)

lemma example_calls_run_ok:
  "\<exists>s outs. cp_run example_tree ''td'' cp_start example_calls_run = Some (s, outs) \<and>
     Effect 1 (VaultWrite ''cart'' (si_spiffeId (example_identity ''cart''))) \<in> set outs"
proof -
  from step_intercept [OF example_accepted(2), of cp_start 2 1 "example_grpc_peer"] obtain s1 l1 where
    s1: "cp_step example_tree ''td'' cp_start (Intercept 2 1 example_kube example_grpc_peer (Some (example_header ''web''))) =
      Some (s1, map (\<lambda>x. Effect 2 (Audit x)) l1)" by blast
  from step_intercept [OF example_accepted(1), of s1 1 0 "example_grpc_peer"] obtain s2 l2 where
    s2: "cp_step example_tree ''td'' s1 (Intercept 1 0 example_kube example_grpc_peer (Some (example_header ''cart''))) =
      Some (s2, map (\<lambda>x. Effect 1 (Audit x)) l2)" "cp_calls s2 1 = Some (ctx_of (example_identity ''cart''))"
    "cp_mdc s2 0 ''serviceIdentity'' = Some (si_spiffeId (example_identity ''cart''))" by auto
  note h = step_handle [where c = 1 and t = 0 and vault = example_vault and name = "si_spiffeId (example_identity ''cart'')", OF s2(2)]
  have "VaultWrite ''cart'' (si_spiffeId (example_identity ''cart'')) \<in>
      set (snd (getCertificate example_vault (cp_mdc s2 0) (ctx_of (example_identity ''cart'')) (si_spiffeId (example_identity ''cart''))))"
    using example_names(1) s2(3) by (simp add: getCertificate_def issueCertificate_def example_vault_def)
  with h s1 s2(1) show ?thesis
    unfolding example_calls_run_def cp_run_Cons_iff by (fastforce simp del: cp_step.simps)
qed

theorem certificates_only_to_their_owner_witness:
  "\<exists>(si :: SpiffeIdentity) t' vault. Handle 1 t' vault (si_spiffeId si) \<in> set example_calls_run \<and> last_component (si_spiffeId si) = Some ''cart''"
proof -
  from example_calls_run_ok obtain s outs where run: "cp_run example_tree ''td'' cp_start example_calls_run = Some (s, outs)"
    and out: "Effect 1 (VaultWrite ''cart'' (si_spiffeId (example_identity ''cart''))) \<in> set outs" by blast
  from certificates_only_to_their_owner [OF run, THEN conjunct1, THEN mp, OF out] show ?thesis by blast
qed

theorem same_thread_names_caller_witness:
  "\<exists>s' outs. cp_run example_tree ''td'' cp_start example_calls_run = Some (s', outs) \<and>
     (\<exists>before m. m ''serviceIdentity'' = Some (si_spiffeId (example_identity ''cart'')) \<and>
        outs = before @ map (Effect 1) (snd (getCertificate example_vault m (ctx_of (example_identity ''cart''))
          (si_spiffeId (example_identity ''cart'')))) @
        [Replied 1 (fst (getCertificate example_vault m (ctx_of (example_identity ''cart'')) (si_spiffeId (example_identity ''cart''))))])"
proof -
  from example_calls_run_ok obtain s outs where run: "cp_run example_tree ''td'' cp_start example_calls_run = Some (s, outs)"
    by blast
  from same_thread_names_caller [OF example_accepted(1), of 1 0 "[]" cp_start
      "[Intercept 2 1 example_kube example_grpc_peer (Some (example_header ''web''))]" "example_grpc_peer" example_vault s outs] run
  show ?thesis by (auto simp: example_calls_run_def)
qed

end
