(* ===== verification/HttpApi.thy ===== *)
theory HttpApi
  imports ControlPlane
begin

text \<open>
  The HTTP interface of the control plane: \<open>RequestLoggingInterceptor\<close>, \<open>SentinelSecurityInterceptor\<close> and
  \<open>IdentityController\<close> in the order Spring calls them for a request to \<open>/api/v1/identity/issue\<close>, all on one thread
  with its logging context \<open>MDC\<close>. The response object, measured times and the text of log lines other than
  audit events are left out; the headers set on the response are kept.
\<close>

section \<open>Requests\<close>

text \<open>\<open>hr_header name\<close> is \<open>getHeader\<close>; the names the program uses are spelled the same everywhere.\<close>

record http_request =
  hr_method :: string
  hr_uri :: string
  hr_remote :: string
  hr_header :: "string \<Rightarrow> string option"

definition header_given :: "http_request \<Rightarrow> string \<Rightarrow> bool" where
  "header_given rq name \<longleftrightarrow> (case hr_header rq name of Some (c # cs) \<Rightarrow> True | _ \<Rightarrow> False)"

definition index_out_of_bounds :: "string option" where
  "index_out_of_bounds = Some ''Index 0 out of bounds for length 0''"

text \<open>\<open>xForwardedFor.split(",")[0].trim()\<close>\<close>

definition first_address :: "string \<Rightarrow> string java" where
  "first_address h = (case java_split CHR '','' h of [] \<Rightarrow> Inl index_out_of_bounds | w # ws \<Rightarrow> Inr (java_trim w))"

text \<open>Both interceptors look for the client's address; the second one does not know \<open>X-Real-IP\<close>.\<close>

definition getClientIpAddress :: "http_request \<Rightarrow> string java" where
  "getClientIpAddress rq =
     (if header_given rq ''X-Forwarded-For'' then first_address (the (hr_header rq ''X-Forwarded-For''))
      else if header_given rq ''X-Real-IP'' then Inr (the (hr_header rq ''X-Real-IP''))
      else Inr (hr_remote rq))"

definition getClientIp :: "http_request \<Rightarrow> string java" where
  "getClientIp rq =
     (if header_given rq ''X-Forwarded-For'' then first_address (the (hr_header rq ''X-Forwarded-For''))
      else Inr (hr_remote rq))"

section \<open>The interceptors\<close>

text \<open>
  \<open>RequestLoggingInterceptor.preHandle\<close>: the thread's logging context after it, and the headers of the
  response or the exception. The last two entries are not made when the client's address cannot be found. \<open>fresh\<close> holds
  the two random ids.
\<close>

definition header_or :: "http_request \<Rightarrow> string \<Rightarrow> string \<Rightarrow> string" where
  "header_or rq name fresh = (if header_given rq name then the (hr_header rq name) else fresh)"

definition logging_preHandle ::
  "http_request \<Rightarrow> string \<times> string \<Rightarrow> mdc \<Rightarrow> mdc \<times> (string \<times> string) list java" where
  "logging_preHandle rq fresh m =
     (let traceId = header_or rq ''X-Trace-ID'' (fst fresh);
          requestId = header_or rq ''X-Request-ID'' (snd fresh);
          m1 = m(''trace_id'' \<mapsto> traceId, ''request_id'' \<mapsto> requestId, ''http_method'' \<mapsto> hr_method rq, ''http_uri'' \<mapsto> hr_uri rq)
      in case getClientIpAddress rq of
           Inl e \<Rightarrow> (m1, Inl e)
         | Inr ip \<Rightarrow>
             (m1(''http_remote_addr'' \<mapsto> ip, ''http_user_agent'' := hr_header rq ''User-Agent''),
              Inr [(''X-Trace-ID'', traceId), (''X-Request-ID'', requestId)]))"

definition logging_keys :: "string list" where
  "logging_keys = [''trace_id'', ''request_id'', ''http_method'', ''http_uri'', ''http_remote_addr'', ''http_user_agent'']"

definition mdc_remove :: "string list \<Rightarrow> mdc \<Rightarrow> mdc" where
  "mdc_remove ks m = (\<lambda>k. if k \<in> set ks then None else m k)"

definition logging_afterCompletion :: "mdc \<Rightarrow> mdc" where
  "logging_afterCompletion m = mdc_remove logging_keys m"

text \<open>
  \<open>SentinelSecurityInterceptor.preHandle\<close>: an exception, the status 401 (\<open>Inr None\<close>), or the request's attribute
  \<open>verifiedService\<close>; setting an attribute to null removes it.
\<close>

definition security_preHandle ::
  "kube \<Rightarrow> http_request \<Rightarrow> string \<Rightarrow> mdc \<Rightarrow> mdc \<times> string option option java \<times> audit list" where
  "security_preHandle kube rq fresh m =
     (let refused =
            (case getClientIp rq of
               Inl e \<Rightarrow> (m, Inl e, [])
             | Inr ip \<Rightarrow> (m, Inr None, [AuditUnauthorized (hr_uri rq) ip (hr_header rq ''User-Agent'')]))
      in case hr_header rq ''X-Sentinel-Token'' of
           None \<Rightarrow> refused
         | Some h \<Rightarrow>
             if \<not> HasPrefix h ''Bearer '' then refused
             else
               let token = drop 7 h;
                   (ok, log) = validateToken kube token
               in if ok then
                    let serviceName = getServiceAccountName kube token
                    in (m(''serviceIdentity'' := serviceName, ''traceId'' \<mapsto> fresh), Inr (Some serviceName),
                        log @ [AuditAuthentication serviceName True None])
                  else (m, Inr None, log @ [AuditAuthentication (Some ''unknown'') False (Some ''invalid_token'')]))"

definition security_afterCompletion :: "mdc \<Rightarrow> mdc" where
  "security_afterCompletion m = mdc_remove [''serviceIdentity'', ''traceId''] m"

section \<open>The controller\<close>

datatype http_answer = HttpStatus int | HttpOk IdentityResponse

text \<open>\<open>@NotBlank\<close> trims control characters and spaces.\<close>

definition NotBlank :: "string \<Rightarrow> bool" where
  "NotBlank s \<longleftrightarrow> java_trim s \<noteq> []"

text \<open>The service name of the request may be null; an exception of the method is the status 500.\<close>

definition issueIdentity ::
  "vault \<Rightarrow> mdc \<Rightarrow> string option \<Rightarrow> string option \<Rightarrow> http_answer \<times> cp_effect list" where
  "issueIdentity vault m verifiedService requested =
     (case requested of
        None \<Rightarrow> (HttpStatus 400, [])
      | Some name \<Rightarrow>
          if \<not> NotBlank name then (HttpStatus 400, [])
          else if verifiedService \<noteq> Some name then (HttpStatus 403, [])
          else
            let (issued, effects) = issueCertificate vault (m ''serviceIdentity'') name
            in (case issued of Inr (Some r) \<Rightarrow> HttpOk r | _ \<Rightarrow> HttpStatus 500, effects))"

section \<open>One request\<close>

text \<open>
  Spring completes, in reverse order, the interceptors whose \<open>preHandle\<close> has returned true; an exception is the
  status 500.
\<close>

definition http_issue ::
  "kube \<Rightarrow> vault \<Rightarrow> (string \<times> string) \<times> string \<Rightarrow> http_request \<Rightarrow> string option \<Rightarrow> mdc \<Rightarrow>
   mdc \<times> http_answer \<times> cp_effect list" where
  "http_issue kube vault fresh rq requested m =
     (case logging_preHandle rq (fst fresh) m of
        (m1, Inl e) \<Rightarrow> (m1, HttpStatus 500, [])
      | (m1, Inr headers) \<Rightarrow>
          (case security_preHandle kube rq (snd fresh) m1 of
             (m2, Inl e, log) \<Rightarrow> (logging_afterCompletion m2, HttpStatus 500, List.map Audit log)
           | (m2, Inr None, log) \<Rightarrow> (logging_afterCompletion m2, HttpStatus 401, List.map Audit log)
           | (m2, Inr (Some verified), log) \<Rightarrow>
               let (answer, effects) = issueIdentity vault m2 verified requested
               in (logging_afterCompletion (security_afterCompletion m2), answer, List.map Audit log @ effects)))"

section \<open>Lemmas\<close>

text \<open>The address cannot be found exactly when the forwarded header is made of commas.\<close>

definition only_commas :: "http_request \<Rightarrow> bool" where
  "only_commas rq \<longleftrightarrow> header_given rq ''X-Forwarded-For'' \<and> set (the (hr_header rq ''X-Forwarded-For'')) \<subseteq> {CHR '',''}"

lemma header_given_iff: "header_given rq name \<longleftrightarrow> hr_header rq name \<noteq> None \<and> the (hr_header rq name) \<noteq> []"
  by (auto simp: header_given_def split: option.splits list.splits)

lemma first_address_Inl: "(\<exists>e. first_address h = Inl e) \<longleftrightarrow> h \<noteq> [] \<and> set h \<subseteq> {CHR '',''}"
  using java_split_Nil [of "CHR '',''" h] by (auto simp: first_address_def split: list.split)

lemma client_address:
  "\<exists>x. getClientIpAddress rq = (if only_commas rq then Inl x else Inr (known [] x))"
  "\<exists>x. getClientIp rq = (if only_commas rq then Inl x else Inr (known [] x))"
proof -
  have "\<exists>x. first_address (the (hr_header rq ''X-Forwarded-For'')) = (if only_commas rq then Inl x else Inr (known [] x))"
    if "header_given rq ''X-Forwarded-For''"
    using that first_address_Inl [of "the (hr_header rq ''X-Forwarded-For'')"]
    by (cases "first_address (the (hr_header rq ''X-Forwarded-For''))")
      (auto simp: only_commas_def header_given_iff known_def intro!: exI [of _ "Some _"])
  moreover have "\<exists>x. Inr ip = (if only_commas rq then Inl x else Inr (known [] x))"
    if "\<not> header_given rq ''X-Forwarded-For''" for ip :: string
    using that by (auto simp: only_commas_def known_def intro!: exI [of _ "Some ip"])
  ultimately show "\<exists>x. getClientIpAddress rq = (if only_commas rq then Inl x else Inr (known [] x))"
    "\<exists>x. getClientIp rq = (if only_commas rq then Inl x else Inr (known [] x))"
    by (simp_all add: getClientIpAddress_def getClientIp_def)
qed

lemma client_address_ok:
  "\<not> only_commas rq \<Longrightarrow> \<exists>ip. getClientIpAddress rq = Inr ip" "\<not> only_commas rq \<Longrightarrow> \<exists>ip. getClientIp rq = Inr ip"
  using client_address [of rq] by auto

lemma security_preHandle_cases:
  assumes "\<not> only_commas rq"
  obtains log where "security_preHandle kube rq fresh m = (m, Inr None, log)"
    | token log where "hr_header rq ''X-Sentinel-Token'' = Some (''Bearer '' @ token)" "fst (validateToken kube token)"
      "security_preHandle kube rq fresh m =
         (m(''serviceIdentity'' := getServiceAccountName kube token, ''traceId'' \<mapsto> fresh), Inr (Some (getServiceAccountName kube token)), log)"
proof (cases "\<exists>h. hr_header rq ''X-Sentinel-Token'' = Some h \<and> HasPrefix h ''Bearer '' \<and> fst (validateToken kube (drop 7 h))")
  case True
  then obtain h where h: "hr_header rq ''X-Sentinel-Token'' = Some h" "HasPrefix h ''Bearer ''"
    "fst (validateToken kube (drop 7 h))" by blast
  moreover have "h = ''Bearer '' @ drop 7 h"
    using h(2) append_take_drop_id [of 7 h] by (simp add: HasPrefix_def eval_nat_numeral)
  ultimately show ?thesis
    using that(2) [of "drop 7 h"] by (simp add: security_preHandle_def split_beta Let_def del: fun_upd_apply)
next
  case False
  moreover obtain ip where "getClientIp rq = Inr ip" using client_address_ok(2) [OF assms] by blast
  ultimately have "\<exists>log. security_preHandle kube rq fresh m = (m, Inr None, log)"
    by (cases "hr_header rq ''X-Sentinel-Token''") (auto simp: security_preHandle_def split_beta Let_def)
  with that(1) show ?thesis by blast
qed

lemma logging_preHandle_ok:
  assumes "\<not> only_commas rq"
  shows "\<exists>m1 hs. logging_preHandle rq fresh m = (m1, Inr hs) \<and> (\<forall>k. k \<notin> set logging_keys \<longrightarrow> m1 k = m k)"
  using client_address_ok(1) [OF assms] by (auto simp: logging_preHandle_def Let_def logging_keys_def)

text \<open>All the keys a request may touch, and a thread whose context holds none of them.\<close>

definition request_keys :: "string set" where
  "request_keys = set logging_keys \<union> {''serviceIdentity'', ''traceId''}"

definition thread_clean :: "mdc \<Rightarrow> bool" where
  "thread_clean m \<longleftrightarrow> (\<forall>k \<in> request_keys. m k = None)"

lemma mdc_remove_apply [simp]: "mdc_remove ks m k = (if k \<in> set ks then None else m k)"
  by (simp add: mdc_remove_def)

lemma http_issue_clean:
  assumes "\<not> only_commas rq" "thread_clean m"
  shows "fst (http_issue kube vault fresh rq requested m) = m"
proof
  fix k
  have m: "m ''serviceIdentity'' = None" "m ''traceId'' = None" "\<And>k. k \<in> set logging_keys \<Longrightarrow> m k = None"
    using assms(2) by (auto simp: thread_clean_def request_keys_def)
  obtain m1 hs where log: "logging_preHandle rq (fst fresh) m = (m1, Inr hs)" "\<And>k. k \<notin> set logging_keys \<Longrightarrow> m1 k = m k"
    using logging_preHandle_ok [OF assms(1)] by metis
  show "fst (http_issue kube vault fresh rq requested m) k = m k"
    by (rule security_preHandle_cases [OF assms(1), of kube "snd fresh" m1])
      (use log m in \<open>auto simp: http_issue_def logging_afterCompletion_def security_afterCompletion_def split_beta\<close>)
qed

section \<open>Properties\<close>

text \<open>A request as it arrives at a thread, with the outside world it meets.\<close>

record http_arrival =
  ha_kube :: kube
  ha_vault :: vault
  ha_fresh :: "(string \<times> string) \<times> string"
  ha_request :: http_request
  ha_name :: "string option"

definition serve :: "http_arrival \<Rightarrow> mdc \<Rightarrow> mdc \<times> http_answer \<times> cp_effect list" where
  "serve a m = http_issue (ha_kube a) (ha_vault a) (ha_fresh a) (ha_request a) (ha_name a) m"

text \<open>
  C34: What Vault certifies for a request over HTTP does not depend on what earlier requests have left in the thread's context, nor does
  it carry a SPIFFE id: it is the user name of the token's second review, in the common name and in the alternative
  names, and the request has to ask for it literally.
\<close>

theorem http_certifies_user_names:
  assumes "VaultWrite name alt \<in> set (snd (snd (serve a m)))"
  shows "\<exists>token. hr_header (ha_request a) ''X-Sentinel-Token'' = Some (''Bearer '' @ token) \<and> fst (validateToken (ha_kube a) token) \<and>
    getServiceAccountName (ha_kube a) token = Some alt \<and> ha_name a = Some alt \<and> last_component alt = Some name"
proof -
  let ?rq = "ha_request a"
  have ok: "\<not> only_commas ?rq"
    using assms client_address(1) [of ?rq] by (auto simp: serve_def http_issue_def logging_preHandle_def Let_def)
  obtain m1 hs where log: "logging_preHandle ?rq (fst (ha_fresh a)) m = (m1, Inr hs)"
    using logging_preHandle_ok [OF ok] by metis
  show ?thesis
    by (rule security_preHandle_cases [OF ok, of "ha_kube a" "snd (ha_fresh a)" m1])
      (use assms log in \<open>auto simp: serve_def http_issue_def issueIdentity_def split_beta dest!: issue_effects
         split: option.splits if_splits\<close>)
qed

text \<open>
  A thread that serves requests one after the other stays clean: each of them, whatever becomes of it, leaves the logging
  context as it has found it.
\<close>

theorem http_threads_stay_clean:
  assumes "list_all (\<lambda>a. \<not> only_commas (ha_request a)) as" "thread_clean m"
  shows "fold (\<lambda>a m. fst (serve a m)) as m = m"
  using assms by (induction as) (simp_all add: serve_def http_issue_clean)

text \<open>
  Except for a request whose \<open>X-Forwarded-For\<close> header is made of commas only: whatever its token, it is answered
  with the status 500, and its trace stays in the context of the thread.
\<close>

theorem forwarded_commas_fail:
  assumes "only_commas (ha_request a)"
  shows "serve a m =
    (m(''trace_id'' \<mapsto> header_or (ha_request a) ''X-Trace-ID'' (fst (fst (ha_fresh a))),
       ''request_id'' \<mapsto> header_or (ha_request a) ''X-Request-ID'' (snd (fst (ha_fresh a))),
       ''http_method'' \<mapsto> hr_method (ha_request a), ''http_uri'' \<mapsto> hr_uri (ha_request a)), HttpStatus 500, [])"
  using client_address(1) [of "ha_request a"] assms by (auto simp: serve_def http_issue_def logging_preHandle_def Let_def)

section \<open>Concrete requests\<close>

definition example_http :: "(string \<times> string) list \<Rightarrow> http_arrival" where
  "example_http headers = \<lparr>ha_kube = example_kube, ha_vault = example_vault, ha_fresh = ((''t1'', ''r1''), ''u1''),
     ha_request = \<lparr>hr_method = ''POST'', hr_uri = ''/api/v1/identity/issue'', hr_remote = ''10.0.0.7'', hr_header = map_of headers\<rparr>,
     ha_name = Some ''system:serviceaccount:shop:cart''\<rparr>"

lemma example_http_fields [simp]:
  "ha_kube (example_http hs) = example_kube" "hr_header (ha_request (example_http hs)) = map_of hs"
  "ha_name (example_http hs) = Some ''system:serviceaccount:shop:cart''"
  by (simp_all add: example_http_def)

theorem http_certifies_user_names_witness:
  "getServiceAccountName example_kube ''t'' = Some ''system:serviceaccount:shop:cart'' \<and>
   VaultWrite ''system:serviceaccount:shop:cart'' ''system:serviceaccount:shop:cart'' \<in>
     set (snd (snd (serve (example_http [(''X-Sentinel-Token'', ''Bearer t'')]) Map.empty)))"
proof -
  have written: "VaultWrite ''system:serviceaccount:shop:cart'' ''system:serviceaccount:shop:cart'' \<in>
     set (snd (snd (serve (example_http [(''X-Sentinel-Token'', ''Bearer t'')]) Map.empty)))"
    by code_simp
  from http_certifies_user_names [OF written] have "getServiceAccountName example_kube ''t'' = Some ''system:serviceaccount:shop:cart''"
    by auto
  with written show ?thesis by blast
qed

theorem http_threads_stay_clean_witness:
  "fold (\<lambda>a m. fst (serve a m)) [example_http [(''X-Sentinel-Token'', ''Bearer t'')], example_http [(''X-Forwarded-For'', ''1.2.3.4,'')]]
     Map.empty = Map.empty"
  by (rule http_threads_stay_clean) (simp_all add: only_commas_def header_given_def thread_clean_def)

theorem forwarded_commas_fail_witness:
  "fst (snd (serve (example_http [(''X-Sentinel-Token'', ''Bearer t''), (''X-Forwarded-For'', '','')]) Map.empty)) = HttpStatus 500"
  using forwarded_commas_fail [of "example_http [(''X-Sentinel-Token'', ''Bearer t''), (''X-Forwarded-For'', '','')]" Map.empty]
  by (simp add: only_commas_def header_given_def)

end
