(* ===== verification/Issuance.thy ===== *)
theory Issuance
  imports ControlPlane Cluster
begin

text \<open>
  From a service account to the identity in another pod's log: the sidecar's \<open>Fetch\<close> (Go) against the
  control plane's service (Java), and the certificate that comes of it in a handshake with another sidecar.
  Both programs derive the SPIFFE id from the same token, each with its own decoder, and the call only succeeds
  when they agree.
\<close>

section \<open>Tokens\<close>

text \<open>A JSON Web Token: header, payload and signature, separated by dots.\<close>

definition web_token :: "string \<Rightarrow> string \<Rightarrow> string \<Rightarrow> string" where
  "web_token h payload sig = h @ ''.'' @ b64url_encode payload @ ''.'' @ sig"

definition token_parts :: "string \<Rightarrow> string \<Rightarrow> string \<Rightarrow> bool" where
  "token_parts h payload sig \<longleftrightarrow> plain_word h \<and> CHR ''.'' \<notin> set h \<and> plain_word sig \<and> CHR ''.'' \<notin> set sig"

lemma url_char_printable: "v < 64 \<Longrightarrow> printable (url_char v) \<and> url_char v \<noteq> CHR ''.''"
proof -
  assume "v < 64"
  then consider "v < 26" | "26 \<le> v" "v < 52" | "52 \<le> v" "v < 62" | "v = 62" | "v = 63" by linarith
  then have "printable (url_char v) \<and> (of_char (url_char v) :: nat) \<noteq> 46"
    by cases (auto simp: url_char_def printable_def)
  then show ?thesis by auto
qed

lemma encoded_chars: "c \<in> set (b64url_encode s) \<Longrightarrow> printable c \<and> c \<noteq> CHR ''.''"
  using sextets_less url_char_printable by (auto simp: b64url_encode_def)

lemma web_token_split:
  assumes "token_parts h payload sig"
  shows "java_split CHR ''.'' (web_token h payload sig) = [h, b64url_encode payload, sig]"
proof -
  have "web_token h payload sig = join [CHR ''.''] [h, b64url_encode payload, sig]" by (simp add: web_token_def)
  moreover have "\<forall>w \<in> set [h, b64url_encode payload, sig]. CHR ''.'' \<notin> set w"
    using assms encoded_chars by (auto simp: token_parts_def)
  ultimately show ?thesis
    using java_split_join [of "[h, b64url_encode payload, sig]" "CHR ''.''"] assms by (simp add: token_parts_def)
qed

lemma web_token_trim:
  assumes "token_parts h payload sig"
  shows "TrimSpace (web_token h payload sig) = web_token h payload sig"
  using assms
  by (intro TrimSpace_plain)
    (cases h; cases sig rule: rev_cases; auto simp: web_token_def token_parts_def)+

lemma bearer_header [simp]: "bearer (''Bearer '' @ token) = token" "\<not> isBlank (''Bearer '' @ token)"
  by (simp_all add: bearer_def HasPrefix_def isBlank_def java_space_def)

text \<open>What the payload says, and that the two JSON parsers read the same in it.\<close>

definition says ::
  "(string \<Rightarrow> jnode java) \<Rightarrow> (string \<Rightarrow> (string, jwt_claims) result) \<Rightarrow> string \<Rightarrow> string \<Rightarrow>
   string \<Rightarrow> string \<Rightarrow> string \<Rightarrow> bool" where
  "says readTree parseJWT token payload namespace account podUid \<longleftrightarrow>
     parseJWT token = Inr (IsKubernetesClaims \<lparr>Namespace = namespace, SAName = account\<rparr>) \<and>
     (\<exists>root kubernetes sa pod. readTree payload = Inr root \<and> jget root ''kubernetes.io'' = Some kubernetes \<and>
        jget kubernetes ''namespace'' = Some (JText namespace) \<and> jget kubernetes ''serviceaccount'' = Some sa \<and>
        jget sa ''name'' = Some (JText account) \<and> jget kubernetes ''pod'' = Some pod \<and>
        jget pod ''uid'' = Some (JText podUid))"

definition spiffe_id :: "string \<Rightarrow> string \<Rightarrow> string \<Rightarrow> string" where
  "spiffe_id trustDomain namespace account = ''spiffe://'' @ trustDomain @ ''/ns/'' @ namespace @ ''/sa/'' @ account"

text \<open>Both programs find the same identity in the token, when the control plane's decoder can read it.\<close>

definition basic_readable :: "string \<Rightarrow> bool" where
  "basic_readable payload \<longleftrightarrow> list_all (\<lambda>v. v < 62) (sextets payload)"

lemma decode_payload: "b64_decode (b64url_encode payload) = (if basic_readable payload then Some payload else None)"
  by (simp add: b64_decode_encode basic_readable_def)

lemma readable_text: "token_text payload \<Longrightarrow> basic_readable payload"
  by (simp add: basic_readable_def token_text_groups)

lemma same_identity:
  assumes "token_parts h payload sig" "basic_readable payload" "trustDomain \<noteq> []"
    and "says readTree parseJWT (web_token h payload sig) payload namespace account podUid"
  shows "\<exists>claims. ParseJWT parseJWT (web_token h payload sig) = Inr claims \<and>
      GetSpiffeId claims trustDomain = Inr (spiffe_id trustDomain namespace account)"
    "\<exists>si. getSpiffeIdentity readTree trustDomain (web_token h payload sig) = Inr (Some si) \<and>
      si_spiffeId si = spiffe_id trustDomain namespace account \<and> si_podUid si = Some podUid"
  using assms
  by (auto simp: decode_payload says_def ParseJWT_def GetSpiffeId_def spiffe_id_def getSpiffeIdentity_def web_token_split jfield_def Let_def)

section \<open>One call of the certificate service\<close>

text \<open>
  A new gRPC call as the sidecar sees it: its two halves on thread \<open>t\<close> of a server in state \<open>s\<close>, and the code of the
  status of a failure. A call that the interceptor has closed never reaches the method.
\<close>

fun status_text :: "grpc_status \<Rightarrow> string" where
  "status_text PermissionDenied = ''PermissionDenied''"
| "status_text Internal = ''Internal''"
| "status_text Unknown = ''Unknown''"

fun reply_of :: "cp_output list \<Rightarrow> (string, CertificateResponse) result" where
  "reply_of [] = Inl ''Unauthenticated''"
| "reply_of (Replied c (Inr resp) # os) = Inr resp"
| "reply_of (Replied c (Inl st) # os) = Inl (status_text st)"
| "reply_of (_ # os) = reply_of os"

definition grpc_call ::
  "(string \<Rightarrow> jnode java) \<Rightarrow> string \<Rightarrow> cp_state \<Rightarrow> nat \<Rightarrow> nat \<Rightarrow> kube \<Rightarrow> grpc_peer \<Rightarrow> vault \<Rightarrow>
   (string \<times> string) list \<Rightarrow> string \<Rightarrow> (string, CertificateResponse) result" where
  "grpc_call readTree trustDomain s c t kube peer vault md serviceName =
     (case cp_run readTree trustDomain (s\<lparr>cp_calls := (cp_calls s)(c := None)\<rparr>)
         [Intercept c t kube peer (map_of md ''x-sentinel-token''), Handle c t vault serviceName] of
        None \<Rightarrow> Inl ''Unauthenticated''
      | Some (s', outs) \<Rightarrow> reply_of outs)"

lemma reply_of_effects [simp]: "reply_of (map (\<lambda>x. Effect c (f x)) es @ os) = reply_of os"
  by (induction es) simp_all

lemmas reply_of_effect_list [simp] = reply_of_effects [of c "\<lambda>x. x" for c]

lemma grpc_call_accepted:
  assumes "accepted readTree trustDomain kube header si" "map_of md ''x-sentinel-token'' = Some header"
  shows "\<exists>m. m ''serviceIdentity'' = Some (si_spiffeId si) \<and>
    grpc_call readTree trustDomain s c t kube peer vault md name =
      (case fst (getCertificate vault m (ctx_of si) name) of Inr resp \<Rightarrow> Inr resp | Inl st \<Rightarrow> Inl (status_text st))"
proof -
  let ?s = "s\<lparr>cp_calls := (cp_calls s)(c := None)\<rparr>"
  from step_intercept [OF assms(1), of ?s c t peer] obtain s1 log where
    s1: "cp_step readTree trustDomain ?s (Intercept c t kube peer (Some header)) = Some (s1, map (Effect c) (map Audit log))"
    "cp_calls s1 c = Some (ctx_of si)" "cp_mdc s1 t ''serviceIdentity'' = Some (si_spiffeId si)"
    by (auto simp: comp_def simp del: cp_step.simps)
  note h = step_handle [where c = c and t = t and vault = vault and name = name, OF s1(2)]
  let ?g = "getCertificate vault (cp_mdc s1 t) (ctx_of si) name"
  from s1(1) h have "cp_run readTree trustDomain ?s
      [Intercept c t kube peer (map_of md ''x-sentinel-token''), Handle c t vault name] =
      Some (s1\<lparr>cp_calls := (cp_calls s1)(c := None)\<rparr>,
        map (Effect c) (map Audit log) @ map (Effect c) (snd ?g) @ [Replied c (fst ?g)])"
    by (simp add: cp_run.simps(2) assms(2) del: cp_step.simps)
  then show ?thesis
    using s1(3) by (intro exI [of _ "cp_mdc s1 t"])
      (auto simp: grpc_call_def o_def split: sum.split)
qed

text \<open>A call whose token is not accepted never reaches the method.\<close>

lemma grpc_call_refused:
  assumes "\<And>header si. map_of md ''x-sentinel-token'' = Some header \<Longrightarrow> \<not> accepted readTree trustDomain kube header si"
  shows "grpc_call readTree trustDomain s c t kube peer vault md name = Inl ''Unauthenticated''"
  by (rule interceptCall_cases [of "map_of md ''x-sentinel-token''" readTree trustDomain kube get_certificate peer])
    (use assms in \<open>auto simp: grpc_call_def cp_run.simps(2)\<close>)

section \<open>The service as an interface\<close>

text \<open>
  What a client relies on: an answer goes to a caller whose token has been accepted, for the identity in this token, and
  carries the uid of its pod.
\<close>

locale certificate_service =
  fixes call :: "(string \<times> string) list \<Rightarrow> string \<Rightarrow> (string, CertificateResponse) result"
    and identity_in :: "string \<Rightarrow> (string \<times> string) option"
  assumes answers_owner: "call md name = Inr resp \<Longrightarrow>
    \<exists>header. map_of md ''x-sentinel-token'' = Some header \<and> identity_in header = Some (name, resp_pod_uid resp)"
begin

lemma fetch_only_own:
  assumes "Fetch call blocks fits token name = Inr r"
  shows "identity_in (''Bearer '' @ TrimSpace token) = Some (name, PodUid r)"
proof -
  from assms obtain resp where "call [(''x-sentinel-token'', ''Bearer '' @ TrimSpace token)] name = Inr resp" "PodUid r = resp_pod_uid resp"
    unfolding Fetch_def Let_def by (auto split: sum.splits simp del: append_Cons)
  with answers_owner show ?thesis by fastforce
qed

end

text \<open>The identity a header stands for at the control plane.\<close>

definition accepted_identity ::
  "(string \<Rightarrow> jnode java) \<Rightarrow> string \<Rightarrow> kube \<Rightarrow> string \<Rightarrow> (string \<times> string) option" where
  "accepted_identity readTree trustDomain kube header =
     (if isBlank header \<or> \<not> fst (validateToken kube (bearer header)) then None
      else (case getSpiffeIdentity readTree trustDomain (bearer header) of
          Inr (Some si) \<Rightarrow> Some (si_spiffeId si, known [] (si_podUid si))
        | _ \<Rightarrow> None))"

lemma accepted_identity_accepted:
  "accepted readTree trustDomain kube header si \<Longrightarrow>
     accepted_identity readTree trustDomain kube header = Some (si_spiffeId si, known [] (si_podUid si))"
  by (simp add: accepted_def accepted_identity_def)

interpretation issuer: certificate_service "grpc_call readTree trustDomain s c t kube peer vault"
  "accepted_identity readTree trustDomain kube" for readTree trustDomain s c t kube peer vault
proof unfold_locales
  fix md name resp
  assume answer: "grpc_call readTree trustDomain s c t kube peer vault md name = Inr resp"
  then obtain header si where header: "map_of md ''x-sentinel-token'' = Some header" and
    si: "accepted readTree trustDomain kube header si"
    using grpc_call_refused [of md readTree trustDomain kube s c t peer vault name] by fastforce
  from grpc_call_accepted [OF si header, of s c t peer vault name] obtain m where
    "grpc_call readTree trustDomain s c t kube peer vault md name =
      (case fst (getCertificate vault m (ctx_of si) name) of Inr resp \<Rightarrow> Inr resp | Inl st \<Rightarrow> Inl (status_text st))"
    by blast
  with answer have reply: "fst (getCertificate vault m (ctx_of si) name) = Inr resp"
    by (cases "fst (getCertificate vault m (ctx_of si) name)") simp_all
  from reply_pod [OF reply] get_identity [of vault m "ctx_of si" name resp] reply
  have "si_spiffeId si = name" "resp_pod_uid resp = known [] (si_podUid si)" by (simp_all add: known_def)
  with header accepted_identity_accepted [OF si]
  show "\<exists>header. map_of md ''x-sentinel-token'' = Some header \<and>
      accepted_identity readTree trustDomain kube header = Some (name, resp_pod_uid resp)" by simp
qed

section \<open>What Vault certifies\<close>

text \<open>
  A certificate that names nothing but what was asked for: the common name, and as DNS names at most that and
  the alternative name. Vault may leave a name out; its \<open>alt_names\<close> are meant for host names.
\<close>

definition names_asked :: "x509_cert \<Rightarrow> string \<Rightarrow> string \<Rightarrow> bool" where
  "names_asked cert name alt \<longleftrightarrow> CommonName cert = name \<and> set (DNSNames cert) \<subseteq> {name, alt}"

lemma slash_in_spiffe:
  assumes "HasPrefix s ''spiffe://''"
  shows "CHR ''/'' \<in> set s"
proof -
  from assms have "CHR ''/'' \<in> set (take (length ''spiffe://'') s)" by (simp only: HasPrefix_def) simp
  then show ?thesis by (rule in_set_takeD)
qed

lemma identity_of_names:
  assumes "names_asked cert account alt" "CHR ''/'' \<notin> set account" "HasPrefix alt ''spiffe://''"
  shows "ExtractIdentity cert = (if alt \<in> set (DNSNames cert) then alt else account)"
proof -
  have no: "\<not> HasPrefix account ''spiffe://''" using slash_in_spiffe assms(2) by blast
  have "first_spiffe sans = (if alt \<in> set sans then Some alt else None)" if "set sans \<subseteq> {account, alt}" for sans
    using that no assms(3) by (induction sans) auto
  with assms(1) show ?thesis by (simp add: names_asked_def ExtractIdentity_def)
qed

lemma spiffe_id_prefix: "HasPrefix (spiffe_id trustDomain namespace account) ''spiffe://''"
  by (simp add: spiffe_id_def HasPrefix_def)

lemma spiffe_id_account:
  assumes "CHR ''/'' \<notin> set account" "account \<noteq> []"
  shows "last_component (spiffe_id trustDomain namespace account) = Some account"
  using last_component_append [OF assms, of "''spiffe://'' @ trustDomain @ ''/ns/'' @ namespace @ ''/sa''"]
  by (simp add: spiffe_id_def)

text \<open>The sidecar's call is answered with what Vault issues.\<close>

lemma workload_fetches:
  assumes "token_parts h payload sig" "basic_readable payload" "trustDomain \<noteq> []"
    and "says readTree parseJWT (web_token h payload sig) payload namespace account podUid"
    and "fst (validateToken kube (web_token h payload sig))" "CHR ''/'' \<notin> set account" "account \<noteq> []"
    and "vault account (spiffe_id trustDomain namespace account) = Inr (Some d)"
      "d ''certificate'' = Some cert" "d ''private_key'' = Some key" "d ''issuing_ca'' = Some ca" "d ''serial_number'' = Some n"
    and "X509KeyPair blocks fits cert key = Inr pair"
  shows "Fetch (grpc_call readTree trustDomain s c t kube peer vault) blocks fits (web_token h payload sig)
    (spiffe_id trustDomain namespace account) = Inr \<lparr>IdCertificate = pair, PodUid = podUid\<rparr>"
proof -
  let ?token = "web_token h payload sig" and ?id = "spiffe_id trustDomain namespace account"
  from same_identity(2) [OF assms(1-4)] obtain si where si: "getSpiffeIdentity readTree trustDomain ?token = Inr (Some si)" "si_spiffeId si = ?id"
    "si_podUid si = Some podUid" by blast
  then have "accepted readTree trustDomain kube (''Bearer '' @ TrimSpace ?token) si"
    using assms(5) by (simp add: accepted_def web_token_trim [OF assms(1)] del: append_Cons)
  from grpc_call_accepted [OF this, of "[(''x-sentinel-token'', ''Bearer '' @ TrimSpace ?token)]" s c t peer vault ?id]
  obtain m where m: "m ''serviceIdentity'' = Some ?id"
    "grpc_call readTree trustDomain s c t kube peer vault [(''x-sentinel-token'', ''Bearer '' @ TrimSpace ?token)] ?id =
      (case fst (getCertificate vault m (ctx_of si) ?id) of Inr resp \<Rightarrow> Inr resp | Inl st \<Rightarrow> Inl (status_text st))"
    using si(2) by (auto simp del: append_Cons)
  have "fst (getCertificate vault m (ctx_of si) ?id) = Inr \<lparr>resp_certificate = cert, resp_private_key = key,
      resp_issuing_ca = ca, resp_serial_number = n, resp_pod_uid = podUid\<rparr>"
    using m(1) si(2,3) assms(8-12) spiffe_id_account [OF assms(6,7)] by (simp add: getCertificate_def issueCertificate_def)
  with m(2) assms(13) show ?thesis
    by (simp add: Fetch_def Let_def del: append_Cons)
qed

section \<open>Properties\<close>

text \<open>
  The whole of one renewal, across both programs. For a token that the Kubernetes API accepts, and whose payload
  names a service account that the decoders of both sides can read, the identity the sidecar derives is the one the
  control plane derives; the sidecar's call is answered whatever the state of the server, when Vault issues; and the sidecar ends up with
  the pair Vault issued for exactly the account's name and this identity, and with the pod uid of its own token.
\<close>

theorem workload_gets_certificate:
  assumes "token_parts h payload sig" "basic_readable payload" "trustDomain \<noteq> []"
    and "says readTree parseJWT (web_token h payload sig) payload namespace account podUid"
    and "fst (validateToken kube (web_token h payload sig))" "CHR ''/'' \<notin> set account" "account \<noteq> []"
    and "vault account (spiffe_id trustDomain namespace account) = Inr (Some d)"
      "d ''certificate'' = Some cert" "d ''private_key'' = Some key" "d ''issuing_ca'' = Some ca" "d ''serial_number'' = Some n"
    and "X509KeyPair blocks fits cert key = Inr pair"
  shows "\<exists>claims id. ParseJWT parseJWT (web_token h payload sig) = Inr claims \<and> GetSpiffeId claims trustDomain = Inr id \<and>
    id = spiffe_id trustDomain namespace account \<and>
    Fetch (grpc_call readTree trustDomain s c t kube peer vault) blocks fits (web_token h payload sig) id =
      Inr \<lparr>IdCertificate = pair, PodUid = podUid\<rparr>"
  using same_identity(1) [OF assms(1-4)] workload_fetches [where vault = vault and d = d and blocks = blocks and fits = fits, OF assms] by blast


text \<open>
  C35: The decoders do differ. A token whose payload has a six-bit group of 62 or 63 is never served: the sidecar reads the same
  claims in it as in any other, and no review, no Vault and no state of the server keeps the call from being closed.
\<close>

theorem base64url_payload_refused:
  assumes "token_parts h payload sig" "\<not> basic_readable payload"
    and "parseJWT (web_token h payload sig) = Inr (IsKubernetesClaims claims)" "trustDomain \<noteq> []"
  shows "\<exists>id. ParseJWT parseJWT (web_token h payload sig) = Inr claims \<and> GetSpiffeId claims trustDomain = Inr id \<and>
    Fetch (grpc_call readTree trustDomain s c t kube peer vault) blocks fits (web_token h payload sig) id =
      Inl (RPCError ''Unauthenticated'')"
proof -
  let ?token = "web_token h payload sig"
  have "getSpiffeIdentity readTree trustDomain ?token = Inl (Some ''illegal base64'')"
    using assms(1,2) by (simp add: getSpiffeIdentity_def Let_def web_token_split decode_payload)
  then have "\<not> accepted readTree trustDomain kube (''Bearer '' @ TrimSpace ?token) si" for si
    by (simp add: accepted_def web_token_trim [OF assms(1)] del: append_Cons)
  then have "grpc_call readTree trustDomain s c t kube peer vault [(''x-sentinel-token'', ''Bearer '' @ TrimSpace ?token)] id =
      Inl ''Unauthenticated''" for id
    by (intro grpc_call_refused) auto
  then show ?thesis
    using assms(3,4) by (simp add: Fetch_def Let_def ParseJWT_def GetSpiffeId_def del: append_Cons)
qed

text \<open>
  Nobody fetches a certificate for another identity. When \<open>Fetch\<close> succeeds against the control plane, in whatever state
  it is and whatever Vault answers, the review has accepted the token of this call, the SPIFFE id that was
  asked for is the one the control plane finds in it, and the pod uid is the one in the same token.
\<close>

theorem fetch_gets_own_identity:
  assumes "Fetch (grpc_call readTree trustDomain s c t kube peer vault) blocks fits token name = Inr r"
  shows "\<exists>si. accepted readTree trustDomain kube (''Bearer '' @ TrimSpace token) si \<and> si_spiffeId si = name \<and>
    PodUid r = known [] (si_podUid si)"
  using issuer.fetch_only_own [OF assms]
  by (auto simp: accepted_identity_def accepted_def split: if_splits sum.splits option.splits simp del: append_Cons)

section \<open>A concrete workload\<close>

abbreviation example_token :: string where
  "example_token \<equiv> web_token ''h'' ''cart'' ''s''"

definition example_jwt :: "string \<Rightarrow> (string, jwt_claims) result" where
  "example_jwt token = Inr (IsKubernetesClaims \<lparr>Namespace = ''shop'', SAName = ''cart''\<rparr>)"

lemma example_token_ok:
  "token_parts ''h'' ''cart'' ''s''" "basic_readable ''cart''"
  "fst (validateToken example_kube example_token)" "CHR ''/'' \<notin> set ''cart''" "''cart'' \<noteq> []" "''td'' \<noteq> []"
  by (simp_all add: token_parts_def printable_def basic_readable_def validateToken_def example_kube_def Let_def)

lemma example_says: "says example_tree example_jwt token ''cart'' ''shop'' ''cart'' ''u0''"
  by (simp add: says_def example_tree_def example_jwt_def)

lemma example_issues:
  "example_vault ''cart'' alt = Inr (Some (\<lambda>k. Some (k @ '':cart'')))"
  by (simp add: example_vault_def)

theorem workload_gets_certificate_witness:
  "\<exists>id. Fetch (grpc_call example_tree ''td'' cp_start 0 0 example_kube example_grpc_peer example_vault) (\<lambda>pem. [pem]) (\<lambda>der key. True)
     example_token id = Inr \<lparr>IdCertificate = \<lparr>Certificate = Some [''certificate:cart''], PrivateKey = ''private_key:cart''\<rparr>,
       PodUid = ''u0''\<rparr>"
  using workload_gets_certificate [where d = "\<lambda>k. Some (k @ '':cart'')" and vault = example_vault and blocks = "\<lambda>pem. [pem]"
      and fits = "\<lambda>der key. True" and s = cp_start and c = 0 and t = 0 and peer = example_grpc_peer,
      OF example_token_ok(1,2,6) example_says example_token_ok(3-5) example_issues refl refl refl refl]
  by (auto simp: X509KeyPair_def)

lemma example_renewal:
  "Fetch (grpc_call example_tree ''td'' cp_start 0 0 example_kube example_grpc_peer example_vault) (\<lambda>pem. [pem]) (\<lambda>der key. True)
     example_token (spiffe_id ''td'' ''shop'' ''cart'') =
   Inr \<lparr>IdCertificate = \<lparr>Certificate = Some [''certificate:cart''], PrivateKey = ''private_key:cart''\<rparr>, PodUid = ''u0''\<rparr>"
  by (rule workload_fetches [where d = "\<lambda>k. Some (k @ '':cart'')" and vault = example_vault and blocks = "\<lambda>pem. [pem]"
      and fits = "\<lambda>der key. True" and s = cp_start and c = 0 and t = 0 and peer = example_grpc_peer,
      OF example_token_ok(1,2,6) example_says example_token_ok(3-5) example_issues refl refl refl refl])
    (simp add: X509KeyPair_def)

definition issued_parse :: "string \<Rightarrow> x509_cert" where
  "issued_parse der = \<lparr>Raw = der, DNSNames = [spiffe_id ''td'' ''shop'' ''cart''], CommonName = ''cart'', NotAfter = 0\<rparr>"


text \<open>The third byte \<open>?\<close> of a payload makes the group 63.\<close>

theorem base64url_payload_refused_witness:
  "Fetch (grpc_call example_tree ''td'' cp_start 0 0 example_kube example_grpc_peer example_vault) (\<lambda>pem. [pem]) (\<lambda>der key. True)
     (web_token ''h'' ''ca?'' ''s'') ''spiffe://td/ns/shop/sa/cart'' = Inl (RPCError ''Unauthenticated'')"
proof -
  have parts: "token_parts ''h'' ''ca?'' ''s''" "\<not> basic_readable ''ca?''"
    by (simp_all add: token_parts_def printable_def basic_readable_def)
  have claims: "example_jwt (web_token ''h'' ''ca?'' ''s'') = Inr (IsKubernetesClaims \<lparr>Namespace = ''shop'', SAName = ''cart''\<rparr>)"
    by (simp add: example_jwt_def)
  from base64url_payload_refused [where parseJWT = example_jwt and s = cp_start and c = 0 and trustDomain = "''td''" and kube = example_kube and vault = example_vault and blocks = "\<lambda>pem. [pem]"
      and fits = "\<lambda>der key. True" and t = 0 and peer = example_grpc_peer, OF parts(1,2) claims example_token_ok(6), of example_tree]
  show ?thesis by (auto simp: GetSpiffeId_def)
qed

theorem fetch_gets_own_identity_witness:
  "\<exists>(si :: SpiffeIdentity). accepted example_tree ''td'' example_kube (''Bearer '' @ TrimSpace example_token) si \<and>
     si_spiffeId si = spiffe_id ''td'' ''shop'' ''cart'' \<and> ''u0'' = known [] (si_podUid si)"
  using fetch_gets_own_identity [OF example_renewal] by (simp del: append_Cons)

end
