(* ===== verification/Json.thy ===== *)
theory Json
  imports JavaLib
begin

text \<open>
  Reading a JSON text (RFC 8259), as the Kubernetes API server reads the patch of an admission response: a lexer,
  and a parser on tokens with the number of tokens as fuel. Left out are \<open>\u\<close> escapes and
  numbers with a fraction or an exponent, which are refused here. \<open>json_tokens\<close> writes a tree, and
  the parser reads it back.
\<close>

section \<open>Tokens\<close>

datatype jtoken = Punct char | Quoted string | Bare string | Bad

definition quote :: char where
  "quote = CHR 0x22"

text \<open>A quoted string, as Java source spells it inside a literal.\<close>

definition quoted :: "string \<Rightarrow> string" where
  "quoted s = quote # s @ [quote]"

definition unescape :: "char \<Rightarrow> char option" where
  "unescape c = map_of [(quote, quote), (CHR 0x5C, CHR 0x5C), (CHR ''/'', CHR ''/''), (CHR ''b'', CHR 0x08),
     (CHR ''f'', CHR 0x0C), (CHR ''n'', CHR 0x0A), (CHR ''r'', CHR 0x0D), (CHR ''t'', CHR 0x09)] c"

text \<open>The contents of a string after its opening quote, and what comes after the closing one.\<close>

fun read_string :: "string \<Rightarrow> (string \<times> string) option" where
  "read_string [] = None"
| "read_string [c] = (if c = quote then Some ([], []) else None)"
| "read_string (c # d # s) =
     (if c = quote then Some ([], d # s)
      else if c = CHR 0x5C then
        (case unescape d of None \<Rightarrow> None | Some e \<Rightarrow> map_option (\<lambda>(w, r). (e # w, r)) (read_string s))
      else if of_char c < (32 :: nat) then None
      else map_option (\<lambda>(w, r). (c # w, r)) (read_string (d # s)))"

lemma read_string_shorter: "read_string s = Some (w, r) \<Longrightarrow> length r < length s"
  by (induction s arbitrary: w rule: read_string.induct) (fastforce split: if_splits option.splits)+

definition json_space :: "char \<Rightarrow> bool" where
  "json_space c \<longleftrightarrow> c \<in> {CHR '' '', CHR 0x09, CHR 0x0A, CHR 0x0D}"

definition json_punct :: "char \<Rightarrow> bool" where
  "json_punct c \<longleftrightarrow> c \<in> {CHR ''{'', CHR ''}'', CHR ''['', CHR '']'', CHR '':'', CHR '',''}"

definition bare_char :: "char \<Rightarrow> bool" where
  "bare_char c \<longleftrightarrow> is_digit c \<or> c = CHR ''-'' \<or> c = CHR ''+'' \<or> c = CHR ''.'' \<or>
     (97 :: nat) \<le> of_char c \<and> of_char c \<le> (122 :: nat) \<or> (65 :: nat) \<le> of_char c \<and> of_char c \<le> (90 :: nat)"

function json_lex :: "string \<Rightarrow> jtoken list" where
  "json_lex [] = []"
| "json_lex (c # s) =
     (if json_space c then json_lex s
      else if json_punct c then Punct c # json_lex s
      else if c = quote then (case read_string s of None \<Rightarrow> [Bad] | Some (w, r) \<Rightarrow> Quoted w # json_lex r)
      else if bare_char c then Bare (c # takeWhile bare_char s) # json_lex (dropWhile bare_char s)
      else [Bad])"
  by pat_completeness auto
termination
  by (relation "measure length") (auto dest: read_string_shorter simp: length_dropWhile_le le_imp_less_Suc)

section \<open>Values\<close>

definition json_literal :: "string \<Rightarrow> bool" where
  "json_literal w \<longleftrightarrow> w \<in> {''true'', ''false'', ''null''} \<or>
     (let ds = (if HasPrefix w ''-'' then tl w else w) in
      ds \<noteq> [] \<and> list_all is_digit ds \<and> (hd ds = CHR ''0'' \<longrightarrow> tl ds = []))"

fun json_value :: "nat \<Rightarrow> jtoken list \<Rightarrow> (jnode \<times> jtoken list) option"
  and json_members :: "nat \<Rightarrow> jtoken list \<Rightarrow> ((string \<times> jnode) list \<times> jtoken list) option"
  and json_elements :: "nat \<Rightarrow> jtoken list \<Rightarrow> (jnode list \<times> jtoken list) option" where
  "json_value 0 ts = None"
| "json_value (Suc n) ts =
     (case ts of
        Quoted s # r \<Rightarrow> Some (JText s, r)
      | Bare w # r \<Rightarrow> if json_literal w then Some (JOther w, r) else None
      | Punct c # r \<Rightarrow>
          if c = CHR ''{'' then
            (if take 1 r = [Punct CHR ''}''] then Some (JObject [], tl r)
             else map_option (\<lambda>(kvs, r'). (JObject kvs, r')) (json_members n r))
          else if c = CHR ''['' then
            (if take 1 r = [Punct CHR '']''] then Some (JArray [], tl r)
             else map_option (\<lambda>(vs, r'). (JArray vs, r')) (json_elements n r))
          else None
      | _ \<Rightarrow> None)"
| "json_members 0 ts = None"
| "json_members (Suc n) ts =
     (case ts of
        Quoted k # Punct c # r \<Rightarrow>
          if c \<noteq> CHR '':'' then None
          else (case json_value n r of
              Some (v, Punct d # r') \<Rightarrow>
                if d = CHR '','' then map_option (\<lambda>(kvs, t). ((k, v) # kvs, t)) (json_members n r')
                else if d = CHR ''}'' then Some ([(k, v)], r') else None
            | _ \<Rightarrow> None)
      | _ \<Rightarrow> None)"
| "json_elements 0 ts = None"
| "json_elements (Suc n) ts =
     (case json_value n ts of
        Some (v, Punct d # r') \<Rightarrow>
          if d = CHR '','' then map_option (\<lambda>(vs, t). (v # vs, t)) (json_elements n r')
          else if d = CHR '']'' then Some ([v], r') else None
      | _ \<Rightarrow> None)"

definition json_read :: "string \<Rightarrow> jnode option" where
  "json_read text =
     (let ts = json_lex text in
      case json_value (length ts) ts of Some (v, []) \<Rightarrow> Some v | _ \<Rightarrow> None)"

section \<open>Writing\<close>

fun commas :: "jtoken list list \<Rightarrow> jtoken list" where
  "commas [] = []"
| "commas [ts] = ts"
| "commas (ts # us # tss) = ts @ Punct CHR '','' # commas (us # tss)"

fun json_tokens :: "jnode \<Rightarrow> jtoken list" where
  "json_tokens (JText s) = [Quoted s]"
| "json_tokens (JOther w) = [Bare w]"
| "json_tokens (JObject kvs) =
     Punct CHR ''{'' # commas (List.map (\<lambda>(k, v). Quoted k # Punct CHR '':'' # json_tokens v) kvs) @ [Punct CHR ''}'']"
| "json_tokens (JArray vs) = Punct CHR ''['' # commas (List.map json_tokens vs) @ [Punct CHR '']'']"

fun json_ok :: "jnode \<Rightarrow> bool" where
  "json_ok (JText s) = True"
| "json_ok (JOther w) = json_literal w"
| "json_ok (JObject kvs) = list_all (\<lambda>(k, v). json_ok v) kvs"
| "json_ok (JArray vs) = list_all json_ok vs"

section \<open>Lemmas\<close>

lemma json_tokens_hd: "json_tokens v = t # ts \<Longrightarrow> t \<noteq> Punct CHR '']''" "json_tokens v \<noteq> []"
  by (cases v; auto)+

lemma commas_Cons: "tss \<noteq> [] \<Longrightarrow> commas (ts # tss) = ts @ Punct CHR '','' # commas tss"
  by (cases tss) simp_all

text \<open>Given that its values are read back, so are the elements of an array and the members of an object.\<close>

definition reads_back :: "jnode \<Rightarrow> bool" where
  "reads_back v \<longleftrightarrow> (\<forall>n r. length (json_tokens v) \<le> n \<longrightarrow> json_value n (json_tokens v @ r) = Some (v, r))"

lemma read_elements:
  assumes "vs \<noteq> []" "list_all reads_back vs" "length (commas (List.map json_tokens vs)) < n"
  shows "json_elements n (commas (List.map json_tokens vs) @ Punct CHR '']'' # r) = Some (vs, r)"
  using assms
proof (induction vs arbitrary: n)
  case (Cons v vs)
  then obtain m where n: "n = Suc m" by (cases n) simp_all
  have v: "length (json_tokens v) \<le> k \<Longrightarrow> json_value k (json_tokens v @ r) = Some (v, r)" for k r
    using Cons.prems(2) by (simp add: reads_back_def)
  show ?case
  proof (cases vs)
    case Nil
    with v [of m "Punct CHR '']'' # r"] Cons.prems(3) n show ?thesis by simp
  next
    case (Cons v' vs')
    with Cons.IH [of m] v [of m "Punct CHR '','' # commas (List.map json_tokens vs) @ Punct CHR '']'' # r"] Cons.prems(2,3) n
    show ?thesis by simp
  qed
qed simp

abbreviation member_tokens :: "string \<times> jnode \<Rightarrow> jtoken list" where
  "member_tokens \<equiv> \<lambda>(k, v). Quoted k # Punct CHR '':'' # json_tokens v"

lemma read_members:
  assumes "kvs \<noteq> []" "list_all (\<lambda>(k, v). reads_back v) kvs" "length (commas (List.map member_tokens kvs)) < n"
  shows "json_members n (commas (List.map member_tokens kvs) @ Punct CHR ''}'' # r) = Some (kvs, r)"
  using assms
proof (induction kvs arbitrary: n)
  case (Cons kv kvs)
  then obtain m where n: "n = Suc m" by (cases n) simp_all
  obtain k v where kv: "kv = (k, v)" by (cases kv)
  have v: "length (json_tokens v) \<le> i \<Longrightarrow> json_value i (json_tokens v @ r) = Some (v, r)" for i r
    using Cons.prems(2) by (simp add: reads_back_def kv)
  show ?case
  proof (cases kvs)
    case Nil
    with v [of m "Punct CHR ''}'' # r"] Cons.prems(3) n kv show ?thesis by simp
  next
    case (Cons kv' kvs')
    with Cons.IH [of m] v [of m "Punct CHR '','' # commas (List.map member_tokens kvs) @ Punct CHR ''}'' # r"] Cons.prems(2,3) n kv
    show ?thesis by (cases kv') simp
  qed
qed simp

lemma json_value_tokens: "json_ok v \<Longrightarrow> reads_back v"
proof (induction v)
  case (JObject kvs)
  then have ok: "list_all (\<lambda>(k, v). reads_back v) kvs"
    by (fastforce simp: list_all_iff)
  show ?case unfolding reads_back_def
  proof (intro allI impI)
    fix n r
    assume len: "length (json_tokens (JObject kvs)) \<le> n"
    then obtain m where n: "n = Suc m" by (cases n) simp_all
    show "json_value n (json_tokens (JObject kvs) @ r) = Some (JObject kvs, r)"
    proof (cases kvs)
      case (Cons kv kvs')
      have "take 1 (commas (List.map member_tokens kvs) @ Punct CHR ''}'' # r) \<noteq> [Punct CHR ''}'']"
        unfolding Cons by (cases kv; cases kvs') simp_all
      with read_members [OF _ ok, of m r] len Cons n show ?thesis by simp
    qed (simp add: n)
  qed
next
  case (JArray vs)
  then have ok: "list_all reads_back vs" by (simp add: list_all_iff)
  show ?case unfolding reads_back_def
  proof (intro allI impI)
    fix n r
    assume len: "length (json_tokens (JArray vs)) \<le> n"
    then obtain m where n: "n = Suc m" by (cases n) simp_all
    show "json_value n (json_tokens (JArray vs) @ r) = Some (JArray vs, r)"
    proof (cases vs)
      case (Cons v vs')
      obtain t ts where "json_tokens v = t # ts" "t \<noteq> Punct CHR '']''"
        using json_tokens_hd [of v] by (cases "json_tokens v") auto
      then have "take 1 (commas (List.map json_tokens vs) @ Punct CHR '']'' # r) \<noteq> [Punct CHR '']'']"
        unfolding Cons by (cases vs') simp_all
      with read_elements [OF _ ok, of m r] len Cons n show ?thesis by simp
    qed (simp add: n)
  qed
qed (auto simp: reads_back_def gr0_conv_Suc Suc_le_eq)

text \<open>A text whose tokens are those of a tree is read as this tree, whatever its white space.\<close>

lemma json_read_tokens:
  assumes "json_lex text = json_tokens v" "json_ok v"
  shows "json_read text = Some v"
  using json_value_tokens [OF assms(2)] assms(1) by (simp add: json_read_def reads_back_def Let_def)
    (metis append_Nil2 case_prod_conv le_refl list.simps(4) option.simps(5))

text \<open>Conversely the parser only accepts the tokens of the tree it returns.\<close>

lemma json_value_SomeE:
  assumes "json_value (Suc n) ts = Some (v, r)"
  obtains s where "ts = Quoted s # r" "v = JText s"
    | w where "ts = Bare w # r" "v = JOther w"
    | "ts = Punct CHR ''{'' # Punct CHR ''}'' # r" "v = JObject []"
    | "ts = Punct CHR ''['' # Punct CHR '']'' # r" "v = JArray []"
    | kvs t where "ts = Punct CHR ''{'' # t" "json_members n t = Some (kvs, r)" "v = JObject kvs"
    | vs t where "ts = Punct CHR ''['' # t" "json_elements n t = Some (vs, r)" "v = JArray vs"
proof (cases ts)
  case (Cons tok t)
  have one: "take 1 t = [x] \<Longrightarrow> t = x # tl t" for x by (cases t) simp_all
  show ?thesis
  proof (cases tok)
    case (Punct c)
    consider "c = CHR ''{''" | "c = CHR ''[''" | "c \<noteq> CHR ''{''" "c \<noteq> CHR ''[''" by blast
    then show ?thesis
      using assms that(3-6) Cons Punct one by cases (auto split: if_splits)
  qed (use assms that(1,2) Cons in \<open>auto split: if_splits\<close>)
qed (use assms in simp)

lemma json_members_SomeE:
  assumes "json_members (Suc n) ts = Some (kvs, r)"
  obtains k t v where "ts = Quoted k # Punct CHR '':'' # t" "json_value n t = Some (v, Punct CHR ''}'' # r)" "kvs = [(k, v)]"
    | k t v t' kvs' where "ts = Quoted k # Punct CHR '':'' # t" "json_value n t = Some (v, Punct CHR '','' # t')"
        "json_members n t' = Some (kvs', r)" "kvs = (k, v) # kvs'"
proof -
  from assms obtain k t where ts: "ts = Quoted k # Punct CHR '':'' # t"
    by (auto split: list.splits jtoken.splits if_splits)
  with assms obtain v d t' where "json_value n t = Some (v, Punct d # t')"
    by (auto split: option.splits list.splits jtoken.splits)
  with assms ts that show ?thesis by (auto split: if_splits)
qed

lemma json_elements_SomeE:
  assumes "json_elements (Suc n) ts = Some (vs, r)"
  obtains v where "json_value n ts = Some (v, Punct CHR '']'' # r)" "vs = [v]"
    | v t' vs' where "json_value n ts = Some (v, Punct CHR '','' # t')" "json_elements n t' = Some (vs', r)" "vs = v # vs'"
proof -
  from assms obtain v d t' where "json_value n ts = Some (v, Punct d # t')"
    by (auto split: option.splits list.splits jtoken.splits)
  with assms that show ?thesis by (auto split: if_splits)
qed

lemma json_sound:
  "(\<forall>ts v r. json_value n ts = Some (v, r) \<longrightarrow> ts = json_tokens v @ r) \<and>
   (\<forall>ts kvs r. json_members n ts = Some (kvs, r) \<longrightarrow>
      kvs \<noteq> [] \<and> ts = commas (List.map member_tokens kvs) @ Punct CHR ''}'' # r) \<and>
   (\<forall>ts vs r. json_elements n ts = Some (vs, r) \<longrightarrow>
      vs \<noteq> [] \<and> ts = commas (List.map json_tokens vs) @ Punct CHR '']'' # r)"
proof (induction n)
  case (Suc n)
  then have IH: "\<And>ts v r. json_value n ts = Some (v, r) \<Longrightarrow> ts = json_tokens v @ r"
    "\<And>ts kvs r. json_members n ts = Some (kvs, r) \<Longrightarrow>
      kvs \<noteq> [] \<and> ts = commas (List.map member_tokens kvs) @ Punct CHR ''}'' # r"
    "\<And>ts vs r. json_elements n ts = Some (vs, r) \<Longrightarrow>
      vs \<noteq> [] \<and> ts = commas (List.map json_tokens vs) @ Punct CHR '']'' # r"
    by blast+
  show ?case
  proof (intro conjI allI impI)
    fix ts v r
    assume "json_value (Suc n) ts = Some (v, r)"
    then show "ts = json_tokens v @ r"
      by (rule json_value_SomeE) (auto dest: IH)
  next
    fix ts kvs r
    assume *: "json_members (Suc n) ts = Some (kvs, r)"
    then show "kvs \<noteq> []" by (rule json_members_SomeE) simp_all
    from * show "ts = commas (List.map member_tokens kvs) @ Punct CHR ''}'' # r"
      by (rule json_members_SomeE) (auto dest!: IH simp: commas_Cons)
  next
    fix ts vs r
    assume *: "json_elements (Suc n) ts = Some (vs, r)"
    then show "vs \<noteq> []" by (rule json_elements_SomeE) simp_all
    from * show "ts = commas (List.map json_tokens vs) @ Punct CHR '']'' # r"
      by (rule json_elements_SomeE) (auto dest!: IH simp: commas_Cons)
  qed
qed simp

lemma json_read_sound: "json_read text = Some v \<Longrightarrow> json_lex text = json_tokens v"
  using json_sound [of "length (json_lex text)"]
  by (fastforce simp: json_read_def Let_def split: option.splits list.splits prod.splits)

text \<open>In the tokens of a tree no two quoted strings are neighbours, and none is bad.\<close>

fun well_separated :: "jtoken list \<Rightarrow> bool" where
  "well_separated (Quoted a # Quoted b # ts) = False"
| "well_separated (Bad # ts) = False"
| "well_separated (t # ts) = well_separated ts"
| "well_separated [] = True"

lemma well_separated_punct: "well_separated (ts @ Punct c # us) \<longleftrightarrow> well_separated ts \<and> well_separated us"
  by (induction ts rule: well_separated.induct) simp_all

lemma not_separated_append: "\<not> well_separated us \<Longrightarrow> \<not> well_separated (ts @ us)"
  by (induction ts rule: well_separated.induct) (auto elim: well_separated.elims)

lemma well_separated_commas:
  "list_all well_separated tss \<Longrightarrow> well_separated (commas tss)"
  by (induction tss rule: commas.induct) (simp_all add: well_separated_punct)

lemma json_tokens_separated: "well_separated (json_tokens v)"
proof (induction v)
  case (JObject kvs)
  then have "list_all well_separated (List.map member_tokens kvs)"
    by (fastforce simp: list_all_iff)
  then show ?case by (simp add: well_separated_commas well_separated_punct)
next
  case (JArray vs)
  then have "list_all well_separated (List.map json_tokens vs)" by (simp add: list_all_iff)
  then show ?case by (simp add: well_separated_commas well_separated_punct)
qed simp_all

lemma json_read_separated: "\<not> well_separated (json_lex text) \<Longrightarrow> json_read text = None"
  using json_read_sound json_tokens_separated by (cases "json_read text") auto

text \<open>What a quoted string may hold without an escape.\<close>

definition json_plain :: "string \<Rightarrow> bool" where
  "json_plain s \<longleftrightarrow> list_all (\<lambda>c. c \<noteq> quote \<and> c \<noteq> CHR 0x5C \<and> (32 :: nat) \<le> of_char c) s"

lemma json_plain_simps [simp]:
  "json_plain []" "json_plain (c # s) \<longleftrightarrow> c \<noteq> quote \<and> c \<noteq> CHR 0x5C \<and> (32 :: nat) \<le> of_char c \<and> json_plain s"
  "json_plain (s @ t) \<longleftrightarrow> json_plain s \<and> json_plain t"
  by (simp_all add: json_plain_def)

lemma read_string_plain: "json_plain s \<Longrightarrow> read_string (s @ quote # r) = Some (s, r)"
proof (induction s)
  case Nil
  then show ?case by (cases r) simp_all
next
  case (Cons c s)
  then show ?case by (cases "s @ quote # r") auto
qed

lemma lex_quoted: "json_plain s \<Longrightarrow> json_lex (quoted s @ r) = Quoted s # json_lex r"
  using read_string_plain [of s r] by (simp add: quoted_def json_space_def json_punct_def quote_def)

lemma json_plain_quote [simp]: "\<not> json_plain (s @ quote # r)"
  by (simp add: json_plain_def)

lemma json_plain_digits: "list_all is_digit s \<Longrightarrow> json_plain s"
  by (auto simp: json_plain_def quote_def is_digit_def list_all_iff)

end
