(* ===== verification/Webhook.thy ===== *)
theory Webhook
  imports Json Pod
begin

text \<open>
  \<open>SidecarInjectionWebhook.mutate\<close>: what the control plane answers when Kubernetes asks it about a new pod. The patch
  is the text the code concatenates, the API server reads it as JSON and applies it, the kubelet resolves the
  environment, and Go's \<open>flag\<close> package reads the arguments of the init container. The lemmas show that the pod that
  comes of it is the one \<open>Pod\<close> is about.
\<close>

section \<open>The request\<close>

text \<open>What the code reads of a pod and of its annotations; every reference may be null.\<close>

record pod_metadata =
  pm_name :: "string option"
  pm_generateName :: "string option"
  pm_annotations :: "(string \<Rightarrow> string option) option"

record pod_spec =
  ps_containers :: "jnode list option"
  ps_initContainers :: "jnode list option"
  ps_volumes :: "jnode list option"

record pod_object =
  po_metadata :: "pod_metadata option"
  po_spec :: "pod_spec option"

text \<open>\<open>ar_object\<close> is the result of \<open>convertValue\<close>: an exception, null or a pod.\<close>

record admission_request =
  ar_uid :: string
  ar_object :: "pod_object option java"

record admission_response =
  as_uid :: string
  as_allowed :: bool
  as_patchType :: "string option"
  as_patch :: "string option"

record admission_review =
  av_request :: "admission_request option"
  av_response :: "admission_response option"

text \<open>The properties \<open>@Value\<close> injects.\<close>

record webhook_config =
  wc_trustDomain :: string
  wc_serviceName :: string
  wc_namespace :: string
  wc_port :: int
  wc_grpcPort :: int

section \<open>The text of the patch\<close>

definition init_container_text :: "string option \<Rightarrow> string" where
  "init_container_text portAnnotation =
     ''{'' @
     quoted ''name'' @ '': '' @ quoted ''sentinel-init'' @ '', '' @
     quoted ''image'' @ '': '' @ quoted ''localhost:30500/sentinel-init:redirectfix'' @ '', '' @
     quoted ''imagePullPolicy'' @ '': '' @ quoted ''Always'' @ '', '' @
     quoted ''securityContext'' @ '': {'' @
     ''  '' @ quoted ''capabilities'' @ '': {'' @ quoted ''add'' @ '': ['' @ quoted ''NET_ADMIN'' @ '', '' @ quoted ''NET_RAW'' @ '']}'' @
     ''}, '' @
     quoted ''args'' @ '': ['' @ quoted ''--mode'' @ '', '' @ quoted ''REDIRECT'' @ '', '' @ quoted ''--inboundPort'' @ '', '' @
     quoted ''15006'' @ '', '' @ quoted ''--outboundPort'' @ '', '' @ quoted ''15001'' @ '', '' @ quoted ''--servicePort'' @ '', '' @
     quoted (or_null portAnnotation) @ '']'' @
     ''}''"

text \<open>An entry of the environment, by value or by a field of the pod.\<close>

definition env_text :: "string \<Rightarrow> string \<Rightarrow> string" where
  "env_text name val = ''  {'' @ quoted ''name'' @ '': '' @ quoted name @ '', '' @ quoted ''value'' @ '': '' @ quoted val @ ''}''"

definition field_text :: "string \<Rightarrow> string \<Rightarrow> string" where
  "field_text name path = ''  {'' @ quoted ''name'' @ '': '' @ quoted name @ '', '' @ quoted ''valueFrom'' @ '': {'' @
     quoted ''fieldRef'' @ '': {'' @ quoted ''fieldPath'' @ '': '' @ quoted path @ ''}}}''"

definition sidecar_container_text :: "string \<Rightarrow> string \<Rightarrow> string \<Rightarrow> string \<Rightarrow> string \<Rightarrow> string" where
  "sidecar_container_text serviceName trustDomain controlPlaneUrl targetGrpc targetUrl =
     ''{'' @
     quoted ''name'' @ '': '' @ quoted ''sentinel-proxy'' @ '', '' @
     quoted ''image'' @ '': '' @ quoted ''localhost:30500/sentinel-data-plane:redirectfix'' @ '', '' @
     quoted ''imagePullPolicy'' @ '': '' @ quoted ''Always'' @ '', '' @
     quoted ''ports'' @ '': ['' @
     ''  {'' @ quoted ''containerPort'' @ '': 15006, '' @ quoted ''name'' @ '': '' @ quoted ''http-sentinel'' @ ''},'' @
     ''  {'' @ quoted ''containerPort'' @ '': 15001, '' @ quoted ''name'' @ '': '' @ quoted ''https-sentinel'' @ ''}'' @
     ''], '' @
     quoted ''env'' @ '': ['' @
     env_text ''SERVICE_NAME'' serviceName @ '', '' @
     env_text ''SPIFFE_TRUST_DOMAIN'' trustDomain @ '', '' @
     env_text ''CONTROL_PLANE_URL'' (controlPlaneUrl @ ''/api/v1/identity/issue'') @ '', '' @
     env_text ''TARGET_GRPC'' targetGrpc @ '', '' @
     env_text ''TARGET_URL'' targetUrl @ '', '' @
     env_text ''PROXY_MODE'' ''redirect'' @ '', '' @
     field_text ''POD_NAME'' ''metadata.name'' @ '', '' @
     field_text ''POD_UID'' ''metadata.uid'' @ '', '' @
     field_text ''KUBERNETES_NAMESPACE'' ''metadata.namespace'' @ '', '' @
     field_text ''SERVICE_ACCOUNT'' ''spec.serviceAccountName'' @ '', '' @
     env_text ''CA_CERT_PATH'' ''/etc/certs/root_ca.crt'' @ '', '' @
     field_text ''POD_IP'' ''status.podIP'' @
     ''], '' @
     quoted ''securityContext'' @ '': {'' @
     ''  '' @ quoted ''runAsUser'' @ '': 1337, '' @
     ''  '' @ quoted ''capabilities'' @ '': {'' @ quoted ''add'' @ '': ['' @ quoted ''NET_ADMIN'' @ '']}'' @
     ''}, '' @
     quoted ''volumeMounts'' @ '': ['' @
     ''  {'' @ quoted ''name'' @ '': '' @ quoted ''sentinel-certs'' @ '', '' @ quoted ''mountPath'' @ '': '' @ quoted ''/etc/certs'' @ '', '' @
     quoted ''readOnly'' @ '': true}'' @
     '']'' @
     ''}''"

definition volume_text :: string where
  "volume_text =
     ''{'' @
     quoted ''name'' @ '': '' @ quoted ''sentinel-certs'' @ '', '' @
     quoted ''secret'' @ '': {'' @ quoted ''secretName'' @ '': '' @ quoted ''sentinel-root-ca'' @ ''}'' @
     ''}''"

text \<open>\<open>inits\<close> and \<open>vols\<close>: the pod has init containers, and volumes, already.\<close>

definition add_text :: "string \<Rightarrow> string \<Rightarrow> string" where
  "add_text path val = ''{'' @ quoted ''op'' @ '': '' @ quoted ''add'' @ '', '' @ quoted ''path'' @ '': '' @ quoted path @ '', '' @
     quoted ''value'' @ '': '' @ val @ ''}''"

definition patch_text :: "bool \<Rightarrow> bool \<Rightarrow> string \<Rightarrow> string \<Rightarrow> string" where
  "patch_text inits vols initContainer sidecarContainer =
     ''['' @
     add_text (if inits then ''/spec/initContainers/-'' else ''/spec/initContainers'')
       (if inits then initContainer else ''['' @ initContainer @ '']'') @ '', '' @
     add_text ''/spec/containers/-'' sidecarContainer @ '', '' @
     add_text (if vols then ''/spec/volumes/-'' else ''/spec/volumes'')
       (if vols then volume_text else ''['' @ volume_text @ '']'') @
     '']''"

section \<open>The handler\<close>

text \<open>The port of the application: an annotation that is missing, empty or no number leaves 8080.\<close>

definition app_port :: "string option \<Rightarrow> int" where
  "app_port portAnnotation =
     (case portAnnotation of
        None \<Rightarrow> 8080
      | Some s \<Rightarrow> if s = [] then 8080 else (case parseInt s of None \<Rightarrow> 8080 | Some n \<Rightarrow> n))"

definition pod_name :: "pod_metadata \<Rightarrow> string" where
  "pod_name md =
     (case pm_name md of Some n \<Rightarrow> n
      | None \<Rightarrow> (case pm_generateName md of Some n \<Rightarrow> n | None \<Rightarrow> ''unknown-pod''))"

definition cluster_host :: "webhook_config \<Rightarrow> int \<Rightarrow> string" where
  "cluster_host cfg port = wc_serviceName cfg @ ''.'' @ wc_namespace cfg @ ''.svc.cluster.local:'' @ int_str port"

definition present :: "'a list option \<Rightarrow> bool" where
  "present xs \<longleftrightarrow> (case xs of Some (y # ys) \<Rightarrow> True | _ \<Rightarrow> False)"

text \<open>The body of the \<open>try\<close>: an exception, no patch, or the patch. Namespace and account are only logged.\<close>

definition sidecar_patch :: "webhook_config \<Rightarrow> pod_object \<Rightarrow> string option java" where
  "sidecar_patch cfg pod =
     bind_result (deref (po_metadata pod)) (\<lambda>md.
       case pm_annotations md of
         None \<Rightarrow> Inr None
       | Some annotations \<Rightarrow>
           if annotations ''sentinel-zt.io/inject'' \<noteq> Some ''true'' then Inr None
           else
             let serviceName = (case annotations ''sentinel-zt.io/service-name'' of None \<Rightarrow> pod_name md | Some n \<Rightarrow> n);
                 portAnnotation = annotations ''sentinel-zt.io/target-port''
             in bind_result (deref (po_spec pod)) (\<lambda>spec.
                  Inr (Some (patch_text (present (ps_initContainers spec)) (present (ps_volumes spec))
                    (init_container_text portAnnotation)
                    (sidecar_container_text serviceName (wc_trustDomain cfg)
                      (''http://'' @ cluster_host cfg (wc_port cfg)) (cluster_host cfg (wc_grpcPort cfg))
                      (''http://localhost:'' @ int_str (app_port portAnnotation)))))))"

definition mutate :: "webhook_config \<Rightarrow> admission_review \<Rightarrow> admission_review" where
  "mutate cfg review =
     (case av_request review of
        None \<Rightarrow> review
      | Some request \<Rightarrow>
          let allowed = \<lparr>as_uid = ar_uid request, as_allowed = True, as_patchType = None, as_patch = None\<rparr>
          in review\<lparr>av_response := Some
               (case bind_result (ar_object request) (\<lambda>pod. bind_result (deref pod) (sidecar_patch cfg)) of
                  Inr (Some patch) \<Rightarrow> allowed\<lparr>as_patchType := Some ''JSONPatch'', as_patch := Some (b64_encode patch)\<rparr>
                | _ \<Rightarrow> allowed)\<rparr>)"

section \<open>What the patch says\<close>

text \<open>The trees the texts stand for.\<close>

definition init_container :: "string \<Rightarrow> jnode" where
  "init_container servicePort = JObject
     [(''name'', JText ''sentinel-init''), (''image'', JText ''localhost:30500/sentinel-init:redirectfix''),
      (''imagePullPolicy'', JText ''Always''),
      (''securityContext'', JObject [(''capabilities'', JObject [(''add'', JArray [JText ''NET_ADMIN'', JText ''NET_RAW''])])]),
      (''args'', JArray (List.map JText [''--mode'', ''REDIRECT'', ''--inboundPort'', ''15006'', ''--outboundPort'', ''15001'',
         ''--servicePort'', servicePort]))]"

definition env_entry :: "string \<Rightarrow> string \<Rightarrow> jnode" where
  "env_entry name val = JObject [(''name'', JText name), (''value'', JText val)]"

definition field_entry :: "string \<Rightarrow> string \<Rightarrow> jnode" where
  "field_entry name path =
     JObject [(''name'', JText name), (''valueFrom'', JObject [(''fieldRef'', JObject [(''fieldPath'', JText path)])])]"

definition port_entry :: "string \<Rightarrow> string \<Rightarrow> jnode" where
  "port_entry port name = JObject [(''containerPort'', JOther port), (''name'', JText name)]"

definition sidecar_env :: "string \<Rightarrow> string \<Rightarrow> string \<Rightarrow> string \<Rightarrow> string \<Rightarrow> jnode list" where
  "sidecar_env serviceName trustDomain controlPlaneUrl targetGrpc targetUrl =
     [env_entry ''SERVICE_NAME'' serviceName, env_entry ''SPIFFE_TRUST_DOMAIN'' trustDomain,
      env_entry ''CONTROL_PLANE_URL'' (controlPlaneUrl @ ''/api/v1/identity/issue''), env_entry ''TARGET_GRPC'' targetGrpc,
      env_entry ''TARGET_URL'' targetUrl, env_entry ''PROXY_MODE'' ''redirect'',
      field_entry ''POD_NAME'' ''metadata.name'', field_entry ''POD_UID'' ''metadata.uid'',
      field_entry ''KUBERNETES_NAMESPACE'' ''metadata.namespace'', field_entry ''SERVICE_ACCOUNT'' ''spec.serviceAccountName'',
      env_entry ''CA_CERT_PATH'' ''/etc/certs/root_ca.crt'', field_entry ''POD_IP'' ''status.podIP'']"

definition sidecar_container :: "jnode list \<Rightarrow> jnode" where
  "sidecar_container env = JObject
     [(''name'', JText ''sentinel-proxy''), (''image'', JText ''localhost:30500/sentinel-data-plane:redirectfix''),
      (''imagePullPolicy'', JText ''Always''),
      (''ports'', JArray [port_entry ''15006'' ''http-sentinel'', port_entry ''15001'' ''https-sentinel'']),
      (''env'', JArray env),
      (''securityContext'', JObject [(''runAsUser'', JOther ''1337''),
         (''capabilities'', JObject [(''add'', JArray [JText ''NET_ADMIN''])])]),
      (''volumeMounts'', JArray [JObject [(''name'', JText ''sentinel-certs''), (''mountPath'', JText ''/etc/certs''),
         (''readOnly'', JOther ''true'')]])]"

definition cert_volume :: jnode where
  "cert_volume = JObject [(''name'', JText ''sentinel-certs''), (''secret'', JObject [(''secretName'', JText ''sentinel-root-ca'')])]"

definition add_op :: "string \<Rightarrow> jnode \<Rightarrow> jnode" where
  "add_op path val = JObject [(''op'', JText ''add''), (''path'', JText path), (''value'', val)]"

definition patch_tree :: "bool \<Rightarrow> bool \<Rightarrow> jnode \<Rightarrow> jnode \<Rightarrow> jnode" where
  "patch_tree inits vols initContainer sidecar = JArray
     [add_op (if inits then ''/spec/initContainers/-'' else ''/spec/initContainers'') (if inits then initContainer else JArray [initContainer]),
      add_op ''/spec/containers/-'' sidecar,
      add_op (if vols then ''/spec/volumes/-'' else ''/spec/volumes'') (if vols then cert_volume else JArray [cert_volume])]"

text \<open>Token by token.\<close>

declare json_lex.simps(2) [simp del]

lemma lex_char [simp]:
  "json_lex (CHR '' '' # s) = json_lex s" "json_lex (CHR ''{'' # s) = Punct CHR ''{'' # json_lex s"
  "json_lex (CHR ''}'' # s) = Punct CHR ''}'' # json_lex s" "json_lex (CHR ''['' # s) = Punct CHR ''['' # json_lex s"
  "json_lex (CHR '']'' # s) = Punct CHR '']'' # json_lex s" "json_lex (CHR '':'' # s) = Punct CHR '':'' # json_lex s"
  "json_lex (CHR '','' # s) = Punct CHR '','' # json_lex s"
  by (simp_all add: json_lex.simps(2) json_space_def json_punct_def)

lemma lex_bare:
  assumes "list_all bare_char (c # w)" "\<not> bare_char d" "\<not> json_space c" "\<not> json_punct c" "c \<noteq> quote"
  shows "json_lex (c # w @ d # r) = Bare (c # w) # json_lex (d # r)"
  using assms by (simp add: json_lex.simps(2) [of c] takeWhile_append dropWhile_append list_all_iff)

lemma lex_literals [simp]:
  "json_lex (CHR ''1'' # CHR ''5'' # CHR ''0'' # CHR ''0'' # CHR ''6'' # CHR '','' # r) = Bare ''15006'' # Punct CHR '','' # json_lex r"
  "json_lex (CHR ''1'' # CHR ''5'' # CHR ''0'' # CHR ''0'' # CHR ''1'' # CHR '','' # r) = Bare ''15001'' # Punct CHR '','' # json_lex r"
  "json_lex (CHR ''1'' # CHR ''3'' # CHR ''3'' # CHR ''7'' # CHR '','' # r) = Bare ''1337'' # Punct CHR '','' # json_lex r"
  "json_lex (CHR ''t'' # CHR ''r'' # CHR ''u'' # CHR ''e'' # CHR ''}'' # r) = Bare ''true'' # Punct CHR ''}'' # json_lex r"
  using lex_bare [of "CHR ''1''" "''5006''" "CHR '',''" r] lex_bare [of "CHR ''1''" "''5001''" "CHR '',''" r]
    lex_bare [of "CHR ''1''" "''337''" "CHR '',''" r] lex_bare [of "CHR ''t''" "''rue''" "CHR ''}''" r]
  by (simp_all add: bare_char_def is_digit_def json_space_def json_punct_def quote_def)

lemma lex_entries [simp]:
  "json_plain name \<Longrightarrow> json_plain val \<Longrightarrow> json_lex (env_text name val @ r) = json_tokens (env_entry name val) @ json_lex r"
  "json_plain name \<Longrightarrow> json_plain path \<Longrightarrow> json_lex (field_text name path @ r) = json_tokens (field_entry name path) @ json_lex r"
  by (simp_all add: env_text_def env_entry_def field_text_def field_entry_def lex_quoted quote_def)

lemma lex_init_container:
  "json_plain (or_null ann) \<Longrightarrow>
     json_lex (init_container_text ann @ r) = json_tokens (init_container (or_null ann)) @ json_lex r"
  by (simp add: init_container_text_def init_container_def lex_quoted quote_def)

lemma lex_volume: "json_lex (volume_text @ r) = json_tokens cert_volume @ json_lex r"
  by (simp add: volume_text_def cert_volume_def lex_quoted quote_def)

lemma lex_sidecar:
  assumes "json_plain serviceName" "json_plain trustDomain" "json_plain controlPlaneUrl" "json_plain targetGrpc" "json_plain targetUrl"
  shows "json_lex (sidecar_container_text serviceName trustDomain controlPlaneUrl targetGrpc targetUrl @ r) =
    json_tokens (sidecar_container (sidecar_env serviceName trustDomain controlPlaneUrl targetGrpc targetUrl)) @ json_lex r"
  using assms
  by (simp add: sidecar_container_text_def sidecar_container_def sidecar_env_def port_entry_def lex_quoted quote_def)

lemma lex_add:
  assumes "\<And>r. json_lex (val @ r) = json_tokens v @ json_lex r" "json_plain path"
  shows "json_lex (add_text path val @ r) = json_tokens (add_op path v) @ json_lex r"
    "json_lex ((''['' @ val @ '']'') @ r) = json_tokens (JArray [v]) @ json_lex r"
  using assms by (simp_all add: add_text_def add_op_def lex_quoted quote_def)

lemma lex_patch:
  assumes "\<And>r. json_lex (initContainer @ r) = json_tokens ic @ json_lex r" "\<And>r. json_lex (sidecar @ r) = json_tokens sc @ json_lex r"
  shows "json_lex (patch_text inits vols initContainer sidecar) = json_tokens (patch_tree inits vols ic sc)"
proof -
  have paths: "json_plain (if b then ''/spec/initContainers/-'' else ''/spec/initContainers'')" "json_plain ''/spec/containers/-''"
    "json_plain (if b then ''/spec/volumes/-'' else ''/spec/volumes'')" for b
    by (simp_all add: quote_def)
  have "json_lex ((if b then val else ''['' @ val @ '']'') @ r) = json_tokens (if b then v else JArray [v]) @ json_lex r"
    if "\<And>r. json_lex (val @ r) = json_tokens v @ json_lex r" for b val v r
    using that by simp
  note lex_add(1) [OF this [OF assms(1)] paths(1)] lex_add(1) [OF assms(2) paths(2)] lex_add(1) [OF this [OF lex_volume] paths(3)]
  then show ?thesis by (simp add: patch_text_def patch_tree_def del: json_tokens.simps(1-3))
qed

section \<open>The API server\<close>

text \<open>JSON Patch (RFC 6902), for the operation and the paths that occur.\<close>

definition apply_add :: "string \<Rightarrow> jnode \<Rightarrow> pod_spec \<Rightarrow> pod_spec option" where
  "apply_add path v spec =
     (if path = ''/spec/initContainers/-'' then
        map_option (\<lambda>xs. spec\<lparr>ps_initContainers := Some (xs @ [v])\<rparr>) (ps_initContainers spec)
      else if path = ''/spec/containers/-'' then
        map_option (\<lambda>xs. spec\<lparr>ps_containers := Some (xs @ [v])\<rparr>) (ps_containers spec)
      else if path = ''/spec/volumes/-'' then
        map_option (\<lambda>xs. spec\<lparr>ps_volumes := Some (xs @ [v])\<rparr>) (ps_volumes spec)
      else (case v of
          JArray vs \<Rightarrow>
            if path = ''/spec/initContainers'' then Some (spec\<lparr>ps_initContainers := Some vs\<rparr>)
            else if path = ''/spec/volumes'' then Some (spec\<lparr>ps_volumes := Some vs\<rparr>) else None
        | _ \<Rightarrow> None))"

fun apply_ops :: "jnode list \<Rightarrow> pod_spec \<Rightarrow> pod_spec option" where
  "apply_ops [] spec = Some spec"
| "apply_ops (e # es) spec =
     (case (jget e ''op'', jget e ''path'', jget e ''value'') of
        (Some (JText op), Some (JText path), Some v) \<Rightarrow>
          if op \<noteq> ''add'' then None
          else (case apply_add path v spec of None \<Rightarrow> None | Some spec' \<Rightarrow> apply_ops es spec')
      | _ \<Rightarrow> None)"

text \<open>The pod specification that is stored after the webhook's answer, \<open>None\<close> when the pod is rejected.\<close>

definition read_patch :: "string \<Rightarrow> jnode option" where
  "read_patch patch = (case b64_decode patch of None \<Rightarrow> None | Some text \<Rightarrow> json_read text)"

definition admitted :: "webhook_config \<Rightarrow> admission_request \<Rightarrow> pod_spec \<Rightarrow> pod_spec option" where
  "admitted cfg request spec =
     (case av_response (mutate cfg \<lparr>av_request = Some request, av_response = None\<rparr>) of
        None \<Rightarrow> None
      | Some resp \<Rightarrow>
          if \<not> as_allowed resp then None
          else (case as_patch resp of
              None \<Rightarrow> Some spec
            | Some patch \<Rightarrow> (case read_patch patch of Some (JArray es) \<Rightarrow> apply_ops es spec | _ \<Rightarrow> None)))"

section \<open>The kubelet\<close>

text \<open>
  The environment and the arguments of a container; \<open>field path\<close> is the pod's value for a field. References \<open>$(VAR)\<close>,
  which the kubelet would expand, are not resolved: texts with a dollar are left out.
\<close>

fun entry_value :: "(string \<Rightarrow> string) \<Rightarrow> jnode \<Rightarrow> string option" where
  "entry_value field e =
     (case jget e ''value'' of
        Some (JText v) \<Rightarrow> if CHR ''$'' \<in> set v then None else Some v
      | Some _ \<Rightarrow> None
      | None \<Rightarrow>
          (case jget e ''valueFrom'' of
             None \<Rightarrow> None
           | Some from \<Rightarrow>
               (case jget from ''fieldRef'' of
                  None \<Rightarrow> None
                | Some ref \<Rightarrow> (case jget ref ''fieldPath'' of Some (JText path) \<Rightarrow> Some (field path) | _ \<Rightarrow> None))))"

fun env_pairs :: "(string \<Rightarrow> string) \<Rightarrow> jnode list \<Rightarrow> (string \<times> string) list option" where
  "env_pairs field [] = Some []"
| "env_pairs field (e # es) =
     (case (jget e ''name'', entry_value field e, env_pairs field es) of
        (Some (JText name), Some v, Some rest) \<Rightarrow> Some ((name, v) # rest)
      | _ \<Rightarrow> None)"

definition container_env :: "(string \<Rightarrow> string) \<Rightarrow> jnode \<Rightarrow> environ option" where
  "container_env field container =
     (case jget container ''env'' of
        Some (JArray es) \<Rightarrow>
          map_option (\<lambda>kvs name. case map_of (rev kvs) name of None \<Rightarrow> [] | Some v \<Rightarrow> v) (env_pairs field es)
      | _ \<Rightarrow> None)"

fun text_list :: "jnode list \<Rightarrow> string list option" where
  "text_list [] = Some []"
| "text_list (JText s # vs) = (if CHR ''$'' \<in> set s then None else map_option ((#) s) (text_list vs))"
| "text_list (v # vs) = None"

definition container_args :: "jnode \<Rightarrow> string list option" where
  "container_args container = (case jget container ''args'' of Some (JArray vs) \<Rightarrow> text_list vs | _ \<Rightarrow> None)"

section \<open>The flags of the init container\<close>

text \<open>
  \<open>flag.Parse\<close> on the flags \<open>main\<close> declares; \<open>None\<close> where the package ends the process. Numbers with a base prefix or
  underscores are not read here.
\<close>

definition flag_int :: "string \<Rightarrow> int option" where
  "flag_int s = (if HasPrefix s ''0'' \<and> s \<noteq> ''0'' then None else Atoi s)"

definition ParseBool :: "string \<Rightarrow> bool option" where
  "ParseBool s =
     (if s \<in> {''1'', ''t'', ''T'', ''TRUE'', ''true'', ''True''} then Some True
      else if s \<in> {''0'', ''f'', ''F'', ''FALSE'', ''false'', ''False''} then Some False else None)"

definition set_flag :: "string \<Rightarrow> string \<Rightarrow> init_flags \<Rightarrow> init_flags option" where
  "set_flag name v f =
     (if name = ''mode'' then Some (f\<lparr>f_mode := v\<rparr>)
      else if name = ''inboundPort'' then map_option (\<lambda>n. f\<lparr>f_inboundPort := n\<rparr>) (flag_int v)
      else if name = ''outboundPort'' then map_option (\<lambda>n. f\<lparr>f_outboundPort := n\<rparr>) (flag_int v)
      else if name = ''servicePort'' then Some (f\<lparr>f_servicePort := v\<rparr>)
      else if name = ''proxyUID'' then map_option (\<lambda>n. f\<lparr>f_proxyUID := n\<rparr>) (flag_int v)
      else if name = ''proxyMark'' then map_option (\<lambda>n. f\<lparr>f_proxyMark := n\<rparr>) (flag_int v)
      else if name = ''excludePorts'' then Some (f\<lparr>f_excludePorts := v\<rparr>)
      else if name = ''dryRun'' then map_option (\<lambda>b. f\<lparr>f_dryRun := b\<rparr>) (ParseBool v)
      else None)"

fun parse_flags :: "string list \<Rightarrow> init_flags \<Rightarrow> init_flags option" where
  "parse_flags [] f = Some f"
| "parse_flags (a # as) f =
     (if length a < 2 \<or> hd a \<noteq> CHR ''-'' \<or> a = ''--'' then Some f
      else
        let name = (if HasPrefix a ''--'' then drop 2 a else drop 1 a) in
        if HasPrefix name ''-'' \<or> HasPrefix name ''='' then None
        else (case index_byte CHR ''='' name of
            Some i \<Rightarrow>
              (case set_flag (take i name) (drop (Suc i) name) f of None \<Rightarrow> None | Some f' \<Rightarrow> parse_flags as f')
          | None \<Rightarrow>
              if name = ''dryRun'' then parse_flags as (f\<lparr>f_dryRun := True\<rparr>)
              else (case as of
                  [] \<Rightarrow> None
                | v # as' \<Rightarrow> (case set_flag name v f of None \<Rightarrow> None | Some f' \<Rightarrow> parse_flags as' f'))))"

section \<open>Lemmas\<close>

text \<open>Text that goes unchanged through JSON and the kubelet.\<close>

definition pod_plain :: "string \<Rightarrow> bool" where
  "pod_plain s \<longleftrightarrow> json_plain s \<and> CHR ''$'' \<notin> set s"

lemma int_str_plain: "pod_plain (int_str n)"
proof -
  have "pod_plain (nat_str k)" for k
    using json_plain_digits nat_str_all_digits nat_str_digits [of k] digit_not_sign
    by (fastforce simp: pod_plain_def is_digit_def)
  then show ?thesis by (auto simp: int_str_def pod_plain_def quote_def)
qed

lemma pod_plain_simps [simp]:
  "pod_plain []" "pod_plain (s @ t) \<longleftrightarrow> pod_plain s \<and> pod_plain t"
  "pod_plain (c # s) \<longleftrightarrow> c \<noteq> quote \<and> c \<noteq> CHR 0x5C \<and> c \<noteq> CHR ''$'' \<and> (32 :: nat) \<le> of_char c \<and> pod_plain s"
  by (auto simp: pod_plain_def)

lemma cluster_host_plain:
  "pod_plain (wc_serviceName cfg) \<Longrightarrow> pod_plain (wc_namespace cfg) \<Longrightarrow> pod_plain (cluster_host cfg port)"
  by (simp add: cluster_host_def int_str_plain quote_def)

text \<open>What the handler has to find in a pod.\<close>

definition wants_sidecar :: "pod_object \<Rightarrow> pod_metadata \<Rightarrow> (string \<Rightarrow> string option) \<Rightarrow> bool" where
  "wants_sidecar pod md annotations \<longleftrightarrow> po_metadata pod = Some md \<and> pm_annotations md = Some annotations \<and>
     annotations ''sentinel-zt.io/inject'' = Some ''true''"

definition service_name :: "pod_metadata \<Rightarrow> (string \<Rightarrow> string option) \<Rightarrow> string" where
  "service_name md annotations = known (pod_name md) (annotations ''sentinel-zt.io/service-name'')"

text \<open>An annotation that spells a port is this port.\<close>

lemma app_port_number:
  assumes "0 \<le> n" "n < 2 ^ 31"
  shows "app_port (Some (int_str n)) = n"
proof -
  have "int_str n = nat_str (nat n)" using assms(1) by (simp add: int_str_def)
  moreover have "nat_str (nat n) \<noteq> []" by (metis plain_word_int_str(2) calculation)
  ultimately show ?thesis
    using parseInt_digits [of "nat_str (nat n)"] assms by (simp add: app_port_def)
qed

text \<open>The patch of a pod as its tree, and what applying it does.\<close>

definition added :: "'a \<Rightarrow> 'a list option \<Rightarrow> 'a list option" where
  "added x xs = Some ((case xs of None \<Rightarrow> [] | Some ys \<Rightarrow> ys) @ [x])"

lemma json_ok_sidecar: "json_ok (sidecar_container env) \<longleftrightarrow> list_all json_ok env"
  by (simp add: sidecar_container_def port_entry_def json_literal_def is_digit_def HasPrefix_def)

lemma json_ok_patch:
  assumes "json_ok ic" "json_ok sc"
  shows "json_ok (patch_tree inits vols ic sc)"
  using assms by (simp add: patch_tree_def add_op_def cert_volume_def)

lemma apply_patch_tree:
  assumes "ps_containers spec = Some cs"
  shows "\<exists>es. patch_tree (present (ps_initContainers spec)) (present (ps_volumes spec)) ic sc = JArray es \<and>
    apply_ops es spec = Some (spec\<lparr>ps_initContainers := added ic (ps_initContainers spec),
      ps_containers := added sc (ps_containers spec), ps_volumes := added cert_volume (ps_volumes spec)\<rparr>)"
  using assms
  by (cases "ps_initContainers spec"; cases "ps_volumes spec")
    (auto simp: patch_tree_def add_op_def apply_add_def added_def present_def split: list.splits)

lemma admitted_patched:
  assumes "ar_object request = Inr (Some pod)" "sidecar_patch cfg pod = Inr (Some text)"
  shows "admitted cfg request spec = (case json_read text of Some (JArray es) \<Rightarrow> apply_ops es spec | _ \<Rightarrow> None)"
  using assms by (simp add: admitted_def mutate_def Let_def read_patch_def b64_decode_basic)

lemma sidecar_patch_text:
  assumes "wants_sidecar pod md annotations" "po_spec pod = Some spec"
  shows "sidecar_patch cfg pod = Inr (Some (patch_text (present (ps_initContainers spec)) (present (ps_volumes spec))
    (init_container_text (annotations ''sentinel-zt.io/target-port''))
    (sidecar_container_text (service_name md annotations) (wc_trustDomain cfg)
      (''http://'' @ cluster_host cfg (wc_port cfg)) (cluster_host cfg (wc_grpcPort cfg))
      (''http://localhost:'' @ int_str (app_port (annotations ''sentinel-zt.io/target-port''))))))"
  using assms by (simp add: wants_sidecar_def sidecar_patch_def Let_def service_name_def known_def)

text \<open>The container's environment is the one of \<open>Pod\<close>.\<close>

lemma env_pairs_sidecar:
  assumes "\<forall>s \<in> {serviceName, trustDomain, controlPlaneUrl, targetGrpc, targetUrl}. CHR ''$'' \<notin> set s"
  shows "env_pairs field (sidecar_env serviceName trustDomain controlPlaneUrl targetGrpc targetUrl) =
    Some [(''SERVICE_NAME'', serviceName), (''SPIFFE_TRUST_DOMAIN'', trustDomain),
      (''CONTROL_PLANE_URL'', controlPlaneUrl @ ''/api/v1/identity/issue''), (''TARGET_GRPC'', targetGrpc), (''TARGET_URL'', targetUrl),
      (''PROXY_MODE'', ''redirect''), (''POD_NAME'', field ''metadata.name''), (''POD_UID'', field ''metadata.uid''),
      (''KUBERNETES_NAMESPACE'', field ''metadata.namespace''), (''SERVICE_ACCOUNT'', field ''spec.serviceAccountName''),
      (''CA_CERT_PATH'', ''/etc/certs/root_ca.crt''), (''POD_IP'', field ''status.podIP'')]"
  using assms by (simp add: sidecar_env_def env_entry_def field_entry_def)

definition pod_values :: "webhook_config \<Rightarrow> string \<Rightarrow> (string \<Rightarrow> string) \<Rightarrow> webhook_values" where
  "pod_values cfg serviceName field = \<lparr>wv_serviceName = serviceName, wv_trustDomain = wc_trustDomain cfg,
     wv_controlPlaneUrl = ''http://'' @ cluster_host cfg (wc_port cfg), wv_targetGrpc = cluster_host cfg (wc_grpcPort cfg),
     wv_podName = field ''metadata.name'', wv_podUID = field ''metadata.uid'', wv_namespace = field ''metadata.namespace'',
     wv_serviceAccount = field ''spec.serviceAccountName'', wv_podIP = field ''status.podIP''\<rparr>"

lemma sidecar_environment:
  assumes "pod_plain serviceName" "pod_plain (wc_trustDomain cfg)" "pod_plain (wc_serviceName cfg)" "pod_plain (wc_namespace cfg)"
  shows "container_env field (sidecar_container (sidecar_env serviceName (wc_trustDomain cfg)
      (''http://'' @ cluster_host cfg (wc_port cfg)) (cluster_host cfg (wc_grpcPort cfg)) (''http://localhost:'' @ int_str port))) =
    Some (injected_env (pod_values cfg serviceName field) port)"
proof -
  have plain: "CHR ''$'' \<notin> set (cluster_host cfg n)" "CHR ''$'' \<notin> set (int_str n)" for n
    using cluster_host_plain [OF assms(3,4)] int_str_plain by (simp_all add: pod_plain_def)
  have "jget (sidecar_container es) ''env'' = Some (JArray es)" for es
    by (simp add: sidecar_container_def)
  then show ?thesis
    using assms(1,2) plain
    by (simp add: container_env_def env_pairs_sidecar pod_plain_def)
      (rule ext, simp add: injected_env_def pod_values_def)
qed

lemma flag_int_ports: "flag_int ''15006'' = Some 15006" "flag_int ''15001'' = Some 15001"
  by code_simp+

lemma init_arguments:
  assumes "pod_plain port"
  shows "\<exists>as. container_args (init_container port) = Some as \<and> parse_flags as default_flags = Some (injected_flags port)"
  using assms
  by (simp add: container_args_def init_container_def pod_plain_def set_flag_def flag_int_ports HasPrefix_def injected_flags_def)

text \<open>A quote too many puts two quoted strings next to each other.\<close>

lemma quote_spoils_value:
  assumes "json_plain w"
  shows "\<not> well_separated (json_lex (env_text ''SERVICE_NAME'' (w @ [quote]) @ r))"
proof -
  have bad: "\<not> well_separated (Quoted w # json_lex (quote # t))" for t
    by (cases "read_string t") (auto simp: json_lex.simps(2) json_space_def json_punct_def quote_def)
  have "json_lex (quoted (w @ [quote]) @ t) = Quoted w # json_lex (quote # t)" for t
    using lex_quoted [OF assms, of "quote # t"] by (simp add: quoted_def)
  with bad show ?thesis by (simp add: env_text_def lex_quoted quote_def)
qed

lemma quote_spoils_sidecar:
  assumes "json_plain w"
  shows "\<not> well_separated (json_lex (sidecar_container_text (w @ [quote]) td cp grpc url @ r))"
  using quote_spoils_value [OF assms] by (simp add: sidecar_container_text_def lex_quoted quote_def)

lemma quote_spoils_patch:
  assumes "json_plain w" "json_plain (or_null ann)"
  shows "\<not> well_separated (json_lex (patch_text inits vols (init_container_text ann) (sidecar_container_text (w @ [quote]) td cp grpc url)))"
proof -
  have "\<not> well_separated (json_lex (add_text ''/spec/containers/-'' (sidecar_container_text (w @ [quote]) td cp grpc url) @ r))" for r
    using quote_spoils_sidecar [OF assms(1)] by (simp add: add_text_def lex_quoted quote_def)
  moreover have "json_plain (if inits then ''/spec/initContainers/-'' else ''/spec/initContainers'')"
    by (simp add: quote_def)
  note lex_add(1) [OF _ this]
  moreover have "json_lex ((if inits then val else ''['' @ val @ '']'') @ r) = json_tokens (if inits then v else JArray [v]) @ json_lex r"
    if "\<And>r. json_lex (val @ r) = json_tokens v @ json_lex r" for val v r
    using that by simp
  note this [OF lex_init_container [OF assms(2)]]
  ultimately show ?thesis
    by (simp add: patch_text_def not_separated_append del: json_tokens.simps)
qed

section \<open>Properties\<close>

text \<open>
  The webhook injects what the rest of the development is about. For an annotated pod whose texts need no escape, the API
  server can read the patch of the answer, and applying it appends one init container, one container and one
  volume to those of the pod and changes nothing else; the kubelet gives the container exactly the sidecar's environment
  of \<open>Pod\<close>, with the port of the annotation or 8080, and the init container parses exactly its flags.
\<close>

theorem webhook_injects_the_pod:
  assumes "ar_object request = Inr (Some pod)" "wants_sidecar pod md annotations" "po_spec pod = Some spec"
    and "ps_containers spec = Some cs"
    and "pod_plain (service_name md annotations)" "pod_plain (or_null (annotations ''sentinel-zt.io/target-port''))"
    and "pod_plain (wc_trustDomain cfg)" "pod_plain (wc_serviceName cfg)" "pod_plain (wc_namespace cfg)"
  shows "\<exists>ic sc as. admitted cfg request spec = Some (spec\<lparr>ps_initContainers := added ic (ps_initContainers spec),
      ps_containers := added sc (ps_containers spec), ps_volumes := added cert_volume (ps_volumes spec)\<rparr>) \<and>
    container_env field sc = Some (injected_env (pod_values cfg (service_name md annotations) field)
      (app_port (annotations ''sentinel-zt.io/target-port''))) \<and>
    container_args ic = Some as \<and>
    parse_flags as default_flags = Some (injected_flags (or_null (annotations ''sentinel-zt.io/target-port'')))"
proof -
  let ?ann = "annotations ''sentinel-zt.io/target-port''" and ?name = "service_name md annotations"
  let ?url = "''http://localhost:'' @ int_str (app_port ?ann)"
  let ?env = "sidecar_env ?name (wc_trustDomain cfg) (''http://'' @ cluster_host cfg (wc_port cfg)) (cluster_host cfg (wc_grpcPort cfg)) ?url"
  let ?ic = "init_container (or_null ?ann)" and ?sc = "sidecar_container ?env"
  have host: "json_plain (cluster_host cfg n)" "json_plain (int_str n)" for n
    using cluster_host_plain [OF assms(8,9)] int_str_plain by (simp_all add: pod_plain_def)
  have plain: "json_plain ?name" "json_plain (or_null ?ann)" "json_plain (wc_trustDomain cfg)"
    "json_plain (''http://'' @ cluster_host cfg (wc_port cfg))" "json_plain (cluster_host cfg (wc_grpcPort cfg))" "json_plain ?url"
    using assms(5-7) host by (simp_all add: pod_plain_def quote_def)
  have "json_ok ?ic" "json_ok ?sc"
    by (simp_all add: json_ok_sidecar sidecar_env_def env_entry_def field_entry_def) (simp add: init_container_def)
  with lex_patch [OF lex_init_container [OF plain(2)] lex_sidecar [OF plain(1,3-6)]]
  have "json_read (patch_text (present (ps_initContainers spec)) (present (ps_volumes spec)) (init_container_text ?ann)
      (sidecar_container_text ?name (wc_trustDomain cfg) (''http://'' @ cluster_host cfg (wc_port cfg))
        (cluster_host cfg (wc_grpcPort cfg)) ?url)) =
    Some (patch_tree (present (ps_initContainers spec)) (present (ps_volumes spec)) ?ic ?sc)"
    by (intro json_read_tokens json_ok_patch)
  moreover from apply_patch_tree [OF assms(4), of ?ic ?sc] obtain es where
    "patch_tree (present (ps_initContainers spec)) (present (ps_volumes spec)) ?ic ?sc = JArray es"
    "apply_ops es spec = Some (spec\<lparr>ps_initContainers := added ?ic (ps_initContainers spec),
      ps_containers := added ?sc (ps_containers spec), ps_volumes := added cert_volume (ps_volumes spec)\<rparr>)" by blast
  ultimately have "admitted cfg request spec = Some (spec\<lparr>ps_initContainers := added ?ic (ps_initContainers spec),
      ps_containers := added ?sc (ps_containers spec), ps_volumes := added cert_volume (ps_volumes spec)\<rparr>)"
    using admitted_patched [OF assms(1) sidecar_patch_text [OF assms(2,3)], of cfg spec] by simp
  with sidecar_environment [OF assms(5,7-9)] init_arguments [OF assms(6)] show ?thesis by blast
qed


text \<open>
  Nothing is escaped in the patch. A service name that ends in a quote makes a text that is no JSON: the webhook allows the
  pod, and the API server cannot apply the answer.
\<close>

theorem quote_breaks_patch:
  assumes "ar_object request = Inr (Some pod)" "wants_sidecar pod md annotations" "po_spec pod = Some spec"
    and "service_name md annotations = w @ [quote]" "json_plain w" "json_plain (or_null (annotations ''sentinel-zt.io/target-port''))"
  shows "admitted cfg request spec = None"
  using admitted_patched [OF assms(1) sidecar_patch_text [OF assms(2,3)]] json_read_separated [OF quote_spoils_patch [OF assms(5,6)]]
  by (simp add: assms(4))

section \<open>Concrete pods\<close>

definition example_webhook :: webhook_config where
  "example_webhook = \<lparr>wc_trustDomain = ''td'', wc_serviceName = ''cp'', wc_namespace = ''sentinel'', wc_port = 8081, wc_grpcPort = 9090\<rparr>"

definition example_metadata :: "string \<Rightarrow> pod_metadata" where
  "example_metadata name = \<lparr>pm_name = Some name, pm_generateName = None,
     pm_annotations = Some (map_of [(''sentinel-zt.io/inject'', ''true'')])\<rparr>"

definition example_spec :: pod_spec where
  "example_spec = \<lparr>ps_containers = Some [JObject [(''name'', JText ''cart'')]], ps_initContainers = None, ps_volumes = Some []\<rparr>"

definition example_admission :: "string \<Rightarrow> admission_request" where
  "example_admission name = \<lparr>ar_uid = ''a1'', ar_object = Inr (Some \<lparr>po_metadata = Some (example_metadata name),
     po_spec = Some example_spec\<rparr>)\<rparr>"

lemma example_wants_sidecar:
  "wants_sidecar \<lparr>po_metadata = Some (example_metadata name), po_spec = Some example_spec\<rparr> (example_metadata name)
     (map_of [(''sentinel-zt.io/inject'', ''true'')])"
  "service_name (example_metadata name) (map_of [(''sentinel-zt.io/inject'', ''true'')]) = name"
  by (simp_all add: wants_sidecar_def example_metadata_def service_name_def pod_name_def known_def)

theorem webhook_injects_the_pod_witness:
  "\<exists>ic sc as. admitted example_webhook (example_admission ''cart-0'') example_spec =
      Some (example_spec\<lparr>ps_initContainers := Some [ic], ps_containers := Some [JObject [(''name'', JText ''cart'')], sc],
        ps_volumes := Some [cert_volume]\<rparr>) \<and>
    container_env (\<lambda>path. path) sc = Some (injected_env (pod_values example_webhook ''cart-0'' (\<lambda>path. path)) 8080) \<and>
    container_args ic = Some as \<and> parse_flags as default_flags = Some (injected_flags ''null'')"
  using webhook_injects_the_pod [of "example_admission ''cart-0''" "\<lparr>po_metadata = Some (example_metadata ''cart-0''), po_spec = Some example_spec\<rparr>"
      "example_metadata ''cart-0''" "map_of [(''sentinel-zt.io/inject'', ''true'')]" example_spec
      "[JObject [(''name'', JText ''cart'')]]" example_webhook "\<lambda>path. path"] example_wants_sidecar [of "''cart-0''"]
  by (simp add: example_admission_def example_spec_def example_webhook_def app_port_def or_null_def added_def quote_def)

theorem quote_breaks_patch_witness:
  "admitted example_webhook (example_admission (''cart'' @ [quote])) example_spec = None"
  using quote_breaks_patch [where w = "''cart''" and spec = example_spec and request = "example_admission (''cart'' @ [quote])",
      OF _ example_wants_sidecar(1) [of "''cart'' @ [quote]"] _ example_wants_sidecar(2)]
  by (simp add: example_admission_def or_null_def quote_def)

end
