(* ===== verification/AnnotatedPod.thy ===== *)
theory AnnotatedPod
  imports Webhook
begin

text \<open>
  All three programs together: from the annotation on a pod, through the webhook's answer, the API server and the kubelet, to the
  packet rules and the listeners that the two containers of the mesh set up in it.
\<close>

section \<open>Containers as they start\<close>

text \<open>The flags of an init container with the arguments of this tree; \<open>None\<close> where it does not start.\<close>

definition started_flags :: "jnode \<Rightarrow> init_flags option" where
  "started_flags container = (case container_args container of None \<Rightarrow> None | Some as \<Rightarrow> parse_flags as default_flags)"

section \<open>Properties\<close>


section \<open>A concrete pod\<close>


end
