(* ===== verification/ProxyLog.thy ===== *)
theory ProxyLog
  imports ProxyRun Logger Mesh
begin

text \<open>
  The log lines of \<open>internal/proxy/proxy.go\<close>, beside the traces of network actions of \<open>Proxy\<close> and \<open>ProxyRun\<close>: what each
  handler logs of its connection, with levels, messages and attributes, and that the log tells the truth about the
  connection. The texts of errors and addresses are parameters.
\<close>

section \<open>Lines\<close>

record log_line =
  ll_level :: int
  ll_msg :: string
  ll_attrs :: "attr list"

definition LevelDebug :: int where "LevelDebug = - 4"

abbreviation log_debug :: "string \<Rightarrow> attr list \<Rightarrow> log_line" where
  "log_debug msg as \<equiv> \<lparr>ll_level = LevelDebug, ll_msg = msg, ll_attrs = as\<rparr>"
abbreviation log_info :: "string \<Rightarrow> attr list \<Rightarrow> log_line" where
  "log_info msg as \<equiv> \<lparr>ll_level = LevelInfo, ll_msg = msg, ll_attrs = as\<rparr>"
abbreviation log_warn :: "string \<Rightarrow> attr list \<Rightarrow> log_line" where
  "log_warn msg as \<equiv> \<lparr>ll_level = LevelWarn, ll_msg = msg, ll_attrs = as\<rparr>"
abbreviation log_error :: "string \<Rightarrow> attr list \<Rightarrow> log_line" where
  "log_error msg as \<equiv> \<lparr>ll_level = LevelError, ll_msg = msg, ll_attrs = as\<rparr>"

text \<open>
  What the lines quote: the texts of the errors of the handshake, of dialling an address, of reading the original
  destination and of a relay, the remote address and its IP, and the errors of the two copying goroutines, with their direction and
  byte count, before and after the line \<open>proxyCopy\<close> itself writes.
\<close>

record log_texts =
  tx_handshake :: string
  tx_dial :: "string \<Rightarrow> string"
  tx_dest :: "dest_error \<Rightarrow> string"
  tx_relay :: "relay_error \<Rightarrow> string"
  tx_remote :: string
  tx_ip :: string
  tx_early :: "(bool \<times> int \<times> string) list"
  tx_late :: "(bool \<times> int \<times> string) list"

section \<open>Relays and copies\<close>

fun inbound_lines :: "string \<Rightarrow> string \<Rightarrow> relay_event list \<Rightarrow> log_line list" where
  "inbound_lines ident target [] = []"
| "inbound_lines ident target (LogInbound i m path # es) = log_info ''inbound HTTP request''
     [(''client_identity'', AStr i), (''method'', AStr m), (''path'', AStr path), (''target'', AStr target)] # inbound_lines ident target es"
| "inbound_lines ident target (LogStatus code # es) = log_info ''inbound HTTP response''
     [(''client_identity'', AStr ident), (''status'', AInt code), (''target'', AStr target)] # inbound_lines ident target es"
| "inbound_lines ident target (LogEOF # es) =
     log_debug ''inbound HTTP request (EOF)'' [(''client_identity'', AStr ident)] # inbound_lines ident target es"
| "inbound_lines ident target (_ # es) = inbound_lines ident target es"

fun outbound_lines :: "string \<Rightarrow> string \<Rightarrow> relay_event list \<Rightarrow> log_line list" where
  "outbound_lines remote dst [] = []"
| "outbound_lines remote dst (LogOutbound m path h # es) = log_info ''outbound HTTP request''
     [(''method'', AStr m), (''path'', AStr path), (''host'', AStr h), (''destination'', AStr dst)] # outbound_lines remote dst es"
| "outbound_lines remote dst (LogStatus code # es) = log_info ''outbound HTTP response''
     [(''status'', AInt code), (''destination'', AStr dst)] # outbound_lines remote dst es"
| "outbound_lines remote dst (LogEOF # es) =
     log_debug ''inbound HTTP request (EOF)'' [(''remote_addr'', AStr remote)] # outbound_lines remote dst es"
| "outbound_lines remote dst (_ # es) = outbound_lines remote dst es"

text \<open>The arrow in the direction is a three byte character.\<close>

definition copy_direction :: "bool \<Rightarrow> string" where
  "copy_direction forth =
     (let arrow = [CHR 0xE2, CHR 0x86, CHR 0x92] in if forth then ''src'' @ arrow @ ''dst'' else ''dst'' @ arrow @ ''src'')"

definition copy_warning :: "string \<Rightarrow> bool \<times> int \<times> string \<Rightarrow> log_line" where
  "copy_warning target x = (case x of (forth, n, err) \<Rightarrow> log_warn ''copy error''
     [(''direction'', AStr (copy_direction forth)), (''target'', AStr target), (''bytes'', AInt n), (''error'', AStr err)])"

definition proxyCopy_log :: "log_texts \<Rightarrow> string \<Rightarrow> log_line list" where
  "proxyCopy_log tx target = List.map (copy_warning target) (tx_early tx) @
     [log_info ''accepted outbound redirected connection'' [(''name'', AStr target), (''remote_addr'', AStr (tx_remote tx))]] @
     List.map (copy_warning target) (tx_late tx)"

section \<open>Handlers\<close>

definition forwardLocalApp_log :: "net_world \<Rightarrow> Proxy \<Rightarrow> log_texts \<Rightarrow> net_conn \<Rightarrow> log_line list" where
  "forwardLocalApp_log w p tx clientConn =
     (case url_Host w (TargetURL (p_cfg p)) of
        Inl err \<Rightarrow> [log_error ''failed to parse target URL'' [(''error'', AStr err)]]
      | Inr host \<Rightarrow>
          let no_app = log_error ''failed to connect to app'' [(''error'', AStr (tx_dial tx host)), (''target'', AStr host)]
          in case clientConn of
             TLSConn c peer \<Rightarrow>
               (case tls_Handshake w p c peer of
                  None \<Rightarrow> [log_error ''TLS handshake failed while forwarding to local app''
                    [(''error'', AStr (tx_handshake tx)), (''target'', AStr host)]]
                | Some peers \<Rightarrow>
                    if \<not> app_dial w host then [no_app]
                    else let r = proxyInboundHTTPRequests (relay_outcomes w) peers (client_stream w)
                      in log_info ''forwarding to local app (TLS terminated)'' [(''target'', AStr host)] #
                        inbound_lines (peer_identity peers) host (trace r) @
                        (case rerr r of None \<Rightarrow> []
                         | Some err \<Rightarrow> [log_error ''inbound HTTP proxy failed'' [(''target'', AStr host), (''error'', AStr (tx_relay tx err))]]))
           | _ \<Rightarrow>
               if \<not> app_dial w host then [no_app]
               else log_info ''forwarding to local app'' [(''target'', AStr host)] # proxyCopy_log tx host)"

definition handleRedirectedConnection_log ::
  "net_world \<Rightarrow> Proxy \<Rightarrow> log_texts \<Rightarrow> string \<Rightarrow> net_conn \<Rightarrow> log_line list" where
  "handleRedirectedConnection_log w p tx podIP conn =
     log_info ''forwarded inbound redirected connection'' [(''remote_addr'', AStr (tx_remote tx)), (''pod_ip'', AStr podIP)] #
     forwardLocalApp_log w p tx conn"

text \<open>A missing certificate is dereferenced after the first line: the process ends there.\<close>

definition forwardOutbound_log :: "net_world \<Rightarrow> Proxy \<Rightarrow> log_texts \<Rightarrow> net_conn \<Rightarrow> tcp_addr \<Rightarrow> log_line list" where
  "forwardOutbound_log w p tx clientConn dst =
     (let d = addr_str dst in
      case clientConn of
        TLSConn c peer \<Rightarrow>
          (case tls_Handshake w p c peer of
             None \<Rightarrow> [log_error ''TLS handshake failed'' [(''destination'', AStr d), (''error'', AStr (tx_handshake tx))]]
           | Some [] \<Rightarrow> [log_error ''no client certificate provided'' [(''dst'', AStr d)]]
           | Some (clientCert # _) \<Rightarrow>
               log_info ''outbound request'' [(''client_identity'', AStr (ExtractIdentity clientCert)), (''destination'', AStr d)] #
               (case GetCurrentCertificate (p_certManager p) of
                  None \<Rightarrow> []
                | Some cert \<Rightarrow>
                    if \<not> tls_Dial w d (outbound_literal p cert)
                    then [log_error ''failed to establish outbound mTLS'' [(''destination'', AStr d), (''error'', AStr (tx_dial tx d))]]
                    else proxyCopy_log tx d))
      | _ \<Rightarrow> [log_error ''inbound connection is not TLS'' [(''destination'', AStr d)]])"

definition forwardOutboundPlain_log :: "net_world \<Rightarrow> Proxy \<Rightarrow> log_texts \<Rightarrow> tcp_addr \<Rightarrow> log_line list" where
  "forwardOutboundPlain_log w p tx dst =
     (let d = addr_str dst in
      log_info ''forwarding outbound (plaintext to mTLS)'' [(''destination'', AStr d)] #
      (case GetCurrentCertificate (p_certManager p) of
         None \<Rightarrow> []
       | Some cert \<Rightarrow>
           if \<not> tls_Dial w d (outbound_literal p cert)
           then [log_error ''failed to establish outbound mTLS'' [(''destination'', AStr d), (''error'', AStr (tx_dial tx d))]]
           else let r = proxyOutboundHTTPRequests (relay_outcomes w) (client_stream w)
             in outbound_lines (tx_remote tx) d (trace r) @
               (case rerr r of None \<Rightarrow> []
                | Some err \<Rightarrow> [log_error ''outbound HTTP proxy failed'' [(''destination'', AStr d), (''error'', AStr (tx_relay tx err))]])))"

definition handleOutboundConnection_log ::
  "net_world \<Rightarrow> Proxy \<Rightarrow> log_texts \<Rightarrow> string \<Rightarrow> net_conn \<Rightarrow> log_line list" where
  "handleOutboundConnection_log w p tx podIP clientConn =
     (case clientConn of
        TCPConn file sockopt \<Rightarrow>
          (case GetOriginalDest file sockopt of
             Inl err \<Rightarrow> [log_warn ''failed to get original destination for outbound connection'' [(''error'', AStr (tx_dest tx err))]]
           | Inr originalDst \<Rightarrow>
               log_info ''resolved original destination for outbound connection'' [(''original_dst'', AStr (addr_str originalDst))] #
               (if is_pod podIP originalDst then forwardLocalApp_log w p tx clientConn
                else forwardOutboundPlain_log w p tx originalDst))
      | _ \<Rightarrow> [log_warn ''outbound connection is not TCP'' []])"

definition forwardLocalAppTProxy_log :: "net_world \<Rightarrow> Proxy \<Rightarrow> log_texts \<Rightarrow> string \<Rightarrow> log_line list" where
  "forwardLocalAppTProxy_log w p tx clientIdentity =
     (case url_Host w (TargetURL (p_cfg p)) of
        Inl err \<Rightarrow> [log_error ''failed to parse target URL'' [(''error'', AStr err)]]
      | Inr host \<Rightarrow>
          if \<not> app_dial w host
          then [log_error ''failed to connect to app'' [(''error'', AStr (tx_dial tx host)), (''target'', AStr host)]]
          else log_info ''forwarding to local app (mTLS)'' [(''target'', AStr host), (''client_identity'', AStr clientIdentity)] #
            proxyCopy_log tx host)"

definition forwardOutboundTProxy_log :: "net_world \<Rightarrow> Proxy \<Rightarrow> log_texts \<Rightarrow> tcp_addr \<Rightarrow> string \<Rightarrow> log_line list" where
  "forwardOutboundTProxy_log w p tx dst clientIdentity =
     (let d = addr_str dst in
      log_info ''forwarding outbound (mTLS)'' [(''client_identity'', AStr clientIdentity), (''destination'', AStr d)] #
      (case GetCurrentCertificate (p_certManager p) of
         None \<Rightarrow> []
       | Some cert \<Rightarrow>
           if \<not> tls_Dial w d (outbound_literal p cert)
           then [log_error ''failed to establish outbound mTLS'' [(''destination'', AStr d), (''error'', AStr (tx_dial tx d))]]
           else proxyCopy_log tx d))"

definition handleTProxyConnection_log ::
  "net_world \<Rightarrow> Proxy \<Rightarrow> log_texts \<Rightarrow> string \<Rightarrow> net_conn \<Rightarrow> log_line list" where
  "handleTProxyConnection_log w p tx podIP clientConn =
     (case clientConn of
        TLSConn c peer \<Rightarrow>
          (case tls_Handshake w p c peer of
             None \<Rightarrow> [log_error ''TLS handshake failed - rejecting connection'' [(''error'', AStr (tx_handshake tx))]]
           | Some [] \<Rightarrow> [log_error ''no client certificate provided'' []]
           | Some (clientCert # _) \<Rightarrow>
               (case getOriginalDst clientConn of
                  Inl err \<Rightarrow> [log_warn ''failed to get original destination'' [(''error'', AStr (tx_dest tx err))]]
                | Inr originalDst \<Rightarrow>
                    let clientIdentity = ExtractIdentity clientCert
                    in log_info ''TPROXY connection'' [(''client_identity'', AStr clientIdentity), (''client_ip'', AStr (tx_ip tx)),
                         (''original_dst'', AStr (addr_str originalDst)), (''pod_ip'', AStr podIP)] #
                       (if is_pod podIP originalDst then forwardLocalAppTProxy_log w p tx clientIdentity
                        else forwardOutboundTProxy_log w p tx originalDst clientIdentity)))
      | _ \<Rightarrow> [log_error ''inbound connection is not TLS - rejected'' [(''error'', AStr ''connection is not TLS'')]])"

text \<open>With the line of the accept loop, the log of one connection.\<close>

definition inbound_log ::
  "run_mode \<Rightarrow> Proxy \<Rightarrow> log_texts \<Rightarrow> string \<Rightarrow> net_world \<times> CertManager \<times> tls_peer \<Rightarrow> log_line list" where
  "inbound_log mode p tx podIP x =
     (case x of (w, m, peer) \<Rightarrow>
        let q = p\<lparr>p_certManager := m\<rparr>; conn = TLSConn (GetInboundTLSConfig q) peer; remote = [(''remote_addr'', AStr (tx_remote tx))]
        in if mode = TProxyMode
           then log_debug ''accepted inbound TPROXY connection'' remote # handleTProxyConnection_log w q tx podIP conn
           else log_info ''accepted inbound redirected connection'' remote # handleRedirectedConnection_log w q tx podIP conn)"

definition outbound_log ::
  "Proxy \<Rightarrow> log_texts \<Rightarrow> string \<Rightarrow>
   net_world \<times> CertManager \<times> (string, int) result \<times> (int \<Rightarrow> int \<Rightarrow> (string, bytes) result) \<Rightarrow> log_line list" where
  "outbound_log p tx podIP x =
     (case x of (w, m, file, sockopt) \<Rightarrow>
        log_info ''accepted outbound redirected connection'' [(''remote_addr'', AStr (tx_remote tx))] #
        handleOutboundConnection_log w (p\<lparr>p_certManager := m\<rparr>) tx podIP (TCPConn file sockopt))"

lemmas log_defs =
  forwardLocalApp_log_def handleRedirectedConnection_log_def forwardOutboundPlain_log_def handleOutboundConnection_log_def
  forwardLocalAppTProxy_log_def forwardOutboundTProxy_log_def handleTProxyConnection_log_def inbound_log_def outbound_log_def

section \<open>Start\<close>

text \<open>What \<open>runRedirectMode\<close> and \<open>runTProxyMode\<close> log before the first connection.\<close>

definition run_log :: "run_mode \<Rightarrow> (int \<Rightarrow> string option) \<Rightarrow> Proxy \<Rightarrow> environ \<Rightarrow> log_line list" where
  "run_log mode listen p getenv =
     (let podIP = getenv ''POD_IP''; inp = InboundPort (p_cfg p); outp = OutboundPort (p_cfg p) in
      (if podIP = [] then [log_warn ''POD_IP not set, cannot determine inbound/outbound'' []] else []) @
      (if listen inp = None \<and> listen outp = None
       then [log_info (if mode = TProxyMode then ''starting proxy in TPROXY mode'' else ''starting proxy in redirect mode'')
         [(''inbound_port'', AInt inp), (''outbound_port'', AInt outp), (''pod_ip'', AStr podIP)]]
       else []))"

section \<open>Lemmas\<close>

text \<open>A line at level warn or above, and what it stands for: an action that failed, or nothing that could be tried.\<close>

definition reports :: "log_line \<Rightarrow> bool" where
  "reports l \<longleftrightarrow> LevelWarn \<le> ll_level l"

fun failed_action :: "net_action \<Rightarrow> bool" where
  "failed_action (Handshake ok) = (\<not> ok)"
| "failed_action (DialTCP a ok) = (\<not> ok)"
| "failed_action (DialTLS a c ok) = (\<not> ok)"
| "failed_action (RelayInbound r) = (rerr r \<noteq> None)"
| "failed_action (RelayOutbound r) = (rerr r \<noteq> None)"
| "failed_action _ = False"

definition failure_count :: "net_action list \<Rightarrow> nat" where
  "failure_count acts = (if list_ex failed_action acts \<or> \<not> list_ex reaches_out acts then 1 else 0)"

fun copies :: "net_action \<Rightarrow> bool" where
  "copies (ProxyCopy a b n) = True"
| "copies _ = False"

definition copy_errors :: "log_texts \<Rightarrow> net_action list \<Rightarrow> nat" where
  "copy_errors tx acts = (if list_ex copies acts then length (tx_early tx) + length (tx_late tx) else 0)"

lemma reports_simps [simp]:
  "reports (log_error m as)" "reports (log_warn m as)" "\<not> reports (log_info m as)" "\<not> reports (log_debug m as)"
  by (simp_all add: reports_def LevelError_def LevelWarn_def LevelInfo_def LevelDebug_def)

lemma relay_lines_quiet [simp]:
  "filter reports (inbound_lines i t es) = []" "filter reports (outbound_lines i t es) = []"
  by (induction i t es rule: inbound_lines.induct) simp_all

lemma copy_log_reports [simp]: "length (filter reports (proxyCopy_log tx t)) = length (tx_early tx) + length (tx_late tx)"
  by (simp add: proxyCopy_log_def copy_warning_def filter_map comp_def split_beta)

lemma forwardLocalApp_reports:
  "length (filter reports (forwardLocalApp_log w p tx conn)) =
     failure_count (forwardLocalApp w p conn @ cs) + copy_errors tx (forwardLocalApp w p conn @ cs)"
  if "cs = [Close Client]"
  unfolding that
  by (cases conn; cases "url_Host w (TargetURL (p_cfg p))")
    (auto simp: forwardLocalApp_log_def forwardLocalApp_def failure_count_def copy_errors_def Let_def split: option.split)

lemma forwardOutboundPlain_reports:
  assumes "GetCurrentCertificate (p_certManager p) = Some cert"
  shows "length (filter reports (forwardOutboundPlain_log w p tx dst)) =
      failure_count (forwardOutboundPlain w p dst @ [Close Client]) + copy_errors tx (forwardOutboundPlain w p dst @ [Close Client])"
  using assms
  by (auto simp: forwardOutboundPlain_log_def forwardOutboundPlain_def failure_count_def copy_errors_def Let_def split: option.split)

lemma handler_reports:
  "length (filter reports (handleRedirectedConnection_log w p tx podIP conn)) =
     failure_count (handleRedirectedConnection w p conn) + copy_errors tx (handleRedirectedConnection w p conn)"
  "GetCurrentCertificate (p_certManager p) = Some cert \<Longrightarrow>
   length (filter reports (handleOutboundConnection_log w p tx podIP conn)) =
     failure_count (handleOutboundConnection w p podIP conn) + copy_errors tx (handleOutboundConnection w p podIP conn)"
  "length (filter reports (handleTProxyConnection_log w p tx podIP conn)) =
     failure_count (handleTProxyConnection w p podIP conn) + copy_errors tx (handleTProxyConnection w p podIP conn)"
proof -
  show "length (filter reports (handleRedirectedConnection_log w p tx podIP conn)) =
      failure_count (handleRedirectedConnection w p conn) + copy_errors tx (handleRedirectedConnection w p conn)"
    by (simp add: handleRedirectedConnection_log_def handleRedirectedConnection_def forwardLocalApp_reports [OF refl])
  show "length (filter reports (handleOutboundConnection_log w p tx podIP conn)) =
      failure_count (handleOutboundConnection w p podIP conn) + copy_errors tx (handleOutboundConnection w p podIP conn)"
    if "GetCurrentCertificate (p_certManager p) = Some cert"
  proof (cases conn)
    case (TCPConn f sockopt)
    show ?thesis
    proof (cases "GetOriginalDest f sockopt")
      case (Inl err)
      with TCPConn show ?thesis
        by (simp add: handleOutboundConnection_log_def handleOutboundConnection_def failure_count_def copy_errors_def)
    next
      case (Inr dst)
      with TCPConn show ?thesis
        using forwardLocalApp_reports [OF refl, of w p tx conn] forwardOutboundPlain_reports [OF that, of w tx dst]
        by (simp add: handleOutboundConnection_log_def handleOutboundConnection_def)
    qed
  qed (simp_all add: handleOutboundConnection_log_def handleOutboundConnection_def failure_count_def copy_errors_def)
  show "length (filter reports (handleTProxyConnection_log w p tx podIP conn)) =
      failure_count (handleTProxyConnection w p podIP conn) + copy_errors tx (handleTProxyConnection w p podIP conn)"
    by (cases conn)
      (auto simp: handleTProxyConnection_log_def handleTProxyConnection_def failure_count_def copy_errors_def
        split: option.split list.split)
qed

text \<open>The lines of the access log.\<close>

definition is_access :: "log_line \<Rightarrow> bool" where
  "is_access l \<longleftrightarrow> ll_msg l = ''inbound HTTP request'' \<or> ll_msg l = ''outbound HTTP request''"

definition inbound_access :: "string \<Rightarrow> string \<Rightarrow> http_request \<Rightarrow> log_line" where
  "inbound_access ident target req = log_info ''inbound HTTP request''
     [(''client_identity'', AStr ident), (''method'', AStr (Method req)), (''path'', AStr (URLPath req)), (''target'', AStr target)]"

definition outbound_access :: "string \<Rightarrow> http_request \<Rightarrow> log_line" where
  "outbound_access dst req = log_info ''outbound HTTP request''
     [(''method'', AStr (Method req)), (''path'', AStr (URLPath req)), (''host'', AStr (Host req)), (''destination'', AStr dst)]"

lemma is_access_simps [simp]:
  "is_access (log_info ''inbound HTTP request'' as)" "is_access (log_info ''outbound HTTP request'' as)"
  "\<not> is_access (log_info ''inbound HTTP response'' as)" "\<not> is_access (log_info ''outbound HTTP response'' as)"
  "\<not> is_access (log_debug ''inbound HTTP request (EOF)'' as)"
  by (simp_all add: is_access_def)

lemma relay_access:
  "filter is_access (inbound_lines (peer_identity peers) t (trace (proxyInboundHTTPRequests io peers reqs))) =
     List.map (inbound_access (peer_identity peers) t) (sent_reqs (trace (proxyInboundHTTPRequests io peers reqs)))"
  "filter is_access (outbound_lines a t (trace (proxyOutboundHTTPRequests io reqs))) =
     List.map (outbound_access t) (sent_reqs (trace (proxyOutboundHTTPRequests io reqs)))"
  by (auto simp: relay_defs inbound_access_def outbound_access_def rewrite_req_def
      split: list.split sum.split prod.split option.split)

lemma copy_access [simp]: "filter is_access (proxyCopy_log tx t) = []"
  by (simp add: proxyCopy_log_def is_access_def copy_warning_def filter_empty_conv split_beta)

lemma forwardLocalApp_access:
  "filter is_access (forwardLocalApp_log w p tx (TLSConn (GetInboundTLSConfig p) peer)) =
     List.map (inbound_access (peer_identity (peer_chain peer)) (case url_Host w (TargetURL (p_cfg p)) of Inr h \<Rightarrow> h | Inl e \<Rightarrow> []))
       (relayed (forwardLocalApp w p (TLSConn (GetInboundTLSConfig p) peer)))"
proof (cases "url_Host w (TargetURL (p_cfg p))")
  case (Inl err)
  then show ?thesis by (simp add: forwardLocalApp_log_def forwardLocalApp_def is_access_def)
next
  case (Inr host)
  show ?thesis
  proof (cases "tls_Handshake w p (GetInboundTLSConfig p) peer")
    case None
    with Inr show ?thesis by (simp add: forwardLocalApp_log_def forwardLocalApp_def is_access_def Let_def)
  next
    case (Some chain)
    with inbound_handshake have "chain = peer_chain peer" by blast
    with Inr Some show ?thesis
      by (auto simp: forwardLocalApp_log_def forwardLocalApp_def Let_def relay_access split: option.split)
        (simp_all add: is_access_def)
  qed
qed

lemma plain_access:
  "filter is_access (forwardLocalApp_log w p tx (TCPConn f sockopt)) = []" "relayed (forwardLocalApp w p (TCPConn f sockopt)) = []"
  "filter is_access (forwardOutboundPlain_log w p tx dst) = List.map (outbound_access (addr_str dst)) (relayed (forwardOutboundPlain w p dst))"
  by (auto simp: forwardLocalApp_log_def forwardLocalApp_def forwardOutboundPlain_log_def forwardOutboundPlain_def Let_def relay_access
      split: sum.split option.split) (simp_all add: is_access_def)

text \<open>Inbound handlers copy nothing.\<close>

lemma no_copies:
  "\<not> list_ex copies (handleRedirectedConnection w p (TLSConn c peer))" "\<not> list_ex copies (handleTProxyConnection w p podIP (TLSConn c peer))"
  by (auto simp: handler_defs split: sum.splits option.splits list.splits)

lemma tls_depends_on_presence:
  assumes "CurrentCert m = None \<longleftrightarrow> CurrentCert m' = None"
  shows "tls_Handshake w (p\<lparr>p_certManager := m\<rparr>) c peer = tls_Handshake w (p\<lparr>p_certManager := m'\<rparr>) c peer"
  using assms by (simp add: tls_Handshake_def GetCurrentCertificate_def)

lemma dial_ignores_certificate:
  "tls_Dial w addr (outbound_literal (p\<lparr>p_certManager := m\<rparr>) cert) = tls_Dial w addr (outbound_literal (p\<lparr>p_certManager := m'\<rparr>) cert')"
  by (simp add: tls_Dial_def client_handshake_def split: option.split)

section \<open>Properties\<close>


text \<open>
  Keys stay out of the log: beside the texts of errors, what is logged of a connection depends on the certificate manager only in
  whether it holds a certificate, not on the certificate, its private key or the pod uid.
\<close>

theorem logs_keep_keys:
  assumes "CurrentCert m = None \<longleftrightarrow> CurrentCert m' = None"
  shows "inbound_log mode p tx podIP (w, m, peer) = inbound_log mode p tx podIP (w, m', peer) \<and>
    outbound_log p tx podIP (w, m, f, sockopt) = outbound_log p tx podIP (w, m', f, sockopt)"
proof -
  have config: "GetInboundTLSConfig (p\<lparr>p_certManager := m\<rparr>) = GetInboundTLSConfig (p\<lparr>p_certManager := m'\<rparr>)"
    by (simp add: GetInboundTLSConfig_def)
  have app: "forwardLocalApp_log w (p\<lparr>p_certManager := m\<rparr>) tx conn = forwardLocalApp_log w (p\<lparr>p_certManager := m'\<rparr>) tx conn" for conn
    unfolding forwardLocalApp_log_def tls_depends_on_presence [OF assms] by simp
  have out: "forwardOutboundPlain_log w (p\<lparr>p_certManager := m\<rparr>) tx dst = forwardOutboundPlain_log w (p\<lparr>p_certManager := m'\<rparr>) tx dst" for dst
    using assms dial_ignores_certificate
    by (auto simp: forwardOutboundPlain_log_def GetCurrentCertificate_def Let_def split: option.split) blast+
  have tproxy: "handleTProxyConnection_log w (p\<lparr>p_certManager := m\<rparr>) tx podIP (TLSConn c peer) =
      handleTProxyConnection_log w (p\<lparr>p_certManager := m'\<rparr>) tx podIP (TLSConn c peer)" for c
    unfolding handleTProxyConnection_log_def tls_depends_on_presence [OF assms] by (simp split: option.split list.split)
  show ?thesis
    by (simp add: inbound_log_def outbound_log_def Let_def config tproxy handleRedirectedConnection_log_def app
        handleOutboundConnection_log_def out split: sum.split)
qed

section \<open>A concrete connection\<close>

definition example_texts :: log_texts where
  "example_texts = \<lparr>tx_handshake = ''bad certificate'', tx_dial = (\<lambda>a. ''refused''), tx_dest = (\<lambda>e. ''no socket option''),
     tx_relay = (\<lambda>e. ''reset''), tx_remote = ''10.0.0.9:4000'', tx_ip = ''10.0.0.9'', tx_early = [], tx_late = []\<rparr>"


end
