(* ===== verification/Outage.thy ===== *)
theory Outage
  imports RotationLive System
begin

text \<open>
  The rotation goroutine of \<open>cert_manager.go\<close> on the clock: how long the control plane or the API server may be away before
  a certificate expires. An event gets the moment at which it happens; \<open>time.After\<close> is prompt, passes of the loop take no time, and
  a call is answered within a delay \<open>D\<close>. Nothing in the program bounds this delay: \<open>Fetch\<close> sets no deadline.
\<close>

section \<open>Runs on the clock\<close>

abbreviation secs :: "int \<Rightarrow> int" where
  "secs n \<equiv> n * 1000000000"

text \<open>
  The moments at which an event can happen to a goroutine that blocks since \<open>now\<close>. A call fails only when it is made at
  a moment of \<open>down\<close>. Nothing in the program sends on \<open>RenewNow\<close>.
\<close>

fun in_time :: "int \<Rightarrow> (int \<Rightarrow> bool) \<Rightarrow> rotation \<Rightarrow> int \<Rightarrow> int \<Rightarrow> rot_event \<Rightarrow> bool" where
  "in_time D down s now t (Iterate n) = (t = now \<and> n = now)"
| "in_time D down s now t (TokenReturns r) = (now \<le> t \<and> t \<le> now + D \<and> (isl r \<longrightarrow> down now))"
| "in_time D down s now t (FetchReturns r) = (now \<le> t \<and> t \<le> now + D \<and> (isl r \<longrightarrow> down now))"
| "in_time D down s now t TimerFires = (t = now + (case rpc_at s of PSleep d \<Rightarrow> sint d | _ \<Rightarrow> sint (RetryDelay (cm s))))"
| "in_time D down s now t _ = False"

fun timed_run ::
  "(string \<Rightarrow> int option) \<Rightarrow> rot_args \<Rightarrow> int \<Rightarrow> (int \<Rightarrow> bool) \<Rightarrow> rotation \<Rightarrow> int \<Rightarrow> (int \<times> rot_event) list \<Rightarrow>
   (rotation \<times> int) option" where
  "timed_run parse a D down s now [] = Some (s, now)"
| "timed_run parse a D down s now ((t, e) # es) =
     (if in_time D down s now t e
      then (case rot_step parse a s e of None \<Rightarrow> None | Some (s1, _) \<Rightarrow> timed_run parse a D down s1 t es)
      else None)"

text \<open>A run on the clock is a run.\<close>

lemma timed_run_runs:
  "timed_run parse a D down s now es = Some (s', now') \<Longrightarrow> \<exists>calls. rot_run parse a s (map snd es) = Some (s', calls)"
proof (induction es arbitrary: s now)
  case Nil
  then show ?case by simp
next
  case (Cons x es)
  obtain t e where x: "x = (t, e)" by (cases x)
  from Cons.prems obtain s1 c1 where "rot_step parse a s e = Some (s1, c1)" "timed_run parse a D down s1 t es = Some (s', now')"
    unfolding x by (auto split: if_splits option.splits)
  with Cons.IH show ?case by (fastforce simp: x rot_run_Cons_iff)
qed

section \<open>Deadlines\<close>

text \<open>The managers of the program renew five minutes before \<open>notAfter\<close>, and retry after one minute.\<close>

definition holds_leaf :: "(string \<Rightarrow> int option) \<Rightarrow> rotation \<Rightarrow> int \<Rightarrow> bool" where
  "holds_leaf parse s notAfter \<longleftrightarrow> token_ok (tok s) \<and> wf_manager (cm s) \<and>
     (\<exists>c der ders. CurrentCert (cm s) = Some c \<and> Certificate c = Some (der # ders) \<and> parse der = Some notAfter)"

text \<open>
  Where the goroutine may be at the moment it starts to block, if the renewal was due at \<open>B\<close> at the latest: the next attempt
  starts no later than \<open>B + D\<close> and 70 seconds.
\<close>

fun on_schedule :: "int \<Rightarrow> int \<Rightarrow> rot_pc \<Rightarrow> int \<Rightarrow> bool" where
  "on_schedule B D PLoop now = (now \<le> B + D + secs 60)"
| "on_schedule B D PRetry now = (now \<le> B + D)"
| "on_schedule B D (PSleep d) now = (0 < sint d \<and> now + sint d \<le> B + D + secs 70)"
| "on_schedule B D PRequest now = (now \<le> B + D + secs 70)"
| "on_schedule B D PFetchRotate now = (now \<le> B + 2 * D + secs 70)"
| "on_schedule B D _ now = False"

definition latest :: "int \<Rightarrow> int \<Rightarrow> int" where
  "latest B D = B + 3 * D + secs 70"

text \<open>What a cycle of five events costs: a minute at least.\<close>

fun credit :: "rot_pc \<Rightarrow> int" where
  "credit PLoop = secs 240"
| "credit (PSleep d) = secs 180"
| "credit PRequest = secs 120"
| "credit PFetchRotate = secs 60"
| "credit _ = 0"

lemma sleep_on_schedule:
  assumes "wf_manager m" "now \<le> B + D + secs 60" "notAfter - secs 300 \<le> B" "0 \<le> D"
  shows "0 < sint (sleep_duration m notAfter now) \<and> now + sint (sleep_duration m notAfter now) \<le> B + D + secs 70"
proof -
  let ?d = "sint (sleep_duration m notAfter now)" and ?left = "notAfter - secs 300 - now"
  from assms(1) have window: "RenewalWindow m = seconds 300" by (simp add: wf_manager_def)
  then have "sint (RenewalWindow m) = secs 300" by (simp add: sint_seconds)
  moreover from this have "RenewalWindow m \<noteq> 0" by auto
  ultimately have "0 < ?d" "?left \<le> 0 \<longrightarrow> ?d = secs 10" "0 < ?left \<longrightarrow> ?left \<le> max_duration \<longrightarrow> now + ?d = notAfter - secs 300"
    "max_duration < ?left \<longrightarrow> ?d = max_duration"
    using sleep_schedule [of m notAfter now] by (auto simp: Let_def)
  then show ?thesis using assms(2-4) by linarith
qed

lemma holds_leaf_loop:
  assumes "holds_leaf parse s notAfter"
  shows "loop_head parse a s now = (s\<lparr>rpc_at := PSleep (sleep_duration (cm s) notAfter now)\<rparr>, [])"
  using assms by (auto simp: holds_leaf_def loop_head_def token_ok_def split: option.splits)

text \<open>One event that does not end the wait.\<close>

lemma timed_step:
  assumes "holds_leaf parse s notAfter" "on_schedule B D (rpc_at s) now" "in_time D down s now t e"
    and "rot_step parse a s e = Some (s1, c)" "e \<noteq> TokenReturns (Inr [])"
    and "notAfter - secs 300 \<le> B" "0 \<le> D" "R \<le> B" "\<And>u. R \<le> u \<Longrightarrow> u \<le> latest B D \<Longrightarrow> \<not> down u"
  shows "installs e \<and> t \<le> latest B D \<or>
    holds_leaf parse s1 notAfter \<and> on_schedule B D (rpc_at s1) t \<and> secs 60 + credit (rpc_at s1) \<le> credit (rpc_at s) + 5 * (t - now)"
proof -
  have retry: "sint (RetryDelay (cm s)) = secs 60" using assms(1) by (simp add: holds_leaf_def wf_manager_def sint_seconds)
  have failed: "now < R" if "down now" "now \<le> latest B D" using that assms(9) [of now] by linarith
  show ?thesis
  proof (cases e)
    case (Iterate n)
    with assms(3,4) have "rpc_at s = PLoop" "t = now" "n = now" by (auto split: if_splits)
    moreover from this assms(4) Iterate have "s1 = s\<lparr>rpc_at := PSleep (sleep_duration (cm s) notAfter now)\<rparr>"
      by (simp add: holds_leaf_loop [OF assms(1)])
    ultimately show ?thesis
      using assms(1,2,6,7) sleep_on_schedule [of "cm s" now B D notAfter] by (auto simp: holds_leaf_def)
  next
    case (FetchReturns res)
    have pc: "rpc_at s = PFetchRotate" using assms(2,4) FetchReturns by (cases "rpc_at s") auto
    show ?thesis
    proof (cases res)
      case (Inl err)
      with assms(2,3,7) pc FetchReturns failed have "now < R" by (auto simp: latest_def)
      with assms(1,3,4,8) pc FetchReturns Inl show ?thesis by (auto simp: holds_leaf_def)
    next
      case (Inr r)
      with assms(2,3) pc FetchReturns show ?thesis by (auto simp: latest_def)
    qed
  next
    case (TokenReturns res)
    have pc: "rpc_at s = PRequest" using assms(4) TokenReturns by (auto split: if_splits)
    show ?thesis
    proof (cases res)
      case (Inl err)
      with assms(2,3,7) pc TokenReturns failed have "now < R" by (auto simp: latest_def)
      with assms(1,3,4,8) pc TokenReturns Inl show ?thesis by (auto simp: holds_leaf_def)
    next
      case (Inr token)
      with assms(1-5) pc TokenReturns show ?thesis by (auto simp: holds_leaf_def token_ok_def split: option.splits)
    qed
  next
    case TimerFires
    with assms(1-4) retry show ?thesis by (auto simp: holds_leaf_def split: rot_pc.splits)
  qed (use assms(3) in simp_all)
qed

lemma timed_wait:
  assumes "notAfter - secs 300 \<le> B" "0 \<le> D" "R \<le> B" "\<And>u. R \<le> u \<Longrightarrow> u \<le> latest B D \<Longrightarrow> \<not> down u"
  shows "holds_leaf parse s notAfter \<Longrightarrow> on_schedule B D (rpc_at s) now \<Longrightarrow> timed_run parse a D down s now es = Some (s', now') \<Longrightarrow>
    TokenReturns (Inr []) \<notin> snd ` set es \<Longrightarrow>
    (\<exists>(t, e) \<in> set es. installs e \<and> t \<le> latest B D) \<or>
    holds_leaf parse s' notAfter \<and> on_schedule B D (rpc_at s') now' \<and>
      secs 60 * int (length es) + credit (rpc_at s') \<le> credit (rpc_at s) + 5 * (now' - now)"
proof (induction es arbitrary: s now)
  case Nil
  then show ?case by simp
next
  case (Cons x es)
  obtain t e where x: "x = (t, e)" by (cases x)
  from Cons.prems(3) obtain s1 c where step: "in_time D down s now t e" "rot_step parse a s e = Some (s1, c)"
    and run: "timed_run parse a D down s1 t es = Some (s', now')"
    unfolding x by (auto split: if_splits option.splits)
  have "e \<noteq> TokenReturns (Inr [])" using Cons.prems(4) by (auto simp: x)
  from timed_step [OF Cons.prems(1,2) step this assms] consider "installs e \<and> t \<le> latest B D" |
    "holds_leaf parse s1 notAfter" "on_schedule B D (rpc_at s1) t" "secs 60 + credit (rpc_at s1) \<le> credit (rpc_at s) + 5 * (t - now)"
    by blast
  then show ?case
  proof cases
    case 1
    then show ?thesis by (auto simp: x)
  next
    case 2
    from Cons.IH [OF 2(1,2) run] Cons.prems(4) 2(3) show ?thesis by (auto simp: algebra_simps)
  qed
qed

text \<open>A goroutine on schedule can always go on, whatever the answers, and time is bounded by the schedule.\<close>

lemma on_schedule_next:
  assumes "holds_leaf parse s notAfter" "on_schedule B D (rpc_at s) now" "0 \<le> D"
  shows "\<exists>t e s1. timed_run parse a D down s now [(t, e)] = Some (s1, t) \<and> e \<noteq> TokenReturns (Inr [])"
proof (cases "rpc_at s")
  case PLoop
  then show ?thesis
    using holds_leaf_loop [OF assms(1), of a now] by (intro exI [of _ now] exI [of _ "Iterate now"]) simp
next
  case PRequest
  with assms(3) show ?thesis by (intro exI [of _ now] exI [of _ "TokenReturns (Inr ''t'')"]) simp
next
  case PFetchRotate
  with assms(3) show ?thesis
    by (intro exI [of _ now] exI [of _ "FetchReturns (Inr example_result)"]) simp
next
  case PRetry
  then show ?thesis by (intro exI [of _ "now + sint (RetryDelay (cm s))"] exI [of _ TimerFires]) simp
next
  case (PSleep d)
  then show ?thesis by (intro exI [of _ "now + sint d"] exI [of _ TimerFires]) simp
qed (use assms(2) in simp_all)

lemma on_schedule_time: "on_schedule B D pc now \<Longrightarrow> 0 \<le> D \<Longrightarrow> now \<le> latest B D"
  by (cases pc) (auto simp: latest_def)

section \<open>Renewal after renewal\<close>

text \<open>A certificate installed at \<open>t\<close> parses and is good for at least the renewal window.\<close>

fun long_lived :: "(string \<Rightarrow> int option) \<Rightarrow> int \<times> rot_event \<Rightarrow> bool" where
  "long_lived parse (t, FetchReturns (Inr r)) =
     (case Certificate (IdCertificate r) of
        Some (der # _) \<Rightarrow> (case parse der of Some notAfter \<Rightarrow> t + secs 300 \<le> notAfter | None \<Rightarrow> False)
      | _ \<Rightarrow> False)"
| "long_lived parse _ = True"

text \<open>
  From every moment on the services are up within \<open>G\<close>, and then long enough for an attempt to fall into this time.
\<close>

definition up_within :: "int \<Rightarrow> int \<Rightarrow> (int \<Rightarrow> bool) \<Rightarrow> bool" where
  "up_within G D down \<longleftrightarrow> (\<forall>t. \<exists>R. t \<le> R \<and> R \<le> t + G \<and> (\<forall>u. R \<le> u \<longrightarrow> u \<le> latest R D \<longrightarrow> \<not> down u))"

definition renewing :: "(string \<Rightarrow> int option) \<Rightarrow> int \<Rightarrow> (int \<Rightarrow> bool) \<Rightarrow> rotation \<Rightarrow> int \<Rightarrow> int \<Rightarrow> bool" where
  "renewing parse D down s now notAfter \<longleftrightarrow> holds_leaf parse s notAfter \<and>
     (\<exists>R. notAfter - secs 300 \<le> R \<and> latest R D \<le> notAfter \<and> (\<forall>u. R \<le> u \<longrightarrow> u \<le> latest R D \<longrightarrow> \<not> down u) \<and>
        on_schedule R D (rpc_at s) now)"

lemma renewing_start:
  assumes "holds_leaf parse s notAfter" "rpc_at s = PLoop" "now + secs 300 \<le> notAfter" "0 \<le> D"
    and "up_within G D down" "G + 3 * D + secs 70 \<le> secs 300"
  shows "renewing parse D down s now notAfter"
proof -
  from assms(5) obtain R where "notAfter - secs 300 \<le> R" "R \<le> notAfter - secs 300 + G"
    "\<forall>u. R \<le> u \<longrightarrow> u \<le> latest R D \<longrightarrow> \<not> down u" unfolding up_within_def by blast
  with assms show ?thesis
    unfolding renewing_def by (intro conjI exI [of _ R]) (auto simp: latest_def)
qed

lemma renewing_step:
  assumes "renewing parse D down s now notAfter" "in_time D down s now t e" "rot_step parse a s e = Some (s1, c)"
    and "e \<noteq> TokenReturns (Inr [])" "long_lived parse (t, e)" "0 \<le> D" "up_within G D down" "G + 3 * D + secs 70 \<le> secs 300"
  shows "t \<le> notAfter \<and> (\<exists>notAfter'. renewing parse D down s1 t notAfter')"
proof -
  from assms(1) obtain R where leaf: "holds_leaf parse s notAfter" and
    R: "notAfter - secs 300 \<le> R" "latest R D \<le> notAfter" "\<forall>u. R \<le> u \<longrightarrow> u \<le> latest R D \<longrightarrow> \<not> down u"
      "on_schedule R D (rpc_at s) now"
    by (auto simp: renewing_def)
  from timed_step [OF leaf R(4) assms(2-4) R(1) assms(6) order_refl] R(3)
  consider "installs e" "t \<le> latest R D" | "holds_leaf parse s1 notAfter" "on_schedule R D (rpc_at s1) t" by blast
  then show ?thesis
  proof cases
    case 1
    from 1(1) obtain r where r: "e = FetchReturns (Inr r)" by (cases e rule: installs.cases) simp_all
    with assms(5) obtain der ders notAfter' where
      new: "Certificate (IdCertificate r) = Some (der # ders)" "parse der = Some notAfter'" "t + secs 300 \<le> notAfter'"
      by (auto split: option.splits list.splits)
    from assms(3) r have "s1 = s\<lparr>cm := install (cm s) r, rpc_at := PLoop\<rparr>" by (auto split: if_splits)
    with leaf new have "holds_leaf parse s1 notAfter'" "rpc_at s1 = PLoop"
      by (auto simp: holds_leaf_def wf_manager_def install_def usable_cert_def)
    from renewing_start [OF this new(3) assms(6-8)] 1(2) R(2) show ?thesis by auto
  next
    case 2
    with R on_schedule_time [OF 2(2) assms(6)] show ?thesis
      unfolding renewing_def by (intro conjI exI [of _ notAfter] exI [of _ R]) auto
  qed
qed

lemma renewing_run:
  assumes "0 \<le> D" "up_within G D down" "G + 3 * D + secs 70 \<le> secs 300"
  shows "renewing parse D down s now notAfter \<Longrightarrow> timed_run parse a D down s now es = Some (s', now') \<Longrightarrow>
    TokenReturns (Inr []) \<notin> snd ` set es \<Longrightarrow> list_all (long_lived parse) es \<Longrightarrow>
    \<exists>notAfter'. renewing parse D down s' now' notAfter'"
proof (induction es arbitrary: s now notAfter)
  case Nil
  then show ?case by auto
next
  case (Cons x es)
  obtain t e where x: "x = (t, e)" by (cases x)
  from Cons.prems(2) obtain s1 c where step: "in_time D down s now t e" "rot_step parse a s e = Some (s1, c)"
    and run: "timed_run parse a D down s1 t es = Some (s', now')"
    unfolding x by (auto split: if_splits option.splits)
  from Cons.prems(3,4) have "e \<noteq> TokenReturns (Inr [])" "long_lived parse (t, e)" by (auto simp: x)
  from renewing_step [OF Cons.prems(1) step this assms] Cons.IH [OF _ run] Cons.prems(3,4) show ?case by auto
qed

lemma renewing_time: "renewing parse D down s now notAfter \<Longrightarrow> 0 \<le> D \<Longrightarrow> now \<le> notAfter"
  unfolding renewing_def using on_schedule_time by fastforce

section \<open>Properties\<close>

text \<open>
  C39: An outage that ends in time does no harm. Let a certificate that expires at \<open>notAfter\<close> be in use, let calls be answered within
  \<open>D\<close>, and let calls made from \<open>R\<close> on succeed, at least for a while. Then the next certificate is installed
  at most 70 seconds and three delays after \<open>R\<close>, or after the moment five minutes before \<open>notAfter\<close> if that is later. So the identity is
  renewed before it expires when the services are back 70 seconds and three delays before, and the five
  minutes of the renewal window are for outages of up to 230 seconds. A run in which that has not happened yet is
  short and can go on.
\<close>

theorem outage_tolerated:
  assumes "holds_leaf parse s notAfter" "rpc_at s = PLoop" "now \<le> max R (notAfter - secs 300)" "0 \<le> D"
    and "\<And>u. R \<le> u \<Longrightarrow> u \<le> max R (notAfter - secs 300) + 3 * D + secs 70 \<Longrightarrow> \<not> down u"
    and "timed_run parse a D down s now es = Some (s', now')" "TokenReturns (Inr []) \<notin> snd ` set es"
  shows "(\<exists>t r. (t, FetchReturns (Inr r)) \<in> set es \<and> t \<le> max R (notAfter - secs 300) + 3 * D + secs 70) \<or>
    now' \<le> max R (notAfter - secs 300) + 3 * D + secs 70 \<and> secs 60 * int (length es) \<le> secs 240 + 5 * (now' - now) \<and>
      (\<exists>t e s2. timed_run parse a D down s' now' [(t, e)] = Some (s2, t) \<and> e \<noteq> TokenReturns (Inr []))"
proof -
  let ?B = "max R (notAfter - secs 300)"
  have credit: "0 \<le> credit pc" for pc by (cases pc) auto
  have "on_schedule ?B D (rpc_at s) now" using assms(2-4) by simp
  from timed_wait [where B = ?B and R = R, OF _ assms(4) _ _ assms(1) this assms(6,7)] assms(5)
  consider "\<exists>(t, e) \<in> set es. installs e \<and> t \<le> latest ?B D" |
    "holds_leaf parse s' notAfter" "on_schedule ?B D (rpc_at s') now'"
      "secs 60 * int (length es) + credit (rpc_at s') \<le> credit (rpc_at s) + 5 * (now' - now)"
    unfolding latest_def by auto
  then show ?thesis
  proof cases
    case 1
    then obtain t e where *: "(t, e) \<in> set es" "installs e" "t \<le> latest ?B D" by blast
    from *(2) obtain r where "e = FetchReturns (Inr r)" by (cases e rule: installs.cases) simp_all
    with * show ?thesis unfolding latest_def by blast
  next
    case 2
    then show ?thesis
      using on_schedule_time [OF 2(2) assms(4)] on_schedule_next [OF 2(1,2) assms(4), of a down] assms(2) credit [of "rpc_at s'"]
      unfolding latest_def by auto
  qed
qed

text \<open>
  The identity never expires. Let certificates be issued for at least five minutes, and let the services come and go, but so that
  from every moment on they are up within \<open>G\<close>, and then for 70 seconds and three call delays, and let these add up to
  no more than five minutes. Then through any number of rotations, failed attempts and outages the certificate in use is one that
  parses and has not expired, now and up to the next event, whatever this is.
\<close>

theorem identity_never_expires:
  assumes "holds_leaf parse s notAfter" "rpc_at s = PLoop" "now + secs 300 \<le> notAfter" "0 \<le> D"
    and "up_within G D down" "G + 3 * D + secs 70 \<le> secs 300"
    and "timed_run parse a D down s now es = Some (s', now')" "TokenReturns (Inr []) \<notin> snd ` set es" "list_all (long_lived parse) es"
  shows "\<exists>cert der ders notAfter'. GetCurrentCertificate (cm s') = Some cert \<and> Certificate cert = Some (der # ders) \<and>
    parse der = Some notAfter' \<and> now' \<le> notAfter' \<and>
    (\<forall>t e s2. e \<noteq> TokenReturns (Inr []) \<longrightarrow> long_lived parse (t, e) \<longrightarrow> timed_run parse a D down s' now' [(t, e)] = Some (s2, t) \<longrightarrow>
       t \<le> notAfter')"
proof -
  from renewing_run [OF assms(4-6) renewing_start [OF assms(1-6)] assms(7-9)] obtain notAfter' where
    r: "renewing parse D down s' now' notAfter'" by blast
  have "t \<le> notAfter'" if e: "e \<noteq> TokenReturns (Inr [])" "long_lived parse (t, e)"
    and "timed_run parse a D down s' now' [(t, e)] = Some (s2, t)" for t e s2
  proof -
    from that(3) obtain s1 c where "in_time D down s' now' t e" "rot_step parse a s' e = Some (s1, c)"
      by (auto split: if_splits option.splits)
    with renewing_step [OF r _ _ e assms(4-6)] show ?thesis by blast
  qed
  moreover from r obtain cert der ders where "CurrentCert (cm s') = Some cert" "Certificate cert = Some (der # ders)"
    "parse der = Some notAfter'"
    by (auto simp: renewing_def holds_leaf_def)
  ultimately show ?thesis
    using renewing_time [OF r assms(4)] unfolding GetCurrentCertificate_def by blast
qed

section \<open>A concrete outage\<close>

text \<open>
  A certificate good for ten minutes, and services that are away for the first seven: the calls after 300 and 370 seconds
  fail, and the third attempt installs a certificate after 440.
\<close>

definition outage_state :: rotation where
  "outage_state = example_state\<lparr>cm := (cm example_state)\<lparr>RetryDelay := seconds 60, RenewalWindow := seconds (5 * 60)\<rparr>\<rparr>"

definition outage_events :: "(int \<times> rot_event) list" where
  "outage_events =
     [(0, Iterate 0), (secs 300, TimerFires), (secs 300, TokenReturns (Inl ''unavailable'')), (secs 360, TimerFires),
      (secs 360, Iterate (secs 360)), (secs 370, TimerFires), (secs 370, TokenReturns (Inr ''t1'')),
      (secs 370, FetchReturns (Inl (RPCError ''Unavailable''))), (secs 430, TimerFires), (secs 430, Iterate (secs 430)),
      (secs 440, TimerFires), (secs 440, TokenReturns (Inr ''t2'')), (secs 440, FetchReturns (Inr example_result))]"

lemma outage_run:
  "\<exists>s'. timed_run (\<lambda>der. Some (secs 600)) a 0 (\<lambda>t. t < secs 420) outage_state 0 outage_events = Some (s', secs 440)"
  by (simp add: outage_events_def outage_state_def example_state_def loop_head_def token_ok_def sleep_duration_def
      effective_window_def time_until_def seconds_def max_duration_def min_duration_def)

theorem outage_tolerated_witness:
  "\<exists>t r. (t, FetchReturns (Inr r)) \<in> set outage_events \<and> t \<le> secs 490"
proof -
  from outage_run [of example_args] obtain s' where
    run: "timed_run (\<lambda>der. Some (secs 600)) example_args 0 (\<lambda>t. t < secs 420) outage_state 0 outage_events = Some (s', secs 440)"
    by blast
  have "holds_leaf (\<lambda>der. Some (secs 600)) outage_state (secs 600)" "rpc_at outage_state = PLoop"
    by (simp_all add: holds_leaf_def outage_state_def example_state_def token_ok_def wf_manager_def usable_cert_def)
  from outage_tolerated [OF this _ _ _ run, of "secs 420"] show ?thesis
    by (auto simp: outage_events_def)
qed

text \<open>Services that are up only in the last two minutes of every four.\<close>

definition example_down :: "int \<Rightarrow> bool" where
  "example_down t \<longleftrightarrow> t mod secs 240 < secs 120"

lemma example_up_within: "up_within (secs 200) 0 example_down"
  unfolding up_within_def
proof
  fix t
  obtain k m where t: "t = k * secs 240 + m" "0 \<le> m" "m < secs 240"
    using that [of "t div secs 240" "t mod secs 240"] by simp
  let ?R = "if m \<le> secs 160 then k * secs 240 + max (secs 120) m else (k + 1) * secs 240 + secs 120"
  have "\<not> example_down u" if "q * secs 240 + secs 120 \<le> u" "u < (q + 1) * secs 240" for u q
  proof -
    have "u div secs 240 = q" using that by (intro int_div_pos_eq [of _ _ _ "u - q * secs 240"]) auto
    then have "u mod secs 240 = u - q * secs 240" by (simp add: minus_div_mult_eq_mod [symmetric])
    with that show ?thesis by (simp add: example_down_def)
  qed
  note up = this [of k] this [of "k + 1"]
  show "\<exists>R. t \<le> R \<and> R \<le> t + secs 200 \<and> (\<forall>u. R \<le> u \<longrightarrow> u \<le> latest R 0 \<longrightarrow> \<not> example_down u)"
    using t up by (intro exI [of _ ?R]) (auto simp: latest_def algebra_simps)
qed

definition expiring_parse :: "string \<Rightarrow> int option" where
  "expiring_parse der = Some (if der = ''der0'' then secs 600 else secs 1000)"

definition expiring_events :: "(int \<times> rot_event) list" where
  "expiring_events =
     [(0, Iterate 0), (secs 300, TimerFires), (secs 300, TokenReturns (Inl ''unavailable'')), (secs 360, TimerFires),
      (secs 360, Iterate (secs 360)), (secs 370, TimerFires), (secs 370, TokenReturns (Inr ''t1'')),
      (secs 370, FetchReturns (Inr example_result)), (secs 370, Iterate (secs 370))]"

lemma expiring_run:
  "\<exists>s'. timed_run expiring_parse a 0 example_down outage_state 0 expiring_events = Some (s', secs 370)"
  by (simp add: expiring_events_def outage_state_def example_state_def loop_head_def token_ok_def sleep_duration_def expiring_parse_def
      effective_window_def time_until_def seconds_def max_duration_def min_duration_def example_down_def example_result_def install_def)

theorem identity_never_expires_witness:
  "\<exists>s' cert der ders notAfter. timed_run expiring_parse example_args 0 example_down outage_state 0 expiring_events = Some (s', secs 370) \<and>
     GetCurrentCertificate (cm s') = Some cert \<and> Certificate cert = Some (der # ders) \<and> expiring_parse der = Some notAfter \<and>
     secs 370 \<le> notAfter"
proof -
  from expiring_run [of example_args] obtain s' where
    run: "timed_run expiring_parse example_args 0 example_down outage_state 0 expiring_events = Some (s', secs 370)"
    by blast
  have state: "holds_leaf expiring_parse outage_state (secs 600)" "rpc_at outage_state = PLoop" "0 + secs 300 \<le> secs 600"
    by (simp_all add: holds_leaf_def outage_state_def example_state_def token_ok_def wf_manager_def usable_cert_def expiring_parse_def)
  have bounds: "(0 :: int) \<le> 0" "secs 200 + 3 * 0 + secs 70 \<le> secs 300" by simp_all
  have events: "TokenReturns (Inr []) \<notin> snd ` set expiring_events" "list_all (long_lived expiring_parse) expiring_events"
    by (simp_all add: expiring_events_def example_result_def expiring_parse_def)
  from identity_never_expires [OF state bounds(1) example_up_within bounds(2) run events] run show ?thesis by blast
qed

end
