(* ===== verification/OutageSystem.thy ===== *)
theory OutageSystem
  imports Outage
begin

text \<open>
  The running data plane of \<open>System\<close> on the clock of \<open>Outage\<close>: connections are accepted at any moment between two events of the
  rotation goroutine, and served with the certificate it has left.
\<close>

section \<open>Runs of the whole process on the clock\<close>

text \<open>The moment by which the goroutine that blocks since \<open>now\<close> moves on.\<close>

definition moves_by :: "int \<Rightarrow> rotation \<Rightarrow> int \<Rightarrow> int" where
  "moves_by D s now =
     (case rpc_at s of
        PSleep d \<Rightarrow> now + sint d
      | PRetry \<Rightarrow> now + sint (RetryDelay (cm s))
      | PRequest \<Rightarrow> now + D
      | PFetchRotate \<Rightarrow> now + D
      | PFetchInitial \<Rightarrow> now + D
      | _ \<Rightarrow> now)"

fun timed_sys ::
  "(string \<Rightarrow> int option) \<Rightarrow> rot_args \<Rightarrow> int \<Rightarrow> (int \<Rightarrow> bool) \<Rightarrow> rotation \<Rightarrow> int \<Rightarrow> (int \<times> sys_event) list \<Rightarrow> bool" where
  "timed_sys parse a D down s now [] = True"
| "timed_sys parse a D down s now ((t, Rotate e) # es) =
     (in_time D down s now t e \<and>
      (case rot_step parse a s e of None \<Rightarrow> False | Some (s1, _) \<Rightarrow> timed_sys parse a D down s1 t es))"
| "timed_sys parse a D down s now ((t, _) # es) =
     (now \<le> t \<and> t \<le> moves_by D s now \<and> timed_sys parse a D down s now es)"

fun good_answer :: "(string \<Rightarrow> int option) \<Rightarrow> int \<times> sys_event \<Rightarrow> bool" where
  "good_answer parse (t, Rotate e) = (e \<noteq> TokenReturns (Inr []) \<and> long_lived parse (t, e))"
| "good_answer parse _ = True"

lemma renewing_moves:
  assumes "renewing parse D down s now notAfter" "0 \<le> D"
  shows "moves_by D s now \<le> notAfter"
proof -
  from assms(1) obtain R where "latest R D \<le> notAfter" "on_schedule R D (rpc_at s) now" "holds_leaf parse s notAfter"
    by (auto simp: renewing_def)
  moreover from this(3) have "sint (RetryDelay (cm s)) = secs 60" by (simp add: holds_leaf_def wf_manager_def sint_seconds)
  ultimately show ?thesis
    using assms(2) by (auto simp: moves_by_def latest_def split: rot_pc.splits)
qed

text \<open>Up to any event of a run the rotation keeps up.\<close>

lemma timed_sys_prefix:
  assumes "0 \<le> D" "up_within G D down" "G + 3 * D + secs 70 \<le> secs 300"
  shows "renewing parse D down s now notAfter \<Longrightarrow> timed_sys parse a D down s now (pre @ x # post) \<Longrightarrow>
    list_all (good_answer parse) pre \<Longrightarrow> interleave parse a s (map snd pre) = Some (s1, calls, as) \<Longrightarrow>
    \<exists>now1 notAfter1. renewing parse D down s1 now1 notAfter1 \<and> timed_sys parse a D down s1 now1 (x # post)"
proof (induction pre arbitrary: s now notAfter calls as)
  case Nil
  then show ?case by auto
next
  case (Cons y pre)
  obtain t e where y: "y = (t, e)" by (cases y)
  from Cons.prems(4) obtain s2 c2 a2 c3 a3 where step: "sys_step parse a s e = Some (s2, c2, a2)"
    and rest: "interleave parse a s2 (map snd pre) = Some (s1, c3, a3)"
    unfolding y by (auto simp: interleave_Cons_iff)
  have "\<exists>now2 notAfter2. renewing parse D down s2 now2 notAfter2 \<and> timed_sys parse a D down s2 now2 (pre @ x # post)"
  proof (cases e)
    case (Rotate re)
    with step Cons.prems(2,3) y have "in_time D down s now t re" "rot_step parse a s re = Some (s2, c2)"
      "timed_sys parse a D down s2 t (pre @ x # post)" "re \<noteq> TokenReturns (Inr [])" "long_lived parse (t, re)"
      by (auto split: option.splits)
    with renewing_step [OF Cons.prems(1) _ _ _ _ assms] show ?thesis by blast
  qed (use step Cons.prems(1,2) y in auto)
  with Cons.IH [OF _ _ _ rest] Cons.prems(3) show ?case by auto
qed

section \<open>Properties\<close>


section \<open>A concrete run\<close>

text \<open>The renewal of \<open>Outage\<close>, with its failed attempt, and a connection half a minute after it.\<close>

definition example_dst :: "int \<Rightarrow> int \<Rightarrow> (string, bytes) result" where
  "example_dst fd opt = Inr (sockaddr_in [10, 0, 0, 8] 80)"

definition expiring_sys :: "(int \<times> sys_event) list" where
  "expiring_sys = List.map (\<lambda>(t, e). (t, Rotate e)) expiring_events @ [(secs 400, Outbound example_open (Inr 3) example_dst)]"

lemma example_start_rotation:
  "CurrentCert (cm (st_rotation example_start)) = Some \<lparr>Certificate = Some [''der0''], PrivateKey = ''key0''\<rparr>"
  "tok (st_rotation example_start) = Some \<lparr>TokMu = True, Token = ''t0''\<rparr>" "rpc_at (st_rotation example_start) = PLoop"
  "wf_manager (cm (st_rotation example_start))"
  using example_NewProxy_main started_wf [OF example_first_success example_really_fetched [OF refl]]
  by (auto simp: example_start_def wf_rotation_def)

lemma expiring_sys_timed: "timed_sys expiring_parse a 0 example_down (st_rotation example_start) 0 expiring_sys"
  using example_start_rotation
  by (simp add: expiring_sys_def expiring_events_def wf_manager_def loop_head_def token_ok_def sleep_duration_def expiring_parse_def
      effective_window_def time_until_def seconds_def max_duration_def min_duration_def example_down_def example_result_def install_def
      moves_by_def)

lemma expiring_sys_run:
  "\<exists>s' calls h addr config ok. run_system example_getenv expiring_parse (\<lambda>_. None) None example_start (map snd expiring_sys) [] =
     Some (s', calls, Inr ([ListenInbound RedirectMode 15006 True, ListenOutbound 15001 True, OutboundHandler h], None)) \<and>
     DialTLS addr config ok \<in> set h"
proof -
  have ports: "InboundPort (p_cfg (st_proxy example_start)) = 15006" "OutboundPort (p_cfg (st_proxy example_start)) = 15001"
    using example_NewProxy_main by (auto simp: example_start_def example_config)
  obtain s' calls m where run: "interleave expiring_parse (st_args example_start) (st_rotation example_start) (map snd expiring_sys) =
      Some (s', calls, [AcceptOut (Inr (example_open, m, Inr 3, example_dst))])"
    and cert: "CurrentCert m = Some (IdCertificate example_result)"
    using example_start_rotation
    by (auto simp: expiring_sys_def expiring_events_def interleave.simps(2) loop_head_def token_ok_def expiring_parse_def install_def
        example_result_def)
  have "GetOriginalDest (Inr 3) example_dst = Inr \<lparr>IP = [10, 0, 0, 8], Port = uint (80 :: 16 word)\<rparr>"
    by (rule GetOriginalDest_sockaddr) (simp_all add: example_dst_def)
  with cert have "\<exists>addr config ok. DialTLS addr config ok \<in> set (handle_outbound (st_proxy example_start) [] (example_open, m, Inr 3, example_dst))"
    by (auto simp: handle_outbound_def handleOutboundConnection_def is_pod_def forwardOutboundPlain_def GetCurrentCertificate_def Let_def)
  then show ?thesis
    unfolding run_system_def run
    by (simp add: Run_def example_choose runRedirectMode_def run_intercepting_def Let_def ports example_getenv_def)
qed


end
