(* ===== verification/Fleet.thy ===== *)
theory Fleet
  imports Issuance
begin

text \<open>
  Many sidecars and one control plane: the rotation goroutines of any number of pods (Go) and the certificate service (Java),
  step by step. A call is on its way until it reaches the interceptor, its method runs later and perhaps on
  another thread, and its answer may come late or never. Other clients call the service as they like.
\<close>

section \<open>State\<close>

text \<open>
  A call of the service: the sidecar that made it (none for another client), what it sent, whether it has reached the interceptor, and
  the answer that is on its way back.
\<close>

record service_call =
  sc_pod :: "nat option"
  sc_header :: "string option"
  sc_name :: string
  sc_seen :: bool
  sc_answer :: "(string, CertificateResponse) result option"

record fleet =
  fl_pods :: "nat \<Rightarrow> rotation"
  fl_waits :: "nat \<Rightarrow> nat option"
  fl_calls :: "service_call list"
  fl_server :: cp_state

record fleet_env =
  fe_parse :: "string \<Rightarrow> int option"
  fe_blocks :: "string \<Rightarrow> string list"
  fe_fits :: "string \<Rightarrow> string \<Rightarrow> bool"
  fe_args :: "nat \<Rightarrow> rot_args"
  fe_readTree :: "string \<Rightarrow> jnode java"
  fe_trustDomain :: string

datatype fleet_event =
    Goroutine nat rot_event \<comment> \<open>a step of a pod's goroutine, but for the end of a call\<close>
  | Stranger "string option" string \<comment> \<open>another client calls, with any header and any service name\<close>
  | Reaches nat nat kube grpc_peer \<comment> \<open>a call reaches the interceptor on a thread\<close>
  | Handled nat nat vault \<comment> \<open>its method runs on a thread\<close>
  | Answered nat \<comment> \<open>a sidecar gets the answer it waits for\<close>
  | CallLost nat string \<comment> \<open>a sidecar's call ends with an error of the transport\<close>

section \<open>Steps\<close>

text \<open>The calls a goroutine makes go on their way with the metadata \<open>Fetch\<close> gives them.\<close>

definition fetch_header :: "ServiceAccountToken \<Rightarrow> string" where
  "fetch_header token = ''Bearer '' @ TrimSpace token"

lemma Fetch_answer:
  "Fetch rpc blocks fits token name =
     Fetch (\<lambda>md n. rpc [(''x-sentinel-token'', fetch_header token)] name) blocks fits token' name"
  by (simp add: Fetch_def fetch_header_def Let_def)

fun send :: "nat \<Rightarrow> rot_call list \<Rightarrow> fleet \<Rightarrow> fleet" where
  "send p [] fl = fl"
| "send p (CallFetch token name # cs) fl = send p cs (fl\<lparr>
     fl_calls := fl_calls fl @ [\<lparr>sc_pod = Some p, sc_header = Some (fetch_header token), sc_name = name, sc_seen = False, sc_answer = None\<rparr>],
     fl_waits := (fl_waits fl)(p \<mapsto> length (fl_calls fl))\<rparr>)"
| "send p (CallRequestToken ns sa pod uid # cs) fl = send p cs fl"

definition move_pod :: "fleet_env \<Rightarrow> nat \<Rightarrow> rot_event \<Rightarrow> fleet \<Rightarrow> fleet option" where
  "move_pod fe p e fl =
     map_option (\<lambda>(s, cs). send p cs (fl\<lparr>fl_pods := (fl_pods fl)(p := s)\<rparr>)) (rot_step (fe_parse fe) (fe_args fe p) (fl_pods fl p) e)"

text \<open>The end of a call as its goroutine sees it: what \<open>Fetch\<close> makes of the answer.\<close>

definition end_call :: "fleet_env \<Rightarrow> nat \<Rightarrow> (string, CertificateResponse) result \<Rightarrow> fleet \<Rightarrow> fleet option" where
  "end_call fe p answer fl =
     move_pod fe p (FetchReturns (Fetch (\<lambda>md n. answer) (fe_blocks fe) (fe_fits fe) [] (ra_spiffeId (fe_args fe p))))
       (fl\<lparr>fl_waits := (fl_waits fl)(p := None)\<rparr>)"

fun answer_in :: "cp_output list \<Rightarrow> (string, CertificateResponse) result option" where
  "answer_in [] = None"
| "answer_in (Unauthenticated c description # os) = Some (Inl ''Unauthenticated'')"
| "answer_in (Replied c (Inr resp) # os) = Some (Inr resp)"
| "answer_in (Replied c (Inl st) # os) = Some (Inl (status_text st))"
| "answer_in (Effect c e # os) = answer_in os"

definition move_server ::
  "fleet_env \<Rightarrow> nat \<Rightarrow> cp_event \<Rightarrow> fleet \<Rightarrow> (fleet \<times> cp_event list \<times> cp_output list) option" where
  "move_server fe c e fl =
     (case cp_step (fe_readTree fe) (fe_trustDomain fe) (fl_server fl) e of
        None \<Rightarrow> None
      | Some (s, outs) \<Rightarrow> Some (fl\<lparr>fl_server := s, fl_calls := (fl_calls fl)[c := (fl_calls fl ! c)\<lparr>sc_seen := True,
          sc_answer := (case answer_in outs of None \<Rightarrow> sc_answer (fl_calls fl ! c) | Some a \<Rightarrow> Some a)\<rparr>]\<rparr>, [e], outs))"

text \<open>A step, with what it does at the control plane.\<close>

fun fleet_step ::
  "fleet_env \<Rightarrow> fleet \<Rightarrow> fleet_event \<Rightarrow> (fleet \<times> cp_event list \<times> cp_output list) option" where
  "fleet_step fe fl (Goroutine p e) =
     (case e of FetchReturns r \<Rightarrow> None | _ \<Rightarrow> map_option (\<lambda>fl'. (fl', [], [])) (move_pod fe p e fl))"
| "fleet_step fe fl (Stranger header name) =
     Some (fl\<lparr>fl_calls := fl_calls fl @ [\<lparr>sc_pod = None, sc_header = header, sc_name = name, sc_seen = False, sc_answer = None\<rparr>]\<rparr>, [], [])"
| "fleet_step fe fl (Reaches c t kube peer) =
     (if c < length (fl_calls fl) \<and> \<not> sc_seen (fl_calls fl ! c)
      then move_server fe c (Intercept c t kube peer (sc_header (fl_calls fl ! c))) fl else None)"
| "fleet_step fe fl (Handled c t vault) =
     (if c < length (fl_calls fl) then move_server fe c (Handle c t vault (sc_name (fl_calls fl ! c))) fl else None)"
| "fleet_step fe fl (Answered p) =
     (case fl_waits fl p of
        None \<Rightarrow> None
      | Some c \<Rightarrow> (case sc_answer (fl_calls fl ! c) of
            None \<Rightarrow> None
          | Some a \<Rightarrow> map_option (\<lambda>fl'. (fl', [], [])) (end_call fe p a fl)))"
| "fleet_step fe fl (CallLost p err) =
     (if fl_waits fl p = None then None else map_option (\<lambda>fl'. (fl', [], [])) (end_call fe p (Inl err) fl))"

fun fleet_run ::
  "fleet_env \<Rightarrow> fleet \<Rightarrow> fleet_event list \<Rightarrow> (fleet \<times> cp_event list \<times> cp_output list) option" where
  "fleet_run fe fl [] = Some (fl, [], [])"
| "fleet_run fe fl (e # es) =
     (case fleet_step fe fl e of
        None \<Rightarrow> None
      | Some (fl1, c1, o1) \<Rightarrow> map_option (\<lambda>(fl2, c2, o2). (fl2, c1 @ c2, o1 @ o2)) (fleet_run fe fl1 es))"

text \<open>The pods as \<open>NewProxy\<close> has left them, and a server that has served nobody.\<close>

definition fleet_start :: "(nat \<Rightarrow> rotation) \<Rightarrow> fleet" where
  "fleet_start pods = \<lparr>fl_pods = pods, fl_waits = Map.empty, fl_calls = [], fl_server = cp_start\<rparr>"

section \<open>Lemmas\<close>

lemma fleet_run_Cons_iff:
  "fleet_run fe fl (e # es) = Some (fl', ces, outs) \<longleftrightarrow>
     (\<exists>fl1 c1 o1 c2 o2. fleet_step fe fl e = Some (fl1, c1, o1) \<and> fleet_run fe fl1 es = Some (fl', c2, o2) \<and>
        ces = c1 @ c2 \<and> outs = o1 @ o2)"
  by (auto split: option.splits)

declare fleet_run.simps(2) [simp del]

lemma fleet_run_append:
  "fleet_run fe fl (xs @ ys) = Some (fl', ces, outs) \<longleftrightarrow>
     (\<exists>fl1 c1 o1 c2 o2. fleet_run fe fl xs = Some (fl1, c1, o1) \<and> fleet_run fe fl1 ys = Some (fl', c2, o2) \<and>
        ces = c1 @ c2 \<and> outs = o1 @ o2)"
  by (induction xs arbitrary: fl ces outs) (force simp: fleet_run_Cons_iff)+

lemma fleet_run_appendI:
  "fleet_run fe fl xs = Some (fl1, c1, o1) \<Longrightarrow> fleet_run fe fl1 ys = Some (fl2, c2, o2) \<Longrightarrow>
     fleet_run fe fl (xs @ ys) = Some (fl2, c1 @ c2, o1 @ o2)"
  by (auto simp: fleet_run_append)

lemma send_frame [simp]: "fl_pods (send p cs fl) = fl_pods fl" "fl_server (send p cs fl) = fl_server fl"
  by (induction p cs fl rule: send.induct) simp_all

lemma move_pod_SomeE:
  assumes "move_pod fe p e fl = Some fl'"
  obtains s cs where "rot_step (fe_parse fe) (fe_args fe p) (fl_pods fl p) e = Some (s, cs)"
    "fl' = send p cs (fl\<lparr>fl_pods := (fl_pods fl)(p := s)\<rparr>)"
  using assms by (auto simp: move_pod_def)

lemma move_server_SomeE:
  assumes "move_server fe c e fl = Some (fl', ces, outs)"
  obtains s where "cp_step (fe_readTree fe) (fe_trustDomain fe) (fl_server fl) e = Some (s, outs)" "ces = [e]"
    "fl' = fl\<lparr>fl_server := s, fl_calls := (fl_calls fl)[c := (fl_calls fl ! c)\<lparr>sc_seen := True,
       sc_answer := (case answer_in outs of None \<Rightarrow> sc_answer (fl_calls fl ! c) | Some a \<Rightarrow> Some a)\<rparr>]\<rparr>"
  using assms by (auto simp: move_server_def split: option.splits)

text \<open>What happens at the control plane is a run of it.\<close>

lemma fleet_step_server:
  assumes "fleet_step fe fl e = Some (fl', ces, outs)"
  shows "cp_run (fe_readTree fe) (fe_trustDomain fe) (fl_server fl) ces = Some (fl_server fl', outs)"
  using assms
  by (cases e) (auto simp: end_call_def cp_run.simps(2) elim!: move_pod_SomeE move_server_SomeE
      split: if_splits option.splits rot_event.splits simp del: cp_step.simps)

lemma fleet_run_server:
  "fleet_run fe fl es = Some (fl', ces, outs) \<Longrightarrow>
     cp_run (fe_readTree fe) (fe_trustDomain fe) (fl_server fl) ces = Some (fl_server fl', outs)"
proof (induction es arbitrary: fl ces outs)
  case Nil
  then show ?case by simp
next
  case (Cons e es)
  then obtain fl1 c1 o1 c2 o2 where step: "fleet_step fe fl e = Some (fl1, c1, o1)"
    and run: "fleet_run fe fl1 es = Some (fl', c2, o2)" and eqs: "ces = c1 @ c2" "outs = o1 @ o2"
    unfolding fleet_run_Cons_iff by blast
  from fleet_step_server [OF step] Cons.IH [OF run] show ?case
    unfolding eqs by (auto simp: cp_run_append)
qed

section \<open>What the calls of a run are\<close>

text \<open>A pod has this token: it started with it, or the API server has issued it since.\<close>

definition pod_token :: "(nat \<Rightarrow> rotation) \<Rightarrow> fleet_event set \<Rightarrow> nat \<Rightarrow> ServiceAccountToken \<Rightarrow> bool" where
  "pod_token start E p token \<longleftrightarrow> Goroutine p (TokenReturns (Inr token)) \<in> E \<or> (\<exists>tc. tok (start p) = Some tc \<and> Token tc = token)"

lemma pod_token_mono: "pod_token start E p token \<Longrightarrow> E \<subseteq> F \<Longrightarrow> pod_token start F p token"
  by (auto simp: pod_token_def)

definition genuine_call :: "fleet_env \<Rightarrow> (nat \<Rightarrow> rotation) \<Rightarrow> fleet_event set \<Rightarrow> service_call \<Rightarrow> bool" where
  "genuine_call fe start E call \<longleftrightarrow> (\<forall>p. sc_pod call = Some p \<longrightarrow> sc_name call = ra_spiffeId (fe_args fe p) \<and>
     (\<exists>token. pod_token start E p token \<and> sc_header call = Some (fetch_header token)))"

fun logged_call :: "service_call list \<Rightarrow> cp_event \<Rightarrow> bool" where
  "logged_call calls (Intercept c t kube peer header) = (c < length calls \<and> header = sc_header (calls ! c))"
| "logged_call calls (Handle c t vault name) = (c < length calls \<and> name = sc_name (calls ! c))"

text \<open>The certificate and the pod uid of a pod are those of the answer to a call of its own.\<close>

definition owns_answer ::
  "fleet_env \<Rightarrow> service_call list \<Rightarrow> cp_output set \<Rightarrow> nat \<Rightarrow> CertManager \<Rightarrow> bool" where
  "owns_answer fe calls L p m \<longleftrightarrow> (\<exists>c resp cert. c < length calls \<and> sc_pod (calls ! c) = Some p \<and> Replied c (Inr resp) \<in> L \<and>
     X509KeyPair (fe_blocks fe) (fe_fits fe) (resp_certificate resp) (resp_private_key resp) = Inr cert \<and>
     CurrentCert m = Some cert \<and> CurrentPodUid m = resp_pod_uid resp)"

definition same_identity_as :: "CertManager \<Rightarrow> CertManager \<Rightarrow> bool" where
  "same_identity_as m m' \<longleftrightarrow> CurrentCert m = CurrentCert m' \<and> CurrentPodUid m = CurrentPodUid m'"

lemma same_identity_trans: "same_identity_as m m' \<Longrightarrow> same_identity_as m' m'' \<Longrightarrow> same_identity_as m m''"
  by (simp add: same_identity_as_def)

lemma owns_same: "owns_answer fe calls L p m' \<Longrightarrow> same_identity_as m m' \<Longrightarrow> owns_answer fe calls L p m"
  by (simp add: owns_answer_def same_identity_as_def)

definition fleet_inv ::
  "fleet_env \<Rightarrow> (nat \<Rightarrow> rotation) \<Rightarrow> fleet_event set \<Rightarrow> cp_event set \<Rightarrow> cp_output set \<Rightarrow> fleet \<Rightarrow> bool" where
  "fleet_inv fe start E C L fl \<longleftrightarrow>
     (\<forall>e \<in> C. logged_call (fl_calls fl) e) \<and>
     (\<forall>call \<in> set (fl_calls fl). genuine_call fe start E call) \<and>
     (\<forall>c resp. c < length (fl_calls fl) \<longrightarrow> sc_answer (fl_calls fl ! c) = Some (Inr resp) \<longrightarrow> Replied c (Inr resp) \<in> L) \<and>
     (\<forall>p c. fl_waits fl p = Some c \<longrightarrow> c < length (fl_calls fl) \<and> sc_pod (fl_calls fl ! c) = Some p) \<and>
     (\<forall>p tc. tok (fl_pods fl p) = Some tc \<longrightarrow> pod_token start E p (Token tc)) \<and>
     (\<forall>p. same_identity_as (cm (fl_pods fl p)) (cm (start p)) \<or> owns_answer fe (fl_calls fl) L p (cm (fl_pods fl p)))"

lemma fleet_start_inv: "fleet_inv fe start {} {} {} (fleet_start start)"
  by (auto simp: fleet_inv_def fleet_start_def same_identity_as_def pod_token_def)

text \<open>Growing lists of calls keep what has been said of the older ones.\<close>

definition extends_calls :: "service_call list \<Rightarrow> service_call list \<Rightarrow> bool" where
  "extends_calls calls calls' \<longleftrightarrow> length calls \<le> length calls' \<and>
     (\<forall>c < length calls. sc_pod (calls' ! c) = sc_pod (calls ! c) \<and> sc_header (calls' ! c) = sc_header (calls ! c) \<and>
        sc_name (calls' ! c) = sc_name (calls ! c))"

lemma extends_append: "extends_calls calls (calls @ new)"
  by (simp add: extends_calls_def nth_append)

lemma logged_extends: "logged_call calls e \<Longrightarrow> extends_calls calls calls' \<Longrightarrow> logged_call calls' e"
  by (cases e) (auto simp: extends_calls_def)

lemma owns_extends:
  "owns_answer fe calls L p m \<Longrightarrow> extends_calls calls calls' \<Longrightarrow> L \<subseteq> L' \<Longrightarrow> owns_answer fe calls' L' p m"
  unfolding owns_answer_def extends_calls_def by (metis less_le_trans subsetD)

lemma genuine_mono: "genuine_call fe start E call \<Longrightarrow> E \<subseteq> F \<Longrightarrow> genuine_call fe start F call"
  unfolding genuine_call_def using pod_token_mono by blast

lemma fleet_inv_mono: "fleet_inv fe start E C L fl \<Longrightarrow> E \<subseteq> F \<Longrightarrow> fleet_inv fe start F C L fl"
  unfolding fleet_inv_def using pod_token_mono [of start E _ _ F] genuine_mono [of fe start E _ F] by blast

text \<open>A goroutine sends at most one call, for its own identity and with a token of its own.\<close>

lemma rot_step_sends:
  assumes "rot_step parse a s e = Some (s', cs)" "\<And>tc. tok s = Some tc \<Longrightarrow> P (Token tc)" "\<And>t. e = TokenReturns (Inr t) \<Longrightarrow> P t"
  shows "(\<forall>tc. tok s' = Some tc \<longrightarrow> P (Token tc)) \<and>
    (cs = [] \<or> (\<exists>ns sa pod uid. cs = [CallRequestToken ns sa pod uid]) \<or> (\<exists>t. cs = [CallFetch t (ra_spiffeId a)] \<and> P t))"
  using assms
  by (cases e) (auto simp: loop_head_def split: if_splits option.splits list.splits sum.splits rot_pc.splits)

lemma extends_update: "extends_calls calls (calls[c := (calls ! c)\<lparr>sc_seen := b, sc_answer := a\<rparr>])"
  by (cases "c < length calls") (auto simp: extends_calls_def nth_list_update)

lemma answer_in_reply: "answer_in os = Some (Inr resp) \<Longrightarrow> \<exists>c. Replied c (Inr resp) \<in> set os"
  by (induction os rule: answer_in.induct) auto

lemma cp_step_answer:
  assumes "cp_step readTree trustDomain s e = Some (s', outs)" "answer_in outs = Some (Inr resp)"
  shows "Replied (case e of Intercept c t kube peer header \<Rightarrow> c | Handle c t vault name \<Rightarrow> c) (Inr resp) \<in> set outs"
proof -
  from answer_in_reply [OF assms(2)] obtain c where "Replied c (Inr resp) \<in> set outs" ..
  with assms(1) show ?thesis
    by (cases e) (auto simp: split_beta Let_def split: intercepted.splits option.splits)
qed

section \<open>Every step keeps the invariant\<close>

lemma send_inv:
  assumes "fleet_inv fe start E C L fl"
    and "cs = [] \<or> (\<exists>ns sa pod uid. cs = [CallRequestToken ns sa pod uid]) \<or>
      (\<exists>t. cs = [CallFetch t (ra_spiffeId (fe_args fe p))] \<and> pod_token start E p t)"
  shows "fleet_inv fe start E C L (send p cs fl)"
proof -
  have "fleet_inv fe start E C L (send p [CallFetch t (ra_spiffeId (fe_args fe p))] fl)" if "pod_token start E p t" for t
  proof -
    let ?new = "\<lparr>sc_pod = Some p, sc_header = Some (fetch_header t), sc_name = ra_spiffeId (fe_args fe p), sc_seen = False, sc_answer = None\<rparr>"
    note ext = extends_append [of "fl_calls fl" "[?new]"]
    have "genuine_call fe start E ?new" using that by (auto simp: genuine_call_def)
    then show ?thesis
      using assms(1) logged_extends [OF _ ext] owns_extends [OF _ ext subset_refl]
      unfolding fleet_inv_def by (auto simp: nth_append less_Suc_eq)
  qed
  with assms show ?thesis by auto
qed

lemma move_pod_inv:
  assumes "fleet_inv fe start E C L fl" "move_pod fe p e fl = Some fl'"
    and "\<And>t. e = TokenReturns (Inr t) \<Longrightarrow> pod_token start E p t"
    and "\<And>r. e = FetchReturns (Inr r) \<Longrightarrow> owns_answer fe (fl_calls fl) L p (install (cm (fl_pods fl p)) r)"
  shows "fleet_inv fe start E C L fl'"
  using assms(2)
proof (rule move_pod_SomeE)
  fix s cs
  let ?pod = "fl_pods fl p" and ?fl = "fl\<lparr>fl_pods := (fl_pods fl)(p := s)\<rparr>"
  assume step: "rot_step (fe_parse fe) (fe_args fe p) ?pod e = Some (s, cs)" and fl': "fl' = send p cs ?fl"
  have tokens: "\<And>tc. tok ?pod = Some tc \<Longrightarrow> pod_token start E p (Token tc)" using assms(1) by (auto simp: fleet_inv_def)
  note sends = rot_step_sends [where P = "pod_token start E p", OF step tokens assms(3)]
  have "same_identity_as (cm s) (cm ?pod) \<or> owns_answer fe (fl_calls fl) L p (cm s)"
  proof (cases "\<exists>r. e = FetchReturns (Inr r)")
    case True
    then obtain r where r: "e = FetchReturns (Inr r)" by blast
    with step have "cm s = install (cm ?pod) r" by (auto split: if_splits)
    with assms(4) [OF r] show ?thesis by simp
  next
    case False
    with rot_step_installed [OF step] show ?thesis
      by (auto simp: same_identity_as_def split: rot_event.splits sum.splits)
  qed
  moreover have "same_identity_as (cm ?pod) (cm (start p)) \<or> owns_answer fe (fl_calls fl) L p (cm ?pod)"
    using assms(1) by (auto simp: fleet_inv_def)
  ultimately have "same_identity_as (cm s) (cm (start p)) \<or> owns_answer fe (fl_calls fl) L p (cm s)"
    using same_identity_trans owns_same by blast
  with assms(1) sends have "fleet_inv fe start E C L ?fl"
    unfolding fleet_inv_def by simp
  with sends show "fleet_inv fe start E C L fl'" unfolding fl' by (intro send_inv) auto
qed

lemma move_server_inv:
  assumes "fleet_inv fe start E C L fl" "move_server fe c e fl = Some (fl', ces, outs)"
    and "logged_call (fl_calls fl) e" "(case e of Intercept c' t kube peer header \<Rightarrow> c' | Handle c' t vault name \<Rightarrow> c') = c"
  shows "fleet_inv fe start E (insert e C) (L \<union> set outs) fl' \<and> ces = [e]"
  using assms(2)
proof (rule move_server_SomeE)
  fix s
  let ?a = "case answer_in outs of None \<Rightarrow> sc_answer (fl_calls fl ! c) | Some a \<Rightarrow> Some a"
  let ?calls = "(fl_calls fl)[c := (fl_calls fl ! c)\<lparr>sc_seen := True, sc_answer := ?a\<rparr>]"
  assume step: "cp_step (fe_readTree fe) (fe_trustDomain fe) (fl_server fl) e = Some (s, outs)" and ces: "ces = [e]"
    and fl': "fl' = fl\<lparr>fl_server := s, fl_calls := ?calls\<rparr>"
  have c: "c < length (fl_calls fl)" using assms(3,4) by (cases e) auto
  note ext = extends_update [of "fl_calls fl" c ?a True]
  have "\<forall>e' \<in> insert e C. logged_call ?calls e'"
    using assms(1,3) logged_extends [OF _ ext] by (auto simp: fleet_inv_def)
  moreover have "\<forall>call \<in> set ?calls. genuine_call fe start E call"
  proof
    fix call
    assume "call \<in> set ?calls"
    with set_update_subset_insert [of "fl_calls fl"] have
      "call \<in> insert ((fl_calls fl ! c)\<lparr>sc_seen := True, sc_answer := ?a\<rparr>) (set (fl_calls fl))" by blast
    moreover have "genuine_call fe start E (fl_calls fl ! c)" using assms(1) c by (auto simp: fleet_inv_def)
    then have "genuine_call fe start E ((fl_calls fl ! c)\<lparr>sc_seen := True, sc_answer := ?a\<rparr>)" by (simp add: genuine_call_def)
    ultimately show "genuine_call fe start E call" using assms(1) by (auto simp: fleet_inv_def)
  qed
  moreover have "Replied c' (Inr resp) \<in> L \<union> set outs" if "c' < length ?calls" "sc_answer (?calls ! c') = Some (Inr resp)" for c' resp
    using that assms(1) c cp_step_answer [OF step] assms(4)
    by (cases "c' = c") (auto simp: fleet_inv_def split: option.splits)
  moreover have "\<forall>p c'. fl_waits fl p = Some c' \<longrightarrow> c' < length ?calls \<and> sc_pod (?calls ! c') = Some p"
    using assms(1) ext by (auto simp: fleet_inv_def extends_calls_def)
  moreover have "\<forall>p. same_identity_as (cm (fl_pods fl p)) (cm (start p)) \<or> owns_answer fe ?calls (L \<union> set outs) p (cm (fl_pods fl p))"
    using assms(1) owns_extends [OF _ ext, of fe L _ _ "L \<union> set outs"] by (auto simp: fleet_inv_def)
  ultimately show ?thesis
    using assms(1) unfolding fl' ces fleet_inv_def by simp
qed

text \<open>A sidecar installs only what answers the call it waits for.\<close>

lemma end_call_inv:
  assumes "fleet_inv fe start E C L fl" "end_call fe p answer fl = Some fl'"
    and "\<And>resp. answer = Inr resp \<Longrightarrow> \<exists>c. c < length (fl_calls fl) \<and> sc_pod (fl_calls fl ! c) = Some p \<and> Replied c (Inr resp) \<in> L"
  shows "fleet_inv fe start E C L fl'"
proof -
  let ?fl = "fl\<lparr>fl_waits := (fl_waits fl)(p := None)\<rparr>"
  have inv: "fleet_inv fe start E C L ?fl" using assms(1) by (auto simp: fleet_inv_def split: if_splits)
  have "owns_answer fe (fl_calls ?fl) L p (install (cm (fl_pods ?fl p)) r)"
    if fetched: "Fetch (\<lambda>md n. answer) (fe_blocks fe) (fe_fits fe) [] (ra_spiffeId (fe_args fe p)) = Inr r" for r
  proof -
    from fetched obtain resp cert where "answer = Inr resp"
      "X509KeyPair (fe_blocks fe) (fe_fits fe) (resp_certificate resp) (resp_private_key resp) = Inr cert"
      "r = \<lparr>IdCertificate = cert, PodUid = resp_pod_uid resp\<rparr>"
      by (auto simp: Fetch_def Let_def split: sum.splits)
    with assms(3) show ?thesis by (fastforce simp: owns_answer_def install_def)
  qed
  with move_pod_inv [OF inv assms(2) [unfolded end_call_def]] show ?thesis by simp
qed

lemma fleet_step_inv:
  assumes "fleet_inv fe start E C L fl" "fleet_step fe fl e = Some (fl', ces, outs)"
  shows "fleet_inv fe start (insert e E) (C \<union> set ces) (L \<union> set outs) fl'"
proof -
  note inv = fleet_inv_mono [OF assms(1) subset_insertI, of e]
  show ?thesis
  proof (cases e)
    case (Goroutine p ge)
    with assms(2) have "move_pod fe p ge fl = Some fl'" "ces = []" "outs = []" "\<nexists>r. ge = FetchReturns r"
      by (auto split: rot_event.splits)
    with move_pod_inv [OF inv this(1)] Goroutine show ?thesis by (simp add: pod_token_def)
  next
    case (Stranger header name)
    let ?new = "\<lparr>sc_pod = None, sc_header = header, sc_name = name, sc_seen = False, sc_answer = None\<rparr>"
    note ext = extends_append [of "fl_calls fl" "[?new]"]
    from assms(2) Stranger have "fl' = fl\<lparr>fl_calls := fl_calls fl @ [?new]\<rparr>" "ces = []" "outs = []" by auto
    moreover have "genuine_call fe start (insert e E) ?new" by (simp add: genuine_call_def)
    ultimately show ?thesis
      using inv logged_extends [OF _ ext] owns_extends [OF _ ext subset_refl]
      unfolding fleet_inv_def by (auto simp: nth_append less_Suc_eq)
  next
    case (Reaches c t kube peer)
    with assms(2) have "c < length (fl_calls fl)"
      "move_server fe c (Intercept c t kube peer (sc_header (fl_calls fl ! c))) fl = Some (fl', ces, outs)"
      by (auto split: if_splits)
    with move_server_inv [OF inv this(2)] show ?thesis by auto
  next
    case (Handled c t vault)
    with assms(2) have "c < length (fl_calls fl)"
      "move_server fe c (Handle c t vault (sc_name (fl_calls fl ! c))) fl = Some (fl', ces, outs)"
      by (auto split: if_splits)
    with move_server_inv [OF inv this(2)] show ?thesis by auto
  next
    case (Answered p)
    with assms(2) obtain c a where c: "fl_waits fl p = Some c" "sc_answer (fl_calls fl ! c) = Some a"
      and step: "end_call fe p a fl = Some fl'" and silent: "ces = []" "outs = []"
      by (auto split: option.splits)
    have "\<exists>c. c < length (fl_calls fl) \<and> sc_pod (fl_calls fl ! c) = Some p \<and> Replied c (Inr resp) \<in> L" if "a = Inr resp" for resp
      using assms(1) c that by (intro exI [of _ c]) (auto simp: fleet_inv_def)
    from end_call_inv [OF inv step this] show ?thesis unfolding silent by simp
  next
    case (CallLost p err)
    with assms(2) have "end_call fe p (Inl err) fl = Some fl'" "ces = []" "outs = []"
      by (auto split: if_splits)
    with end_call_inv [OF inv this(1)] show ?thesis by simp
  qed
qed

lemma fleet_run_inv:
  "fleet_inv fe start E C L fl \<Longrightarrow> fleet_run fe fl es = Some (fl', ces, outs) \<Longrightarrow>
     fleet_inv fe start (E \<union> set es) (C \<union> set ces) (L \<union> set outs) fl'"
proof (induction es arbitrary: E C L fl ces outs)
  case Nil
  then show ?case by simp
next
  case (Cons e es)
  from Cons.prems(2) obtain fl1 c1 o1 c2 o2 where step: "fleet_step fe fl e = Some (fl1, c1, o1)"
    and run: "fleet_run fe fl1 es = Some (fl', c2, o2)" and eqs: "ces = c1 @ c2" "outs = o1 @ o2"
    unfolding fleet_run_Cons_iff by blast
  from Cons.IH [OF fleet_step_inv [OF Cons.prems(1) step] run] show ?case
    by (simp add: eqs Un_assoc)
qed

section \<open>One renewal among others\<close>

text \<open>What keeps off a call, the thread it was let in on, and the sidecar that waits for it.\<close>

fun elsewhere :: "nat \<Rightarrow> nat \<Rightarrow> nat \<Rightarrow> fleet_event \<Rightarrow> bool" where
  "elsewhere c t p (Reaches c' t' kube peer) = (t' \<noteq> t)"
| "elsewhere c t p (Handled c' t' vault) = (c' \<noteq> c)"
| "elsewhere c t p (CallLost p' err) = (p' \<noteq> p)"
| "elsewhere c t p _ = True"

text \<open>The call has been let in, the thread carries the name \<open>who\<close>, and the sidecar waits.\<close>

definition let_through :: "nat \<Rightarrow> nat \<Rightarrow> nat \<Rightarrow> SpiffeIdentity \<Rightarrow> string \<Rightarrow> rotation \<Rightarrow> fleet \<Rightarrow> bool" where
  "let_through c t p si who pod fl \<longleftrightarrow> c < length (fl_calls fl) \<and> fl_waits fl p = Some c \<and> fl_pods fl p = pod \<and>
     sc_seen (fl_calls fl ! c) \<and> sc_answer (fl_calls fl ! c) = None \<and> sc_name (fl_calls fl ! c) = si_spiffeId si \<and>
     cp_calls (fl_server fl) c = Some (ctx_of si) \<and> cp_mdc (fl_server fl) t ''serviceIdentity'' = Some who"

lemma send_keeps:
  "q \<noteq> p \<Longrightarrow> fl_waits (send q cs fl) p = fl_waits fl p"
  "c < length (fl_calls fl) \<Longrightarrow> c < length (fl_calls (send q cs fl)) \<and> fl_calls (send q cs fl) ! c = fl_calls fl ! c"
  by (induction q cs fl rule: send.induct) (auto simp: nth_append)

lemma move_pod_keeps:
  assumes "let_through c t p si who pod fl" "rpc_at pod = PFetchRotate" "move_pod fe q e fl = Some fl'" "q \<noteq> p \<or> (\<nexists>r. e = FetchReturns r)"
  shows "let_through c t p si who pod fl'"
  using assms(3)
proof (rule move_pod_SomeE)
  fix s cs
  assume step: "rot_step (fe_parse fe) (fe_args fe q) (fl_pods fl q) e = Some (s, cs)"
    and fl': "fl' = send q cs (fl\<lparr>fl_pods := (fl_pods fl)(q := s)\<rparr>)"
  have "q \<noteq> p"
    using assms(1,2,4) step by (cases e) (auto simp: let_through_def)
  with assms(1) show ?thesis
    unfolding fl' let_through_def by (simp add: send_keeps)
qed

lemma move_server_keeps:
  assumes "let_through c t p si who pod fl" "move_server fe c' e fl = Some (fl', ces, outs)" "c' \<noteq> c" "apart c t e"
  shows "let_through c t p si who pod fl'"
  using assms(2)
proof (rule move_server_SomeE)
  fix s
  assume "cp_step (fe_readTree fe) (fe_trustDomain fe) (fl_server fl) e = Some (s, outs)"
    "fl' = fl\<lparr>fl_server := s, fl_calls := (fl_calls fl)[c' := (fl_calls fl ! c')\<lparr>sc_seen := True,
       sc_answer := (case answer_in outs of None \<Rightarrow> sc_answer (fl_calls fl ! c') | Some a \<Rightarrow> Some a)\<rparr>]\<rparr>"
  with cp_step_apart [OF this(1) assms(4)] assms(1,3) show ?thesis by (simp add: let_through_def)
qed

lemma fleet_step_keeps:
  assumes "let_through c t p si who pod fl" "rpc_at pod = PFetchRotate" "elsewhere c t p e" "fleet_step fe fl e = Some (fl', ces, outs)"
  shows "let_through c t p si who pod fl'"
proof (cases e)
  case (Goroutine q ge)
  with assms(4) have "move_pod fe q ge fl = Some fl'" "\<nexists>r. ge = FetchReturns r" by (auto split: rot_event.splits)
  with move_pod_keeps [OF assms(1,2)] show ?thesis by blast
next
  case (Stranger header name)
  with assms(1,4) show ?thesis by (auto simp: let_through_def nth_append)
next
  case (Reaches c' t' kube peer)
  with assms(1,4) have "c' \<noteq> c" "move_server fe c' (Intercept c' t' kube peer (sc_header (fl_calls fl ! c'))) fl = Some (fl', ces, outs)"
    by (auto simp: let_through_def split: if_splits)
  with move_server_keeps [OF assms(1) this(2,1)] assms(3) Reaches show ?thesis by simp
next
  case (Handled c' t' vault)
  with assms(3,4) have "c' \<noteq> c" "move_server fe c' (Handle c' t' vault (sc_name (fl_calls fl ! c'))) fl = Some (fl', ces, outs)"
    by (auto split: if_splits)
  with move_server_keeps [OF assms(1) this(2,1)] show ?thesis by simp
next
  case (Answered q)
  with assms(1,4) have "q \<noteq> p" by (auto simp: let_through_def)
  with assms(1) have waits: "let_through c t p si who pod (fl\<lparr>fl_waits := (fl_waits fl)(q := None)\<rparr>)" by (simp add: let_through_def)
  from assms(4) Answered \<open>q \<noteq> p\<close> show ?thesis
    by (auto simp: end_call_def intro: move_pod_keeps [OF waits assms(2)] split: option.splits)
next
  case (CallLost q err)
  with assms(3) have "q \<noteq> p" by simp
  with assms(1) have waits: "let_through c t p si who pod (fl\<lparr>fl_waits := (fl_waits fl)(q := None)\<rparr>)" by (simp add: let_through_def)
  from assms(4) CallLost \<open>q \<noteq> p\<close> show ?thesis
    by (auto simp: end_call_def intro: move_pod_keeps [OF waits assms(2)] split: if_splits)
qed

lemma fleet_run_keeps:
  "fleet_run fe fl es = Some (fl', ces, outs) \<Longrightarrow> let_through c t p si who pod fl \<Longrightarrow> rpc_at pod = PFetchRotate \<Longrightarrow>
     list_all (elsewhere c t p) es \<Longrightarrow> let_through c t p si who pod fl'"
  by (induction es arbitrary: fl ces outs) (auto simp: fleet_run_Cons_iff dest: fleet_step_keeps)

text \<open>A call that reaches the interceptor with an accepted token is let in, and its thread takes its name.\<close>

lemma reaches_step:
  assumes "c < length (fl_calls fl)" "\<not> sc_seen (fl_calls fl ! c)" "sc_answer (fl_calls fl ! c) = None"
    and "sc_header (fl_calls fl ! c) = Some header"
    and "accepted (fe_readTree fe) (fe_trustDomain fe) kube header si"
  shows "\<exists>fl0 ces log. fleet_step fe fl (Reaches c t kube peer) = Some (fl0, ces, map (\<lambda>a. Effect c (Audit a)) log) \<and>
    fl_pods fl0 = fl_pods fl \<and> fl_waits fl0 = fl_waits fl \<and> fl_calls fl0 = (fl_calls fl)[c := (fl_calls fl ! c)\<lparr>sc_seen := True, sc_answer := None\<rparr>] \<and>
    cp_calls (fl_server fl0) = (cp_calls (fl_server fl))(c \<mapsto> ctx_of si) \<and>
    cp_mdc (fl_server fl0) t ''serviceIdentity'' = Some (si_spiffeId si)"
proof -
  from step_intercept [OF assms(5), of "fl_server fl" c t peer] obtain s log where
    s: "cp_step (fe_readTree fe) (fe_trustDomain fe) (fl_server fl) (Intercept c t kube peer (Some header)) =
        Some (s, map (\<lambda>a. Effect c (Audit a)) log)"
      "cp_calls s = (cp_calls (fl_server fl))(c \<mapsto> ctx_of si)" "cp_mdc s t ''serviceIdentity'' = Some (si_spiffeId si)" by auto
  have no: "answer_in (map (\<lambda>a. Effect c (Audit a)) log) = None" by (induction log) simp_all
  from assms s no show ?thesis
    by (intro exI [of _ "fl\<lparr>fl_server := s, fl_calls := (fl_calls fl)[c := (fl_calls fl ! c)\<lparr>sc_seen := True, sc_answer := None\<rparr>]\<rparr>"]
        exI [of _ "[Intercept c t kube peer (Some header)]"] exI [of _ log])
      (simp add: move_server_def del: cp_step.simps)
qed

text \<open>Its method has Vault issue for the caller's name and the name on the thread, and the sidecar installs the result.\<close>

definition reply_with :: "string \<Rightarrow> string \<Rightarrow> string \<Rightarrow> string \<Rightarrow> SpiffeIdentity \<Rightarrow> CertificateResponse" where
  "reply_with cert key ca n si = \<lparr>resp_certificate = cert, resp_private_key = key, resp_issuing_ca = ca, resp_serial_number = n,
     resp_pod_uid = known [] (si_podUid si)\<rparr>"

lemma let_through_served:
  assumes "let_through c t p si who pod fl" "rpc_at pod = PFetchRotate" "last_component (si_spiffeId si) = Some account"
    and "vault account who = Inr (Some d)"
      "d ''certificate'' = Some cert" "d ''private_key'' = Some key" "d ''issuing_ca'' = Some ca" "d ''serial_number'' = Some n"
    and "X509KeyPair (fe_blocks fe) (fe_fits fe) cert key = Inr pair"
  shows "\<exists>fl' ces effects. fleet_run fe fl [Handled c t vault, Answered p] =
      Some (fl', ces, map (Effect c) effects @ [Replied c (Inr (reply_with cert key ca n si))]) \<and>
    fl_pods fl' p = pod\<lparr>cm := install (cm pod) \<lparr>IdCertificate = pair, PodUid = known [] (si_podUid si)\<rparr>, rpc_at := PLoop\<rparr>"
proof -
  let ?get = "getCertificate vault (cp_mdc (fl_server fl) t) (ctx_of si) (si_spiffeId si)"
  have effects: "answer_in (map (Effect c) es @ os) = answer_in os" for es os by (induction es) simp_all
  from assms(1,3-8) have reply: "fst ?get = Inr (reply_with cert key ca n si)"
    by (simp add: let_through_def getCertificate_def issueCertificate_def known_def reply_with_def)
  from assms(1) step_handle [of "fl_server fl" c "ctx_of si" "fe_readTree fe" "fe_trustDomain fe" t vault "si_spiffeId si"] reply
  obtain s' where "cp_step (fe_readTree fe) (fe_trustDomain fe) (fl_server fl) (Handle c t vault (si_spiffeId si)) =
      Some (s', map (Effect c) (snd ?get) @ [Replied c (Inr (reply_with cert key ca n si))])"
    unfolding let_through_def by auto
  with assms(1,2,9) show ?thesis
    by (simp add: fleet_run.simps(2) move_server_def let_through_def effects end_call_def move_pod_def Fetch_def reply_with_def
        del: cp_step.simps) blast
qed

text \<open>
  So a call is answered with a certificate for its own name if its method runs on the thread it was let in on and nothing else has been
  let in there since, whatever else has happened in the fleet.
\<close>

lemma fleet_renewal:
  assumes "c < length (fl_calls fl)" "fl_waits fl p = Some c" "rpc_at (fl_pods fl p) = PFetchRotate"
    and "\<not> sc_seen (fl_calls fl ! c)" "sc_answer (fl_calls fl ! c) = None" "sc_header (fl_calls fl ! c) = Some header"
      "sc_name (fl_calls fl ! c) = si_spiffeId si"
    and "accepted (fe_readTree fe) (fe_trustDomain fe) kube header si"
    and "fleet_run fe fl (Reaches c t kube peer # mid) = Some (fl1, ces, outs)" "list_all (elsewhere c t p) mid"
  shows "let_through c t p si (si_spiffeId si) (fl_pods fl p) fl1"
proof -
  from reaches_step [OF assms(1,4-6,8), of t peer] assms(9) obtain fl0 c1 o1 where
    "fleet_run fe fl0 mid = Some (fl1, c1, o1)" and fl0: "fl_pods fl0 = fl_pods fl" "fl_waits fl0 = fl_waits fl"
      "fl_calls fl0 = (fl_calls fl)[c := (fl_calls fl ! c)\<lparr>sc_seen := True, sc_answer := None\<rparr>]"
      "cp_calls (fl_server fl0) = (cp_calls (fl_server fl))(c \<mapsto> ctx_of si)"
      "cp_mdc (fl_server fl0) t ''serviceIdentity'' = Some (si_spiffeId si)"
    unfolding fleet_run_Cons_iff by (auto simp del: fleet_step.simps)
  moreover have "let_through c t p si (si_spiffeId si) (fl_pods fl p) fl0"
    using assms(1,2,5,7) fl0 by (simp add: let_through_def)
  ultimately show ?thesis using fleet_run_keeps assms(3,10) by blast
qed

section \<open>Properties\<close>

text \<open>Vault makes a new key for every certificate.\<close>

definition fresh_keys :: "cp_output list \<Rightarrow> bool" where
  "fresh_keys outs \<longleftrightarrow> (\<forall>c c' r r'. Replied c (Inr r) \<in> set outs \<longrightarrow> Replied c' (Inr r') \<in> set outs \<longrightarrow>
     resp_private_key r = resp_private_key r' \<longrightarrow> c = c')"

lemma X509KeyPair_key: "X509KeyPair blocks fits cert key = Inr pair \<Longrightarrow> PrivateKey pair = key"
  by (auto simp: X509KeyPair_def split: list.splits if_splits)


section \<open>A concrete fleet\<close>

text \<open>Pod 0 renews its certificate; between the two halves of its call another client calls, and the timer of pod 1 fires.\<close>

definition example_fleet_env :: fleet_env where
  "example_fleet_env = \<lparr>fe_parse = example_parse, fe_blocks = (\<lambda>pem. [pem]), fe_fits = (\<lambda>der key. True),
     fe_args = (\<lambda>p. example_args\<lparr>ra_spiffeId := si_spiffeId (example_identity (if p = 0 then ''cart'' else ''web''))\<rparr>),
     fe_readTree = example_tree, fe_trustDomain = ''td''\<rparr>"

definition example_pods :: "nat \<Rightarrow> rotation" where
  "example_pods p = example_state\<lparr>rpc_at := PSleep 1\<rparr>"

definition fleet_token :: ServiceAccountToken where
  "fleet_token = ''h.'' @ b64url_encode ''cart'' @ ''.s''"

definition fleet_before :: "fleet_event list" where
  "fleet_before = [Goroutine 0 TimerFires, Goroutine 0 (TokenReturns (Inr fleet_token))]"

definition fleet_after :: "fleet_event list" where
  "fleet_after = [Reaches 0 5 example_kube example_grpc_peer, Stranger None ''x'', Goroutine 1 TimerFires]"

lemma fleet_token_header: "fetch_header fleet_token = example_header ''cart''"
  by code_simp

lemma fleet_before_run:
  "\<exists>fl. fleet_run example_fleet_env (fleet_start example_pods) fleet_before = Some (fl, [], []) \<and>
     fl_calls fl = [\<lparr>sc_pod = Some 0, sc_header = Some (fetch_header fleet_token), sc_name = si_spiffeId (example_identity ''cart''),
       sc_seen = False, sc_answer = None\<rparr>] \<and>
     fl_waits fl 0 = Some 0 \<and> rpc_at (fl_pods fl 0) = PFetchRotate \<and> rpc_at (fl_pods fl 1) = PSleep 1 \<and> fl_server fl = cp_start"
  by (simp add: fleet_before_def fleet_run.simps(2) fleet_start_def move_pod_def example_pods_def example_state_def example_fleet_env_def)

lemma fleet_after_run:
  assumes "fl_calls fl = [\<lparr>sc_pod = Some 0, sc_header = Some (example_header ''cart''), sc_name = name, sc_seen = False, sc_answer = None\<rparr>]"
    "rpc_at (fl_pods fl 1) = PSleep 1" "fl_server fl = cp_start"
  shows "\<exists>fl1 ces log. fleet_run example_fleet_env fl fleet_after = Some (fl1, ces, map (\<lambda>a. Effect 0 (Audit a)) log)"
proof -
  from step_intercept [OF example_accepted(1), of cp_start 0 5 example_grpc_peer] obtain s log where
    "cp_step example_tree ''td'' cp_start (Intercept 0 5 example_kube example_grpc_peer (Some (example_header ''cart''))) =
       Some (s, map (\<lambda>a. Effect 0 (Audit a)) log)" by blast
  with assms show ?thesis
    by (simp add: fleet_after_def fleet_run.simps(2) move_server_def move_pod_def example_fleet_env_def del: cp_step.simps) blast
qed


end
