(* ===== verification/ForeignIdentity.thy ===== *)
theory ForeignIdentity
  imports Fleet
begin

text \<open>
  What the control plane's use of the thread's logging context means for the mesh: from two calls at the certificate service,
  through the rotation of one sidecar, to the log of a third.
\<close>

section \<open>Lemmas\<close>

lemma accepted_prefix:
  assumes "accepted readTree trustDomain kube header si"
  shows "HasPrefix (si_spiffeId si) ''spiffe://''"
  using assms
  by (auto simp: accepted_def getSpiffeIdentity_def Let_def HasPrefix_def bind_result_Inr_iff split: if_splits option.splits sum.splits)

text \<open>
  A call that has been let in on one thread, when another call is let in on the thread on which its method will run: that
  thread carries the name of the other caller.
\<close>

lemma overtaken_call:
  assumes "b < length (fl_calls fl)" "fl_waits fl p = Some b" "rpc_at (fl_pods fl p) = PFetchRotate"
    and "\<not> sc_seen (fl_calls fl ! b)" "sc_answer (fl_calls fl ! b) = None" "sc_header (fl_calls fl ! b) = Some headerB"
      "sc_name (fl_calls fl ! b) = si_spiffeId B"
    and "a < length (fl_calls fl)" "a \<noteq> b" "\<not> sc_seen (fl_calls fl ! a)" "sc_answer (fl_calls fl ! a) = None"
      "sc_header (fl_calls fl ! a) = Some headerA"
    and "accepted (fe_readTree fe) (fe_trustDomain fe) kA headerA A" "accepted (fe_readTree fe) (fe_trustDomain fe) kB headerB B"
    and "fleet_run fe fl (Reaches b t1 kB uB # Reaches a t2 kA uA # mid) = Some (fl1, ces, outs)" "list_all (elsewhere b t2 p) mid"
  shows "let_through b t2 p B (si_spiffeId A) (fl_pods fl p) fl1"
proof -
  from reaches_step [OF assms(1,4-6,14), of t1 uB] assms(15) obtain flb c1 o1 where
    run: "fleet_run fe flb (Reaches a t2 kA uA # mid) = Some (fl1, c1, o1)"
    and flb: "fl_pods flb = fl_pods fl" "fl_waits flb = fl_waits fl"
      "fl_calls flb = (fl_calls fl)[b := (fl_calls fl ! b)\<lparr>sc_seen := True, sc_answer := None\<rparr>]"
      "cp_calls (fl_server flb) = (cp_calls (fl_server fl))(b \<mapsto> ctx_of B)"
    unfolding fleet_run_Cons_iff [of fe fl] by (auto simp del: fleet_step.simps)
  have a: "a < length (fl_calls flb)" "\<not> sc_seen (fl_calls flb ! a)" "sc_answer (fl_calls flb ! a) = None"
    "sc_header (fl_calls flb ! a) = Some headerA"
    using assms(8-12) flb(3) by simp_all
  from reaches_step [OF a assms(13), of t2 uA] run obtain fla c2 o2 where
    rest: "fleet_run fe fla mid = Some (fl1, c2, o2)" and fla: "fl_pods fla = fl_pods flb" "fl_waits fla = fl_waits flb"
      "fl_calls fla = (fl_calls flb)[a := (fl_calls flb ! a)\<lparr>sc_seen := True, sc_answer := None\<rparr>]"
      "cp_calls (fl_server fla) = (cp_calls (fl_server flb))(a \<mapsto> ctx_of A)"
      "cp_mdc (fl_server fla) t2 ''serviceIdentity'' = Some (si_spiffeId A)"
    unfolding fleet_run_Cons_iff by (auto simp del: fleet_step.simps)
  have "let_through b t2 p B (si_spiffeId A) (fl_pods fl p) fla"
    using assms(1,2,7,9) flb fla by (simp add: let_through_def)
  from fleet_run_keeps [OF rest this assms(3,16)] show ?thesis .
qed

section \<open>Properties\<close>

text \<open>
  C7: Whose requests are these? Let the sidecar of \<open>B\<close> renew its certificate, let the call of another caller \<open>A\<close> be let in on the
  thread on which \<open>B\<close>'s call is then handled, whatever else goes on in the mesh, and let Vault issue the names it is asked for. Then \<open>B\<close>'s sidecar
  installs a certificate with its own pod uid that carries \<open>A\<close>'s SPIFFE id; and when it connects to any other pod with it, that
  pod's sidecar passes its request on and logs it under \<open>A\<close>'s identity.
\<close>

theorem foreign_identity_in_peer_log:
  assumes "b < length (fl_calls fl)" "fl_waits fl p = Some b" "rpc_at (fl_pods fl p) = PFetchRotate"
    and "\<not> sc_seen (fl_calls fl ! b)" "sc_answer (fl_calls fl ! b) = None" "sc_header (fl_calls fl ! b) = Some headerB"
      "sc_name (fl_calls fl ! b) = si_spiffeId B"
    and "a < length (fl_calls fl)" "a \<noteq> b" "\<not> sc_seen (fl_calls fl ! a)" "sc_answer (fl_calls fl ! a) = None"
      "sc_header (fl_calls fl ! a) = Some headerA"
    and "accepted (fe_readTree fe) (fe_trustDomain fe) kA headerA A" "accepted (fe_readTree fe) (fe_trustDomain fe) kB headerB B"
    and "fleet_run fe fl (Reaches b t1 kB uB # Reaches a t2 kA uA # mid) = Some (fl1, ces, outs)" "list_all (elsewhere b t2 p) mid"
    and "last_component (si_spiffeId B) = Some account" "CHR ''/'' \<notin> set account" "vault account (si_spiffeId A) = Inr (Some d)"
      "d ''certificate'' = Some cert" "d ''private_key'' = Some key" "d ''issuing_ca'' = Some ca" "d ''serial_number'' = Some n"
    and "fe_blocks fe cert = der # ders" "fe_fits fe der key" "names_asked (cparse der) account (si_spiffeId A)"
      "si_spiffeId A \<in> set (DNSNames (cparse der))"
    and "pod_runs blocksC fitsC v port envs st es" "CurrentCert m = Some own"
    and "verify_client w (p_caCertPool (st_proxy st)) (List.map cparse (der # ders))"
    and "app_dial w (''localhost:'' @ int_str port)" "client_stream w = [Inr req]"
  shows "\<exists>fl2 ces2 outs2 pair. fleet_run fe fl1 [Handled b t2 vault, Answered p] = Some (fl2, ces2, outs2) \<and>
    GetCurrentCertificate (cm (fl_pods fl2 p)) = Some pair \<and> CurrentPodUid (cm (fl_pods fl2 p)) = known [] (si_podUid B) \<and>
    relayed (callee_handler v port st (w, m, presented cparse pair)) = [rewrite_req req] \<and>
    identities (callee_handler v port st (w, m, presented cparse pair)) = [si_spiffeId A]"
proof -
  let ?pair = "\<lparr>Certificate = Some (der # ders), PrivateKey = key\<rparr>"
  have "X509KeyPair (fe_blocks fe) (fe_fits fe) cert key = Inr ?pair"
    using assms(24,25) by (simp add: X509KeyPair_def)
  from let_through_served [where d = d and vault = vault, OF overtaken_call [OF assms(1-16)] assms(3,17,19-23) this]
  obtain fl2 ces2 outs2 where "fleet_run fe fl1 [Handled b t2 vault, Answered p] = Some (fl2, ces2, outs2)"
    and pod: "fl_pods fl2 p = (fl_pods fl p)\<lparr>cm := install (cm (fl_pods fl p)) \<lparr>IdCertificate = ?pair, PodUid = known [] (si_podUid B)\<rparr>,
      rpc_at := PLoop\<rparr>" by blast
  moreover have "Certificate ?pair = Some (der # ders)" by simp
  from callee_relays [OF assms(28,29) this assms(30-32)] identity_of_names [OF assms(26,18) accepted_prefix [OF assms(13)]] assms(27)
  have "relayed (callee_handler v port st (w, m, presented cparse ?pair)) = [rewrite_req req]"
    "identities (callee_handler v port st (w, m, presented cparse ?pair)) = [si_spiffeId A]"
    by simp_all
  ultimately show ?thesis
    by (intro exI [of _ fl2] exI [of _ ces2] exI [of _ outs2] exI [of _ ?pair]) (simp add: GetCurrentCertificate_def install_def)
qed

section \<open>A concrete mesh\<close>

text \<open>Pod 1 (\<open>web\<close>) renews, the call of \<open>cart\<close> overtakes it on thread 2, and the pod of \<open>Cluster\<close> is the peer.\<close>

definition overtaken_before :: "fleet_event list" where
  "overtaken_before = [Goroutine 1 TimerFires, Goroutine 1 (TokenReturns (Inr (''h.'' @ b64url_encode ''web'' @ ''.s''))),
     Stranger (Some (example_header ''cart'')) ''x'']"

lemma web_token_header: "fetch_header (''h.'' @ b64url_encode ''web'' @ ''.s'') = example_header ''web''"
  by code_simp

lemma overtaken_before_run:
  "\<exists>fl. fleet_run example_fleet_env (fleet_start example_pods) overtaken_before = Some (fl, [], []) \<and>
     fl_calls fl = [\<lparr>sc_pod = Some 1, sc_header = Some (fetch_header (''h.'' @ b64url_encode ''web'' @ ''.s'')),
         sc_name = si_spiffeId (example_identity ''web''), sc_seen = False, sc_answer = None\<rparr>,
       \<lparr>sc_pod = None, sc_header = Some (example_header ''cart''), sc_name = ''x'', sc_seen = False, sc_answer = None\<rparr>] \<and>
     fl_waits fl 1 = Some 0 \<and> rpc_at (fl_pods fl 1) = PFetchRotate"
  by (simp add: overtaken_before_def fleet_run.simps(2) fleet_start_def move_pod_def example_pods_def example_state_def example_fleet_env_def)

definition foreign_parse :: "string \<Rightarrow> x509_cert" where
  "foreign_parse der = \<lparr>Raw = der, DNSNames = [si_spiffeId (example_identity ''cart'')], CommonName = ''web'', NotAfter = 0\<rparr>"

theorem foreign_identity_in_peer_log_witness:
  "\<exists>fl ces outs pair. fleet_run example_fleet_env (fleet_start example_pods)
      (overtaken_before @ [Reaches 0 1 example_kube example_grpc_peer, Reaches 1 2 example_kube example_grpc_peer,
         Handled 0 2 example_vault, Answered 1]) = Some (fl, ces, outs) \<and>
    GetCurrentCertificate (cm (fl_pods fl 1)) = Some pair \<and>
    identities (callee_handler example_values 8080 example_pod_start (cluster_wB, cm (st_rotation example_pod_start),
      presented foreign_parse pair)) = [si_spiffeId (example_identity ''cart'')]"
proof -
  obtain fl where before: "fleet_run example_fleet_env (fleet_start example_pods) overtaken_before = Some (fl, [], [])"
    and calls: "fl_calls fl = [\<lparr>sc_pod = Some 1, sc_header = Some (example_header ''web''),
         sc_name = si_spiffeId (example_identity ''web''), sc_seen = False, sc_answer = None\<rparr>,
       \<lparr>sc_pod = None, sc_header = Some (example_header ''cart''), sc_name = ''x'', sc_seen = False, sc_answer = None\<rparr>]"
    and waits: "fl_waits fl 1 = Some 0" "rpc_at (fl_pods fl 1) = PFetchRotate"
    using overtaken_before_run unfolding web_token_header by blast
  have b: "0 < length (fl_calls fl)" "\<not> sc_seen (fl_calls fl ! 0)" "sc_answer (fl_calls fl ! 0) = None"
    "sc_header (fl_calls fl ! 0) = Some (example_header ''web'')" "sc_name (fl_calls fl ! 0) = si_spiffeId (example_identity ''web'')"
    and a: "1 < length (fl_calls fl)" "(1 :: nat) \<noteq> 0" "\<not> sc_seen (fl_calls fl ! 1)" "sc_answer (fl_calls fl ! 1) = None"
    "sc_header (fl_calls fl ! 1) = Some (example_header ''cart'')"
    by (simp_all add: calls)
  have acc: "accepted (fe_readTree example_fleet_env) (fe_trustDomain example_fleet_env) example_kube (example_header ''cart'')
      (example_identity ''cart'')"
    "accepted (fe_readTree example_fleet_env) (fe_trustDomain example_fleet_env) example_kube (example_header ''web'')
      (example_identity ''web'')"
    using example_accepted by (simp_all add: example_fleet_env_def)
  from reaches_step [OF b(1-4) acc(2), of 1 example_grpc_peer] obtain flb c1 l1 where
    reach_b: "fleet_step example_fleet_env fl (Reaches 0 1 example_kube example_grpc_peer) = Some (flb, c1, map (\<lambda>a. Effect 0 (Audit a)) l1)"
    and flb: "fl_calls flb = (fl_calls fl)[0 := (fl_calls fl ! 0)\<lparr>sc_seen := True, sc_answer := None\<rparr>]" by blast
  have "1 < length (fl_calls flb)" "\<not> sc_seen (fl_calls flb ! 1)" "sc_answer (fl_calls flb ! 1) = None"
    "sc_header (fl_calls flb ! 1) = Some (example_header ''cart'')"
    using a by (simp_all add: flb)
  from reaches_step [OF this acc(1), of 2 example_grpc_peer] reach_b obtain fl1 c2 o2 where
    reach: "fleet_run example_fleet_env fl (Reaches 0 1 example_kube example_grpc_peer # Reaches 1 2 example_kube example_grpc_peer # []) =
      Some (fl1, c2, o2)"
    unfolding fleet_run_Cons_iff by (auto simp del: fleet_step.simps)
  have vault: "example_vault ''web'' (si_spiffeId (example_identity ''cart'')) = Inr (Some (\<lambda>k. Some (k @ '':web'')))"
    by (simp add: example_vault_def)
  have cert: "CHR ''/'' \<notin> set ''web''" "fe_blocks example_fleet_env ''certificate:web'' = [''certificate:web'']"
    "fe_fits example_fleet_env ''certificate:web'' ''private_key:web''"
    "names_asked (foreign_parse ''certificate:web'') ''web'' (si_spiffeId (example_identity ''cart''))"
    "si_spiffeId (example_identity ''cart'') \<in> set (DNSNames (foreign_parse ''certificate:web''))"
    by (simp_all add: example_fleet_env_def names_asked_def foreign_parse_def)
  have d: "(\<lambda>k. Some (k @ '':web'')) ''certificate'' = Some ''certificate:web''" "(\<lambda>k. Some (k @ '':web'')) ''private_key'' = Some ''private_key:web''"
    "(\<lambda>k. Some (k @ '':web'')) ''issuing_ca'' = Some ''issuing_ca:web''" "(\<lambda>k. Some (k @ '':web'')) ''serial_number'' = Some ''serial_number:web''"
    by simp_all
  have wire: "verify_client cluster_wB (p_caCertPool (st_proxy example_pod_start)) (List.map foreign_parse [''certificate:web''])"
    "app_dial cluster_wB (''localhost:'' @ int_str 8080)" "client_stream cluster_wB = [Inr example_req]"
    by (simp_all add: cluster_wB_def example_world_def example_pod_started)
  have nil: "list_all (elsewhere 0 2 1) []" by simp
  from foreign_identity_in_peer_log [where vault = example_vault,
      OF b(1) waits b(2-5) a acc reach nil example_names(2) cert(1) vault d cert(2-5)
      example_pod_runs [OF rot_events.simps(1)] example_pod_started(1) wire]
  obtain fl2 ces2 outs2 pair where served: "fleet_run example_fleet_env fl1 [Handled 0 2 example_vault, Answered 1] = Some (fl2, ces2, outs2)"
    and pair: "GetCurrentCertificate (cm (fl_pods fl2 1)) = Some pair"
      "identities (callee_handler example_values 8080 example_pod_start (cluster_wB, cm (st_rotation example_pod_start),
        presented foreign_parse pair)) = [si_spiffeId (example_identity ''cart'')]"
    by blast
  from fleet_run_appendI [OF before fleet_run_appendI [OF reach served], unfolded append_Cons append_Nil] pair
  show ?thesis by blast
qed

end
