(* ===== verification/Spec2Isabelle.thy ===== *)
theory Spec2Isabelle
  imports AsyncLog Logger Config Identity CertManager RWLock SharedCert HttpRelay CopyRelay Proxy ProxyRun
    DirectMode Mesh Firewall MainProg Netfilter InitLog RotationLive GoUrl System Pod Cluster
    SharedSystem ControlPlane HttpApi Issuance Json Webhook AnnotatedPod
    ProxyLog Outage OutageSystem Fleet ForeignIdentity
begin

text \<open>
  A verification library for Sentinel Zero Trust, a small service mesh for Kubernetes. The Go code
  of the mesh has two programs: the data plane (\<open>data-plane/\<close>), a sidecar proxy that
  terminates and originates mutual TLS for its pod and keeps its own certificate fresh, and
  \<open>sentinel-init/\<close>, an init container that installs the packet rules which send the pod's traffic to the
  sidecar. The control plane (\<open>control-plane/\<close>), which injects both into annotated pods and issues the
  certificates, is written in Java.

  \<^bold>\<open>How the parts interact.\<close> \<open>main\<close> reads its configuration from the environment, starts the logger and
  calls \<open>NewProxy\<close>, which reads the CA file, requests a service account token, derives the SPIFFE id from
  the token's claims, fetches the first certificate and starts the rotation goroutine. \<open>Run\<close>
  then accepts connections and starts a handler for each. A handler for an inbound connection
  completes the TLS handshake and relays one HTTP exchange to the local application; one for an
  outbound connection asks the kernel for the original destination and relays one exchange over mutual
  TLS. All handlers read the certificate that the rotation goroutine replaces. The fetch is a gRPC call of the control
  plane: its interceptor has the token reviewed by Kubernetes, its service compares the identity in the token with the
  one asked for and has Vault issue the pair. The admission webhook of the same program writes the arguments and the
  environment of the two Go programs.

  \<^bold>\<open>Theories and code.\<close>
  \<^item> \<open>Prelude\<close>, \<open>GoLib\<close>, \<open>GoNet\<close>: numerals, results, and what the program uses of Go's \<open>strings\<close>,
    \<open>strconv\<close>, \<open>net\<close>, \<open>context\<close>, \<open>crypto/tls\<close> and \<open>net/http\<close>.
  \<^item> \<open>Config\<close>: \<open>internal/config/config.go\<close>, the records, \<open>CreateProxyConfig\<close>, \<open>Load\<close>.
  \<^item> \<open>AsyncLog\<close>: \<open>internal/logger/async_writer.go\<close>, the buffered channel, the \<open>bufio.Writer\<close> and the
    worker goroutine, over every interleaving of writers, worker and \<open>Close\<close>.
  \<^item> \<open>Logger\<close>: \<open>internal/logger/logger.go\<close> and \<open>middleware.go\<close>, handlers, levels, the HTTP middleware.
  \<^item> \<open>Identity\<close>: \<open>internal/utils/utils.go\<close>, \<open>token_provider.go\<close>, \<open>internal/grpc/cert_fetcher.go\<close>.
  \<^item> \<open>CertManager\<close>: \<open>internal/cert_manager/cert_manager.go\<close>, the rotation goroutine as a state machine
    (\<open>rot_step\<close>), whose program counter names the blocking points of \<open>StartRotation\<close>.
  \<^item> \<open>RWLock\<close>: the critical sections of the same file, store by store and load by load.
  \<^item> \<open>SharedCert\<close>: the goroutine and \<open>GetCurrentCertificate\<close> as threads over shared memory, with Go's lock.
  \<^item> \<open>HttpRelay\<close>, \<open>CopyRelay\<close>: the HTTP relays, \<open>ExtractIdentity\<close>, \<open>ExtractServerName\<close> and \<open>proxyCopy\<close>
    of \<open>internal/proxy/proxy.go\<close>.
  \<^item> \<open>Proxy\<close>, \<open>ProxyRun\<close>, \<open>DirectMode\<close>: the rest of that file: the connection handlers as traces of
    network actions, \<open>NewProxy\<close>, \<open>Run\<close> and the accept loops, the HTTP handlers of direct mode.
  \<^item> \<open>ProxyLog\<close>: the log lines of the same handlers.
  \<^item> \<open>Mesh\<close>: two sidecars, an outbound handler of one and an inbound handler of the other.
  \<^item> \<open>Firewall\<close>: \<open>sentinel-init/cmd/main.go\<close>, the rule texts, their execution, the fate of packets.
  \<^item> \<open>Netfilter\<close>: the kernel's tables as \<open>setupIPTables\<close> leaves them after any history of container runs.
  \<^item> \<open>InitLog\<close>: the init container's own copy of the logger (\<open>sentinel-init/internal/logger/\<close>: the writer,
    \<open>InitLogger\<close>, \<open>Handle\<close>, the middleware nobody calls) and every log line of its \<open>main\<close>.
  \<^item> \<open>MainProg\<close>: \<open>data-plane/cmd/main.go\<close>, configuration, start with retries, end of the process.
  \<^item> \<open>RotationLive\<close>: \<open>RealTokenProvider\<close> and the rotation with the providers the program passes to it.
  \<^item> \<open>Outage\<close>, \<open>OutageSystem\<close>: the same goroutine and the process of \<open>System\<close> on the clock.
  \<^item> \<open>GoUrl\<close>: Go's \<open>url.Parse\<close>, as far as the host and path of \<open>TARGET_URL\<close> depend on it.
  \<^item> \<open>System\<close>: the running data plane, an interleaving of accepted connections and steps of the rotation
    that share the certificate manager (\<open>run_system\<close>), from the environment of the process on.
  \<^item> \<open>SharedSystem\<close>: the threads of \<open>SharedCert\<close> as such an interleaving.
  \<^item> \<open>Pod\<close>: the flags and the environment that the control plane's \<open>SidecarInjectionWebhook\<close> gives the two
    programs, and what they do together in a pod.
  \<^item> \<open>Cluster\<close>: two such pods, from application to application.
  \<^item> \<open>JavaLib\<close>, \<open>Json\<close>: what the control plane uses of Java's strings, \<open>Base64\<close> and JSON trees, and a reader for JSON texts.
  \<^item> \<open>ControlPlane\<close>: \<open>K8sTokenReviewService\<close>, \<open>VaultPkiService\<close>, \<open>IdentityService\<close>, \<open>AuditService\<close> and
    \<open>GrpcServerInterceptor\<close>, a call as two events on the threads of the server (\<open>cp_step\<close>).
  \<^item> \<open>HttpApi\<close>: \<open>RequestLoggingInterceptor\<close>, \<open>SentinelSecurityInterceptor\<close> and \<open>IdentityController\<close> for one request.
  \<^item> \<open>Issuance\<close>: the sidecar's \<open>Fetch\<close> against that service, and its certificate in another pod.
  \<^item> \<open>Fleet\<close>: any number of rotations and the control plane, with calls on their way between them (\<open>fleet_step\<close>).
  \<^item> \<open>ForeignIdentity\<close>: two callers in such a fleet, and what a third pod makes of the certificate of one of them.
  \<^item> \<open>Webhook\<close>: \<open>SidecarInjectionWebhook.java\<close>, the text of its patch, and what the API server, the kubelet and Go's
    \<open>flag\<close> package make of it, down to the environment and the flags of \<open>Pod\<close>.
  \<^item> \<open>AnnotatedPod\<close>: webhook, init container and sidecar together, from the annotation to the packet rules.

  \<^bold>\<open>What the lemmas show.\<close> Zero trust inbound: no byte reaches the application unless the client has
  presented a chain that verifies (\<open>Proxy\<close>, \<open>ProxyRun\<close>, \<open>DirectMode\<close>), over every run of the
  whole process (\<open>System\<close>). Availability of the identity: there is a usable certificate at every moment of
  every rotation, replaced atomically, the latest one is presented, renewal does not get stuck, and outages of known length
  are survived (\<open>CertManager\<close>, \<open>RWLock\<close>, \<open>ProxyRun\<close>, \<open>System\<close>, \<open>RotationLive\<close>, \<open>Outage\<close>, \<open>OutageSystem\<close>). Concurrency: the threads over
  shared memory do what the atomic steps of these theories say, without a data race, and no number of
  handshakes holds up a renewal (\<open>SharedCert\<close>, \<open>SharedSystem\<close>). Transport: relays and copies are
  faithful, connections are closed, goroutines end, requests arrive (\<open>HttpRelay\<close>, \<open>CopyRelay\<close>, \<open>Proxy\<close>,
  \<open>Mesh\<close>, \<open>Cluster\<close>). Interception: which packets go where after any history of runs, and that the ports
  are those on which the sidecar listens (\<open>Firewall\<close>, \<open>Netfilter\<close>, \<open>Pod\<close>). Logging: nothing accepted is
  lost or reordered, closing flushes and ends (\<open>AsyncLog\<close>, \<open>InitLog\<close>), and what is logged of a connection is what
  has happened (\<open>ProxyLog\<close>). Issuance: certificates and keys go only to callers
  whose accepted token names the identity asked for (\<open>ControlPlane\<close>, \<open>Issuance\<close>), whatever else goes on in the mesh
  (\<open>Fleet\<close>), and Go and Java derive the same identity from a token. Injection: the webhook's patch is JSON that appends the two containers with exactly the settings
  the theorems on pods assume (\<open>Webhook\<close>, \<open>AnnotatedPod\<close>). Some theorems pin down behaviour that is probably not intended: outbound
  connections accept every server certificate, TPROXY connections are never forwarded, a half-closed
  stream is cut, an unparsable certificate or an empty token stops renewal for good, the init
  container reports success whatever happened, a dry run still adds routes, old TPROXY rules of the mangle
  table outlive every later run, logger attributes are lost in \<open>With\<close>, direct mode waits for a signal even
  when it could not listen and panics on a target that does not parse, a target without a scheme is accepted
  and never dialled, the control plane names its callers by thread, so that one pod may appear as another
  to its peers (\<open>ForeignIdentity\<close>), and reads tokens with the wrong base64 alphabet, and the webhook does not escape what it inserts.

  \<^bold>\<open>Interfaces.\<close> \<open>fifo_channel\<close>, \<open>byte_stream\<close> and \<open>log_pump\<close> (\<open>AsyncLog\<close>) are what the worker relies on of
  channels and buffered writers, interpreted by the models of both; \<open>cert_fetcher\<close> (\<open>Identity\<close>) is what
  the rotation relies on of \<open>Fetch\<close>, interpreted by its model; \<open>rw_lock\<close> (\<open>RWLock\<close>) is the mutual
  exclusion of the read-write mutex, extended by \<open>fair_rw_lock\<close> (\<open>SharedCert\<close>) with Go's promise to
  a waiting writer; \<open>token_provider\<close>, \<open>parsing_fetcher\<close> and their sum \<open>rotation_env\<close>
  (\<open>RotationLive\<close>) are what keeps the rotation alive, interpreted by the Kubernetes provider and \<open>Fetch\<close>;
  \<open>certificate_service\<close> (\<open>Issuance\<close>) is what \<open>Fetch\<close> relies on of the control plane, interpreted by its model.

  \<^bold>\<open>Bounds and fuel.\<close> Loops are structural or have a measure. Only the JSON parser runs on fuel, as much as there are
  tokens, which is enough: it reads back what \<open>json_tokens\<close> writes (\<open>json_read_tokens\<close>). The traversal of packet
  rules bounds the depth of jumps by 2, the deepest nesting of the chains the program builds;
  running out is a value of its own (\<open>TooDeep\<close>), and the fate theorems show it does not occur. Goroutines
  that run forever are step relations, with theorems about every finite run. Durations are
  64-bit words; \<open>time.Until\<close> saturates.

  \<^bold>\<open>Parameters.\<close> Chain verification, PEM and DER decoding, JWT parsing, bracketed hosts in \<open>url.Parse\<close>, the Kubernetes API,
  the gRPC call (but in \<open>Issuance\<close> and \<open>Fleet\<close>), Kubernetes' token review, Vault, Jackson's parser, dialling, the peers of a handshake, the results of reading and writing
  HTTP messages, the kernel's packet matches. Where a theorem needs a law of such a parameter it is a hypothesis
  (\<open>documented\<close>, the fetched answers come from \<open>Fetch\<close>).

  \<^bold>\<open>Not modelled.\<close> Spring's configuration classes, log lines and timing in the control plane, charts and manifests, generated
  gRPC code, tests, the inside of \<open>http.Server\<close> and its shutdown, the text of log lines and their JSON form.
\<close>

end
